theory Spec2Isabelle
  imports Complex_Main "HOL-Library.Monad_Syntax" "HOL-Library.Multiset"
begin

text \<open>
  A model of the brand analyzer of \<open>api/index.js\<close>: the URL normalizer, the five
  extractors (logo, metadata, tagline, fonts, colors) and the route that runs them.

  What the program takes from outside is a parameter of the model, and the theorems hold
  for every value of it: the parsed document (cheerio's \<open>$\<close>), the platform's URL class,
  the network, the order in which concurrent fetches complete, and the two computations
  in floating point.  A function of the source that can throw returns a sum, \<open>Inl\<close> the
  error.  A function that runs a \<open>while\<close> loop over \<open>exec\<close> returns an option, \<open>None\<close> when
  the loop does not end; each is then proved to return.
\<close>

section \<open>Strings\<close>

text \<open>
  JavaScript strings are modelled as \<open>string\<close>, one \<open>char\<close> per UTF-16 code unit.  A
  \<open>char\<close> has eight bits, so the model covers the strings whose code units are all below
  256 (the Latin-1 range, \<open>CHR n\<close> standing for U+00n), and \<open>length\<close> is the \<open>.length\<close> of the
  source.  White space, line ends and case conversion are those of ECMAScript on that range.

  \<open>js_ws\<close> lists the code units below 256 that \<open>String.prototype.trim\<close>, \<open>parseInt\<close> and the
  class \<open>\s\<close> of a regular expression treat as white space: tab, line feed, vertical tab,
  form feed, carriage return, space and the no-break space U+00A0.  (The others, U+FEFF,
  U+2028, U+2029 and the space separators from U+1680 on, lie above 255.)
\<close>

definition js_ws :: "char list" where
  "js_ws = [CHR 0x09, CHR 0x0A, CHR 0x0B, CHR 0x0C, CHR 0x0D, CHR '' '', CHR 0xA0]"

definition trim :: "string \<Rightarrow> string" where
  "trim s = rev (dropWhile (\<lambda>c. c \<in> set js_ws) (rev (dropWhile (\<lambda>c. c \<in> set js_ws) s)))"

definition lowers :: "char list" where
  "lowers = ''abcdefghijklmnopqrstuvwxyz''"

definition uppers :: "char list" where
  "uppers = ''ABCDEFGHIJKLMNOPQRSTUVWXYZ''"

definition digits :: "char list" where
  "digits = ''0123456789''"

text \<open>
  The letters of the range above ASCII: U+00C0 to U+00DE without the multiplication sign
  U+00D7 are the capitals of U+00E0 to U+00FE without the division sign U+00F7.
\<close>

definition latin_uppers :: "char list" where
  "latin_uppers = [CHR 0xC0, CHR 0xC1, CHR 0xC2, CHR 0xC3, CHR 0xC4, CHR 0xC5, CHR 0xC6,
     CHR 0xC7, CHR 0xC8, CHR 0xC9, CHR 0xCA, CHR 0xCB, CHR 0xCC, CHR 0xCD, CHR 0xCE,
     CHR 0xCF, CHR 0xD0, CHR 0xD1, CHR 0xD2, CHR 0xD3, CHR 0xD4, CHR 0xD5, CHR 0xD6,
     CHR 0xD8, CHR 0xD9, CHR 0xDA, CHR 0xDB, CHR 0xDC, CHR 0xDD, CHR 0xDE]"

definition latin_lowers :: "char list" where
  "latin_lowers = [CHR 0xE0, CHR 0xE1, CHR 0xE2, CHR 0xE3, CHR 0xE4, CHR 0xE5, CHR 0xE6,
     CHR 0xE7, CHR 0xE8, CHR 0xE9, CHR 0xEA, CHR 0xEB, CHR 0xEC, CHR 0xED, CHR 0xEE,
     CHR 0xEF, CHR 0xF0, CHR 0xF1, CHR 0xF2, CHR 0xF3, CHR 0xF4, CHR 0xF5, CHR 0xF6,
     CHR 0xF8, CHR 0xF9, CHR 0xFA, CHR 0xFB, CHR 0xFC, CHR 0xFD, CHR 0xFE]"

definition upper_char :: "char \<Rightarrow> char" where
  "upper_char c = (case map_of (zip (lowers @ latin_lowers) (uppers @ latin_uppers)) c of
                     Some u \<Rightarrow> u | None \<Rightarrow> c)"

definition lower_char :: "char \<Rightarrow> char" where
  "lower_char c = (case map_of (zip (uppers @ latin_uppers) (lowers @ latin_lowers)) c of
                     Some l \<Rightarrow> l | None \<Rightarrow> c)"

text \<open>
  \<open>s.toUpperCase()\<close>.  The sharp s U+00DF becomes \<open>SS\<close>.  The capitals of the micro sign
  U+00B5 and of U+00FF lie above 255; the source upper-cases only hexadecimal color
  text, which has neither.
\<close>

definition toUpperCase :: "string \<Rightarrow> string" where
  "toUpperCase s = concat (map (\<lambda>c. if c = CHR 0xDF then ''SS'' else [upper_char c]) s)"

definition toLowerCase :: "string \<Rightarrow> string" where
  "toLowerCase s = map lower_char s"

text \<open>\<open>s.split(c)\<close> for a one-character separator: never the empty list.\<close>

fun split_on :: "char \<Rightarrow> string \<Rightarrow> string list" where
  "split_on sep [] = [[]]"
| "split_on sep (c # cs) =
     (if c = sep then [] # split_on sep cs
      else (case split_on sep cs of
              w # ws \<Rightarrow> (c # w) # ws
            | [] \<Rightarrow> [[c]]))"

text \<open>\<open>s.includes(t)\<close>.\<close>

fun js_includes :: "string \<Rightarrow> string \<Rightarrow> bool" where
  "js_includes [] t = (t = [])"
| "js_includes (c # cs) t = (take (length t) (c # cs) = t \<or> js_includes cs t)"

text \<open>\<open>v || ''\<close> for a value that is a string or \<open>undefined\<close>.\<close>

definition or_empty :: "string option \<Rightarrow> string" where
  "or_empty v = (case v of Some s \<Rightarrow> s | None \<Rightarrow> [])"

section \<open>Regular expressions\<close>

text \<open>
  The regular expressions of the source are values of a small syntax, matched by a
  backtracking matcher that returns every way to match at the current position, in the
  order a backtracking engine tries them (greedy quantifiers, left alternative first).
  A state is the character before the position (for \<open>^\<close> under the \<open>m\<close> flag), the rest
  of the input, and the captures made so far.  The source has no capture group under a
  quantifier, no back reference and no lazy quantifier.
\<close>

datatype regex =
    Cls "char list"
  | NCls "char list"
  | Eps
  | Seq regex regex
  | Alt regex regex
  | Star regex
  | Group nat regex
  | NegLook regex
  | Bol
  | BolM
  | Eol

type_synonym caps = "(nat \<times> string) list"
type_synonym mstate = "char option \<times> string \<times> caps"

definition rest_of :: "mstate \<Rightarrow> string" where
  "rest_of st = fst (snd st)"

text \<open>
  A greedy star: as many iterations as possible first.  An iteration that consumes
  nothing is not taken (ECMAScript's empty check), so the length of the input bounds the
  number of iterations.
\<close>

fun star :: "(mstate \<Rightarrow> mstate list) \<Rightarrow> nat \<Rightarrow> mstate \<Rightarrow> mstate list" where
  "star m 0 st = [st]"
| "star m (Suc n) st =
     concat (map (star m n)
       (filter (\<lambda>st'. length (rest_of st') < length (rest_of st)) (m st))) @ [st]"

fun rmatch :: "regex \<Rightarrow> mstate \<Rightarrow> mstate list" where
  "rmatch (Cls cs) (p, s, g) =
     (case s of [] \<Rightarrow> [] | c # t \<Rightarrow> if c \<in> set cs then [(Some c, t, g)] else [])"
| "rmatch (NCls cs) (p, s, g) =
     (case s of [] \<Rightarrow> [] | c # t \<Rightarrow> if c \<in> set cs then [] else [(Some c, t, g)])"
| "rmatch Eps st = [st]"
| "rmatch (Seq a b) st = concat (map (rmatch b) (rmatch a st))"
| "rmatch (Alt a b) st = rmatch a st @ rmatch b st"
| "rmatch (Star a) (p, s, g) = star (rmatch a) (length s) (p, s, g)"
| "rmatch (Group i a) (p, s, g) =
     map (\<lambda>(p', s', g'). (p', s', (i, take (length s - length s') s) # g'))
       (rmatch a (p, s, g))"
| "rmatch (NegLook a) st = (if rmatch a st = [] then [st] else [])"
| "rmatch Bol (p, s, g) = (if p = None then [(p, s, g)] else [])"
| "rmatch BolM (p, s, g) =
     (if p = None \<or> p = Some (CHR 0x0A) \<or> p = Some (CHR 0x0D) then [(p, s, g)] else [])"
| "rmatch Eol (p, s, g) = (if s = [] then [(p, s, g)] else [])"

text \<open>Derived forms, as the source writes them.\<close>

definition Opt :: "regex \<Rightarrow> regex" where
  "Opt r = Alt r Eps"

definition Plus :: "regex \<Rightarrow> regex" where
  "Plus r = Seq r (Star r)"

fun seqs :: "regex list \<Rightarrow> regex" where
  "seqs [] = Eps"
| "seqs [r] = r"
| "seqs (r # rs) = Seq r (seqs rs)"

fun alts :: "regex list \<Rightarrow> regex" where
  "alts [] = Cls []"
| "alts [r] = r"
| "alts (r # rs) = Alt r (alts rs)"

text \<open>\<open>r{n}\<close> and \<open>r{n,m}\<close> (\<open>rep_upto k r\<close> is at most \<open>k\<close> more, greedy).\<close>

fun rep_upto :: "nat \<Rightarrow> regex \<Rightarrow> regex" where
  "rep_upto 0 r = Eps"
| "rep_upto (Suc k) r = Opt (Seq r (rep_upto k r))"

fun rep_range :: "nat \<Rightarrow> nat \<Rightarrow> regex \<Rightarrow> regex" where
  "rep_range 0 m r = rep_upto m r"
| "rep_range (Suc n) m r = Seq r (rep_range n (m - 1) r)"

definition rep :: "nat \<Rightarrow> regex \<Rightarrow> regex" where
  "rep n r = rep_range n n r"

text \<open>A literal, and a literal under the \<open>i\<close> flag.\<close>

definition lit :: "string \<Rightarrow> regex" where
  "lit s = seqs (map (\<lambda>c. Cls [c]) s)"

definition liti :: "string \<Rightarrow> regex" where
  "liti s = seqs (map (\<lambda>c. Cls (remdups [c, upper_char c, lower_char c])) s)"

text \<open>The classes \<open>\w\<close>, \<open>\d\<close>, \<open>\s\<close>, \<open>[\w-]\<close> and \<open>[0-9a-fA-F]\<close>.\<close>

definition word_chars :: "char list" where
  "word_chars = lowers @ uppers @ digits @ ''_''"

definition hex_chars :: "char list" where
  "hex_chars = digits @ ''abcdef'' @ ''ABCDEF''"

text \<open>
  The first match at or after the current position (\<open>RegExp.prototype.exec\<close> from
  \<open>lastIndex\<close>): the matched text, the captures, the character before the end of the
  match and the input after it.
\<close>

fun search :: "regex \<Rightarrow> char option \<Rightarrow> string \<Rightarrow> (string \<times> caps \<times> char option \<times> string) option" where
  "search r p [] =
     (case rmatch r (p, [], []) of
        (p', s', g) # _ \<Rightarrow> Some ([], g, p', s')
      | [] \<Rightarrow> None)"
| "search r p (c # t) =
     (case rmatch r (p, c # t, []) of
        (p', s', g) # _ \<Rightarrow> Some (take (length (c # t) - length s') (c # t), g, p', s')
      | [] \<Rightarrow> search r (Some c) t)"

text \<open>\<open>re.test(s)\<close> and \<open>s.match(re)\<close> for a regular expression without the \<open>g\<close> flag.\<close>

definition test :: "regex \<Rightarrow> string \<Rightarrow> bool" where
  "test r s = (search r None s \<noteq> None)"

definition match1 :: "regex \<Rightarrow> string \<Rightarrow> caps option" where
  "match1 r s = map_option (\<lambda>(m, g, p, s'). g) (search r None s)"

text \<open>\<open>m[i]\<close> of a match: the text of group \<open>i\<close>, when the group took part.\<close>

definition cap :: "nat \<Rightarrow> caps \<Rightarrow> string option" where
  "cap i g = map_of g i"

lemma search_shorter:
  "search r p s = Some (m, g, p', s') \<Longrightarrow> m \<noteq> [] \<Longrightarrow> length s' < length s"
proof (induction r p s rule: search.induct)
  case (1 r p)
  then show ?case by (auto split: list.splits)
next
  case (2 r p c t)
  show ?case
  proof (cases "rmatch r (p, c # t, [])")
    case Nil
    with 2 show ?thesis by fastforce
  next
    case (Cons st sts)
    obtain p1 s1 g1 where st: "st = (p1, s1, g1)" by (cases st)
    from 2(2) Cons st have "m = take (length (c # t) - length s1) (c # t)" and "s' = s1"
      by auto
    with 2(3) show ?thesis by (cases "length s1 < length (c # t)") auto
  qed
qed

text \<open>
  The loop \<open>while ((m = re.exec(text)) !== null) { ... }\<close> of a regular expression with
  the \<open>g\<close> flag, whose body does not touch \<open>re\<close>: the matches in order.  \<open>exec\<close> leaves
  \<open>lastIndex\<close> at the end of the match, so after an empty match the same match is found
  again and the loop never ends: that is the value \<open>None\<close>.
\<close>

function exec_all :: "regex \<Rightarrow> char option \<Rightarrow> string \<Rightarrow> (string \<times> caps) list option" where
  "exec_all r p s =
     (case search r p s of
        None \<Rightarrow> Some []
      | Some (m, g, p', s') \<Rightarrow>
          if m = [] then None else map_option ((#) (m, g)) (exec_all r p' s'))"
  by pat_completeness auto
termination
  by (relation "measure (\<lambda>(r, p, s). length s)") (auto dest: search_shorter)

declare exec_all.simps [simp del]

text \<open>
  A syntactic check that every match of a regular expression consumes a character: for
  such an expression the \<open>exec\<close> loop ends.
\<close>

fun consumes :: "regex \<Rightarrow> bool" where
  "consumes (Cls cs) = True"
| "consumes (NCls cs) = True"
| "consumes (Seq a b) = (consumes a \<or> consumes b)"
| "consumes (Alt a b) = (consumes a \<and> consumes b)"
| "consumes (Group i a) = consumes a"
| "consumes _ = False"

lemma star_le:
  assumes "\<And>st st'. st' \<in> set (m st) \<Longrightarrow> length (rest_of st') \<le> length (rest_of st)"
  shows "st' \<in> set (star m n st) \<Longrightarrow> length (rest_of st') \<le> length (rest_of st)"
proof (induction n arbitrary: st st')
  case 0
  then show ?case by simp
next
  case (Suc n)
  from Suc.prems consider "st' = st"
    | st1 where "st1 \<in> set (m st)" "length (rest_of st1) < length (rest_of st)" "st' \<in> set (star m n st1)"
    by auto
  then show ?case
  proof cases
    case 1
    then show ?thesis by simp
  next
    case 2
    from Suc.IH [OF 2(3)] 2(2) show ?thesis by simp
  qed
qed

lemma rmatch_le:
  "st' \<in> set (rmatch r st) \<Longrightarrow> length (rest_of st') \<le> length (rest_of st)"
proof (induction r arbitrary: st st')
  case (Cls cs)
  then show ?case by (cases st) (auto simp: rest_of_def split: list.splits if_splits)
next
  case (NCls cs)
  then show ?case by (cases st) (auto simp: rest_of_def split: list.splits if_splits)
next
  case Eps
  then show ?case by simp
next
  case (Seq a b)
  from Seq.prems obtain st1 where "st1 \<in> set (rmatch a st)" "st' \<in> set (rmatch b st1)"
    by auto
  with Seq.IH show ?case by (meson le_trans)
next
  case (Alt a b)
  from Alt.prems have "st' \<in> set (rmatch a st) \<or> st' \<in> set (rmatch b st)" by simp
  with Alt.IH show ?case by blast
next
  case (Star a)
  obtain p s g where st: "st = (p, s, g)" by (cases st)
  from Star.prems st have "st' \<in> set (star (rmatch a) (length s) st)" by simp
  then show ?case using Star.IH by (rule star_le [rotated])
next
  case (Group i a)
  obtain p s g where st: "st = (p, s, g)" by (cases st)
  from Group.prems st obtain p1 s1 g1 where "(p1, s1, g1) \<in> set (rmatch a st)"
    "st' = (p1, s1, (i, take (length s - length s1) s) # g1)"
    by auto
  with Group.IH [of "(p1, s1, g1)" st] show ?case by (simp add: rest_of_def)
next
  case (NegLook a)
  then show ?case by (auto split: if_splits)
next
  case Bol
  then show ?case by (cases st) (auto split: if_splits)
next
  case BolM
  then show ?case by (cases st) (auto split: if_splits)
next
  case Eol
  then show ?case by (cases st) (auto split: if_splits)
qed

lemma rmatch_lt:
  "consumes r \<Longrightarrow> st' \<in> set (rmatch r st) \<Longrightarrow> length (rest_of st') < length (rest_of st)"
proof (induction r arbitrary: st st')
  case (Cls cs)
  then show ?case by (cases st) (auto simp: rest_of_def split: list.splits if_splits)
next
  case (NCls cs)
  then show ?case by (cases st) (auto simp: rest_of_def split: list.splits if_splits)
next
  case (Seq a b)
  from Seq.prems obtain st1 where 1: "st1 \<in> set (rmatch a st)" and 2: "st' \<in> set (rmatch b st1)"
    by auto
  from Seq.prems(1) consider "consumes a" | "consumes b" by auto
  then show ?case
  proof cases
    case 1
    from Seq.IH(1) [OF 1 \<open>st1 \<in> set (rmatch a st)\<close>] rmatch_le [OF 2] show ?thesis by simp
  next
    case 2
    from Seq.IH(2) [OF 2 \<open>st' \<in> set (rmatch b st1)\<close>] rmatch_le [OF \<open>st1 \<in> set (rmatch a st)\<close>]
    show ?thesis by simp
  qed
next
  case (Alt a b)
  from Alt.prems(2) have "st' \<in> set (rmatch a st) \<or> st' \<in> set (rmatch b st)" by simp
  moreover from Alt.prems(1) have "consumes a" "consumes b" by simp_all
  ultimately show ?case using Alt.IH by blast
next
  case (Group i a)
  obtain p s g where st: "st = (p, s, g)" by (cases st)
  from Group.prems st obtain p1 s1 g1 where "(p1, s1, g1) \<in> set (rmatch a st)"
    "st' = (p1, s1, (i, take (length s - length s1) s) # g1)"
    by auto
  with Group.IH [of "(p1, s1, g1)" st] Group.prems(1) show ?case by (simp add: rest_of_def)
qed simp_all

lemma search_nonempty:
  "consumes r \<Longrightarrow> search r p s = Some (m, g, p', s') \<Longrightarrow> m \<noteq> []"
proof (induction r p s rule: search.induct)
  case (1 r p)
  show ?case
  proof (cases "rmatch r (p, [], [])")
    case Nil
    with 1 show ?thesis by simp
  next
    case (Cons st sts)
    then have "st \<in> set (rmatch r (p, [], []))" by simp
    from rmatch_lt [OF 1(1) this] show ?thesis by (simp add: rest_of_def)
  qed
next
  case (2 r p c t)
  show ?case
  proof (cases "rmatch r (p, c # t, [])")
    case Nil
    with 2 show ?thesis by simp
  next
    case (Cons st sts)
    obtain p1 s1 g1 where st: "st = (p1, s1, g1)" by (cases st)
    from Cons have "st \<in> set (rmatch r (p, c # t, []))" by simp
    from rmatch_lt [OF 2(2) this] st have "length s1 < length (c # t)" by (simp add: rest_of_def)
    moreover from 2(3) Cons st have "m = take (length (c # t) - length s1) (c # t)" by auto
    ultimately show ?thesis by auto
  qed
qed

lemma exec_all_total:
  "consumes r \<Longrightarrow> exec_all r p s \<noteq> None"
proof (induction r p s rule: exec_all.induct)
  case (1 r p s)
  show ?case
  proof (cases "search r p s")
    case None
    then show ?thesis by (simp add: exec_all.simps)
  next
    case (Some a)
    obtain m g p' s' where a: "a = (m, g, p', s')" by (cases a)
    from search_nonempty [OF 1(2)] Some a have "m \<noteq> []" by simp
    with 1 Some a show ?thesis by (subst exec_all.simps) auto
  qed
qed

section \<open>Numbers\<close>

text \<open>
  Floating point is not modelled.  Where the source computes with doubles in a way that
  exact arithmetic does not reproduce, the computation is a field of the record \<open>fp\<close>,
  which the definitions take as a parameter and the theorems quantify over:
  \<open>hslToHex_fp h s l\<close> is \<open>hslToHex(parseFloat(h), parseFloat(s), parseFloat(l))\<close>, and
  \<open>big_hex n\<close> is \<open>n.toString(16)\<close> of the double nearest to an integer \<open>n\<close> above
  \<open>2^53\<close>.
\<close>

record fp =
  hslToHex_fp :: "string \<Rightarrow> string \<Rightarrow> string \<Rightarrow> string"
  big_hex :: "nat \<Rightarrow> string"

definition digit_val :: "char \<Rightarrow> nat option" where
  "digit_val c = map_of (zip (digits @ ''abcdef'' @ ''ABCDEF'')
     ([0, 1, 2, 3, 4, 5, 6, 7, 8, 9] @ [10, 11, 12, 13, 14, 15] @ [10, 11, 12, 13, 14, 15])) c"

definition is_digit_in :: "nat \<Rightarrow> char \<Rightarrow> bool" where
  "is_digit_in radix c = (case digit_val c of Some v \<Rightarrow> v < radix | None \<Rightarrow> False)"

definition digits_val :: "nat \<Rightarrow> string \<Rightarrow> nat" where
  "digits_val radix ds =
     foldl (\<lambda>acc c. acc * radix + (case digit_val c of Some v \<Rightarrow> v | None \<Rightarrow> 0)) 0 ds"

text \<open>
  \<open>parseInt(s, 16)\<close>: leading white space, a sign, an optional \<open>0x\<close>, then the longest
  run of hexadecimal digits; \<open>NaN\<close> (here \<open>None\<close>) when the run is empty.
\<close>

definition strip_0x :: "string \<Rightarrow> string" where
  "strip_0x s = (if take 2 s = ''0x'' \<or> take 2 s = ''0X'' then drop 2 s else s)"

definition parseInt16 :: "string \<Rightarrow> int option" where
  "parseInt16 s =
     (let t = dropWhile (\<lambda>c. c \<in> set js_ws) s;
          neg = (take 1 t = ''-'');
          u = (if take 1 t = ''-'' \<or> take 1 t = ''+'' then drop 1 t else t);
          z = takeWhile (is_digit_in 16) (strip_0x u)
      in if z = [] then None
         else Some (if neg then - int (digits_val 16 z) else int (digits_val 16 z)))"

text \<open>\<open>parseInt(s)\<close> of a string of decimal digits (all the source passes).\<close>

definition parseInt10 :: "string \<Rightarrow> nat" where
  "parseInt10 s = digits_val 10 (takeWhile (is_digit_in 10) s)"

text \<open>\<open>n.toString(16)\<close> of a natural number.\<close>

function to_hex :: "nat \<Rightarrow> string" where
  "to_hex n = (if n < 16 then [''0123456789abcdef'' ! n]
               else to_hex (n div 16) @ [''0123456789abcdef'' ! (n mod 16)])"
  by pat_completeness auto
termination
  by (relation "measure id") auto

declare to_hex.simps [simp del]

definition toString16 :: "fp \<Rightarrow> nat \<Rightarrow> string" where
  "toString16 f n = (if n \<le> 9007199254740992 then to_hex n else big_hex f n)"

text \<open>\<open>s.padStart(2, '0')\<close>.\<close>

definition padStart2 :: "string \<Rightarrow> string" where
  "padStart2 s = replicate (2 - length s) (CHR ''0'') @ s"

section \<open>Colors\<close>

text \<open>The regular expressions of \<open>normalizeColor\<close>.\<close>

definition re_hex6 :: regex where
  "re_hex6 = seqs [Bol, lit ''#'', rep 6 (Cls hex_chars), Eol]"

definition re_hex3 :: regex where
  "re_hex3 = seqs [Bol, lit ''#'', rep 3 (Cls hex_chars), Eol]"

definition re_hex8 :: regex where
  "re_hex8 = seqs [Bol, lit ''#'', rep 8 (Cls hex_chars), Eol]"

text \<open>\<^verbatim>\<open>/^rgba?\(\s*(\d+)\s*,\s*(\d+)\s*,\s*(\d+)/\<close>\<close>

definition re_rgb :: regex where
  "re_rgb = seqs [Bol, lit ''rgb'', Opt (lit ''a''), lit ''('',
     Star (Cls js_ws), Group 1 (Plus (Cls digits)), Star (Cls js_ws), lit '','',
     Star (Cls js_ws), Group 2 (Plus (Cls digits)), Star (Cls js_ws), lit '','',
     Star (Cls js_ws), Group 3 (Plus (Cls digits))]"

text \<open>\<^verbatim>\<open>/^hsla?\(\s*([\d.]+)\s*,\s*([\d.]+)%\s*,\s*([\d.]+)%/\<close>\<close>

definition re_hsl :: regex where
  "re_hsl = seqs [Bol, lit ''hsl'', Opt (lit ''a''), lit ''('',
     Star (Cls js_ws), Group 1 (Plus (Cls (digits @ ''.''))), Star (Cls js_ws), lit '','',
     Star (Cls js_ws), Group 2 (Plus (Cls (digits @ ''.''))), lit ''%'', Star (Cls js_ws), lit '','',
     Star (Cls js_ws), Group 3 (Plus (Cls (digits @ ''.''))), lit ''%'']"

definition hex2 :: "fp \<Rightarrow> string option \<Rightarrow> string" where
  "hex2 f d = padStart2 (toString16 f (parseInt10 (or_empty d)))"

text \<open>Convert a color string to six-digit hex; \<open>None\<close> is the source's \<open>null\<close>.\<close>

definition normalizeColor :: "fp \<Rightarrow> string \<Rightarrow> string option" where
  "normalizeColor f colorStr0 =
     (if colorStr0 = [] then None
      else let colorStr = trim colorStr0 in
        if test re_hex6 colorStr then Some (toUpperCase colorStr)
        else if test re_hex3 colorStr then
          (let r = colorStr ! 1; g = colorStr ! 2; b = colorStr ! 3
           in Some (toUpperCase (''#'' @ [r, r, g, g, b, b])))
        else if test re_hex8 colorStr then Some (toUpperCase (take 7 colorStr))
        else case match1 re_rgb colorStr of
          Some rgb \<Rightarrow>
            (let r = hex2 f (cap 1 rgb); g = hex2 f (cap 2 rgb); b = hex2 f (cap 3 rgb)
             in Some (toUpperCase (''#'' @ r @ g @ b)))
        | None \<Rightarrow>
            (case match1 re_hsl colorStr of
               Some hsl \<Rightarrow>
                 Some (hslToHex_fp f (or_empty (cap 1 hsl)) (or_empty (cap 2 hsl))
                         (or_empty (cap 3 hsl)))
             | None \<Rightarrow> None))"

text \<open>\<open>hex.slice(a, b)\<close> for \<open>0 \<le> a \<le> b\<close>.\<close>

definition slice :: "nat \<Rightarrow> nat \<Rightarrow> string \<Rightarrow> string" where
  "slice a b s = take (b - a) (drop a s)"

text \<open>
  The brightness test.  A channel that does not parse is \<open>NaN\<close>, which makes both
  comparisons false.
\<close>

definition isBlackOrWhite :: "string \<Rightarrow> bool" where
  "isBlackOrWhite hex =
     (if hex = [] \<or> length hex < 6 then False
      else case (parseInt16 (slice 1 3 hex), parseInt16 (slice 3 5 hex), parseInt16 (slice 5 7 hex)) of
        (Some r, Some g, Some b) \<Rightarrow>
          (let brightness = real_of_int (r + g + b) / 3
           in brightness > 230 \<or> brightness < 25)
      | _ \<Rightarrow> False)"

text \<open>
  The color value both scans capture:
  \<^verbatim>\<open>(#[0-9a-fA-F]{3,8}|rgba?\([^)]+\)|hsl[a]?\([^)]+\))\<close> under the \<open>i\<close> flag.
\<close>

definition re_color_value :: regex where
  "re_color_value = alts [
     Seq (lit ''#'') (rep_range 3 8 (Cls hex_chars)),
     seqs [liti ''rgb'', Opt (liti ''a''), lit ''('', Plus (NCls '')''), lit '')''],
     seqs [liti ''hsl'', Opt (liti ''a''), lit ''('', Plus (NCls '')''), lit '')'']]"

text \<open>
  \<^verbatim>\<open>/--([\w-]*(?:color|bg|background|primary|secondary|accent|brand|text|foreground|surface|muted)[\w-]*)\s*:\s*(...)/gi\<close>
\<close>

definition varColorRegex :: regex where
  "varColorRegex = seqs [lit ''--'',
     Group 1 (seqs [Star (Cls (word_chars @ ''-'')),
       alts (map liti [''color'', ''bg'', ''background'', ''primary'', ''secondary'', ''accent'',
         ''brand'', ''text'', ''foreground'', ''surface'', ''muted'']),
       Star (Cls (word_chars @ ''-''))]),
     Star (Cls js_ws), lit '':'', Star (Cls js_ws), Group 2 re_color_value]"

text \<open>
  \<^verbatim>\<open>/(?:^|[{;])\s*(?:background(?:-color)?|color|border-color|fill|stroke)\s*:\s*(...)/gim\<close>
\<close>

definition colorPropRegex :: regex where
  "colorPropRegex = seqs [Alt BolM (Cls ''{;''), Star (Cls js_ws),
     alts [Seq (liti ''background'') (Opt (liti ''-color'')), liti ''color'',
       liti ''border-color'', liti ''fill'', liti ''stroke''],
     Star (Cls js_ws), lit '':'', Star (Cls js_ws), Group 1 re_color_value]"

text \<open>
  The frequency map is a JavaScript \<open>Map\<close>, which keeps its keys in insertion order: an
  association list with distinct keys.  \<open>bump k w m\<close> is
  \<open>m.set(k, (m.get(k) || 0) + w)\<close>.
\<close>

type_synonym colorMap = "(string \<times> nat) list"

fun bump :: "string \<Rightarrow> nat \<Rightarrow> colorMap \<Rightarrow> colorMap" where
  "bump k w [] = [(k, w)]"
| "bump k w ((k', v) # m) = (if k = k' then (k', v + w) # m else (k', v) # bump k w m)"

text \<open>The body of both loops: \<open>if (hex && !isBlackOrWhite(hex)) colorMap.set(...)\<close>.\<close>

definition count_color :: "fp \<Rightarrow> nat \<Rightarrow> string option \<Rightarrow> colorMap \<Rightarrow> colorMap" where
  "count_color f w v m =
     (case normalizeColor f (or_empty v) of
        None \<Rightarrow> m
      | Some hex \<Rightarrow> if hex \<noteq> [] \<and> \<not> isBlackOrWhite hex then bump hex w m else m)"

definition extractColorsFromCSS :: "fp \<Rightarrow> string \<Rightarrow> colorMap option" where
  "extractColorsFromCSS f cssText = do {
     vars \<leftarrow> exec_all varColorRegex None cssText;
     props \<leftarrow> exec_all colorPropRegex None cssText;
     Some (fold (\<lambda>(m, g). count_color f 1 (cap 1 g)) props
            (fold (\<lambda>(m, g). count_color f 3 (cap 2 g)) vars []))
   }"

lemma consumes_varColorRegex: "consumes varColorRegex"
  by code_simp

lemma consumes_colorPropRegex: "consumes colorPropRegex"
  by code_simp

lemma extractColorsFromCSS_total: "\<exists>m. extractColorsFromCSS f cssText = Some m"
proof -
  obtain vars where "exec_all varColorRegex None cssText = Some vars"
    using exec_all_total [OF consumes_varColorRegex, of None cssText] by auto
  moreover obtain props where "exec_all colorPropRegex None cssText = Some props"
    using exec_all_total [OF consumes_colorPropRegex, of None cssText] by auto
  ultimately show ?thesis by (simp add: extractColorsFromCSS_def)
qed

section \<open>The parsed document\<close>

text \<open>
  The source reads the page through cheerio, which is not part of the repository.  A
  parsed document is what the source sees of it: the function \<open>$\<close> from a selector to
  the matching nodes in document order.  The extractors take that function as a
  parameter, so what is proved of them holds for every selector engine; \<open>load\<close> below is
  one, for the selectors the source uses, and gives the examples their documents.
\<close>

datatype node = Element string "(string \<times> string) list" "node list" | Text string

text \<open>
  A selector is a chain of compound selectors joined by the descendant combinator; a
  compound selector is a list of simple ones: a tag name, \<open>[a="v"]\<close>, \<open>[a*="v"]\<close>,
  \<open>.c\<close> and \<open>#i\<close>.
\<close>

datatype simple = Tag string | AttrEq string string | AttrHas string string
  | Class string | Ident string

type_synonym selector = "simple list list"
type_synonym cheerio = "selector \<Rightarrow> node list"

text \<open>\<open>$(el).attr(name)\<close>, and \<open>$(sel).attr(name)\<close>, which reads the first match.\<close>

fun attr :: "node \<Rightarrow> string \<Rightarrow> string option" where
  "attr (Element t as cs) name = map_of as name"
| "attr (Text s) name = None"

definition attr_of :: "node list \<Rightarrow> string \<Rightarrow> string option" where
  "attr_of ns name = (case ns of [] \<Rightarrow> None | n # _ \<Rightarrow> attr n name)"

text \<open>\<open>$(el).text()\<close>: the text of the node and its descendants.\<close>

fun text_of :: "node \<Rightarrow> string" where
  "text_of (Text s) = s"
| "text_of (Element t as cs) = concat (map text_of cs)"

text \<open>\<open>$(sel).first().text()\<close>.\<close>

definition first_text :: "node list \<Rightarrow> string" where
  "first_text ns = (case ns of [] \<Rightarrow> [] | n # _ \<Rightarrow> text_of n)"

text \<open>A value in a condition: \<open>undefined\<close>, \<open>null\<close> and the empty string are false.\<close>

definition truthy :: "string option \<Rightarrow> bool" where
  "truthy v = (case v of None \<Rightarrow> False | Some s \<Rightarrow> s \<noteq> [])"

subsection \<open>A selector engine\<close>

definition words :: "string \<Rightarrow> string list" where
  "words s = filter (\<lambda>w. w \<noteq> []) (map (\<lambda>w. filter (\<lambda>c. c \<notin> set js_ws) w)
     (split_on (CHR '' '') (map (\<lambda>c. if c \<in> set js_ws then CHR '' '' else c) s)))"

fun matches_simple :: "node \<Rightarrow> simple \<Rightarrow> bool" where
  "matches_simple (Text s) x = False"
| "matches_simple (Element t as cs) (Tag n) = (t = n)"
| "matches_simple (Element t as cs) (AttrEq a v) = (map_of as a = Some v)"
| "matches_simple (Element t as cs) (AttrHas a v) =
     (case map_of as a of None \<Rightarrow> False | Some w \<Rightarrow> v \<noteq> [] \<and> js_includes w v)"
| "matches_simple (Element t as cs) (Class c) =
     (case map_of as ''class'' of None \<Rightarrow> False | Some w \<Rightarrow> c \<in> set (words w))"
| "matches_simple (Element t as cs) (Ident i) = (map_of as ''id'' = Some i)"

definition matches_compound :: "node \<Rightarrow> simple list \<Rightarrow> bool" where
  "matches_compound n c = list_all (matches_simple n) c"

text \<open>
  \<open>under_chain anc chain\<close>: the ancestors \<open>anc\<close> of a node, nearest first, hold matches
  of the compounds of \<open>chain\<close>, last compound nearest.
\<close>

fun under_chain :: "node list \<Rightarrow> simple list list \<Rightarrow> bool" where
  "under_chain anc [] = True"
| "under_chain [] (c # cs) = False"
| "under_chain (a # anc) (c # cs) =
     ((matches_compound a c \<and> under_chain anc cs) \<or> under_chain anc (c # cs))"

definition matches_selector :: "node list \<Rightarrow> node \<Rightarrow> selector \<Rightarrow> bool" where
  "matches_selector anc n sel =
     (case rev sel of [] \<Rightarrow> False | c # cs \<Rightarrow> matches_compound n c \<and> under_chain anc cs)"

text \<open>The matches below a list of nodes, in document order.\<close>

fun select_in :: "selector \<Rightarrow> node list \<Rightarrow> node \<Rightarrow> node list" where
  "select_in sel anc (Text s) = []"
| "select_in sel anc (Element t as cs) =
     (if matches_selector anc (Element t as cs) sel then [Element t as cs] else [])
     @ concat (map (select_in sel (Element t as cs # anc)) cs)"

definition load :: "node list \<Rightarrow> cheerio" where
  "load roots sel = concat (map (select_in sel []) roots)"

section \<open>The platform: URLs and the network\<close>

text \<open>
  The URL class of the platform is a parameter too: \<open>url_href U u\<close> is
  \<open>new URL(u).href\<close>, \<open>url_resolve U r b\<close> is \<open>new URL(r, b).href\<close>, \<open>url_origin U u\<close> is
  \<open>new URL(u).origin\<close> and \<open>url_hostname U u\<close> is \<open>new URL(u).hostname\<close>; \<open>None\<close> where
  the constructor throws.
\<close>

record url_api =
  url_href :: "string \<Rightarrow> string option"
  url_resolve :: "string \<Rightarrow> string \<Rightarrow> string option"
  url_origin :: "string \<Rightarrow> string option"
  url_hostname :: "string \<Rightarrow> string option"

text \<open>Resolve a possibly relative URL against a base.\<close>

definition resolveUrl :: "url_api \<Rightarrow> string \<Rightarrow> string \<Rightarrow> string option" where
  "resolveUrl U base relative = (if relative = [] then None else url_resolve U relative base)"

text \<open>
  A request either resolves with the body or rejects with an error, of which the source
  reads \<open>err.response?.status\<close>, \<open>err.code\<close> and \<open>err.message\<close>.  The network is a
  function from the URL to the outcome.
\<close>

record axios_error =
  err_status :: "nat option"
  err_code :: "string option"
  err_message :: "string option"

datatype axios_result = Response string | Rejected axios_error

type_synonym net = "string \<Rightarrow> axios_result"

text \<open>Fetch a CSS file and return its text content.\<close>

definition fetchCSS :: "net \<Rightarrow> string \<Rightarrow> string" where
  "fetchCSS n cssUrl = (case n cssUrl of Response d \<Rightarrow> d | Rejected e \<Rightarrow> [])"

text \<open>
  \<open>Promise.all\<close> over the style sheets: every fetch is started, and each callback runs
  when its fetch completes, in an order the source does not fix.  The order is given by
  a list of choices: each picks the next fetch to complete among those still pending.
\<close>

fun completion_order :: "nat list \<Rightarrow> 'a list \<Rightarrow> 'a list" where
  "completion_order ks [] = []"
| "completion_order [] (x # xs) = x # xs"
| "completion_order (k # ks) (x # xs) =
     (let i = k mod length (x # xs)
      in (x # xs) ! i # completion_order ks (take i (x # xs) @ drop (Suc i) (x # xs)))"

text \<open>
  The style sheets an extractor fetches: the resolved \<open>href\<close> of every
  \<open>link[rel="stylesheet"]\<close> that has one, the first three.
\<close>

definition sel_stylesheet :: selector where
  "sel_stylesheet = [[Tag ''link'', AttrEq ''rel'' ''stylesheet'']]"

definition sel_style :: selector where
  "sel_style = [[Tag ''style'']]"

definition cssUrls :: "url_api \<Rightarrow> cheerio \<Rightarrow> string \<Rightarrow> string option list" where
  "cssUrls U Q baseUrl =
     concat (map (\<lambda>el. if truthy (attr el ''href'')
                         then [resolveUrl U baseUrl (or_empty (attr el ''href''))] else [])
       (Q sel_stylesheet))"

definition cssToFetch :: "url_api \<Rightarrow> cheerio \<Rightarrow> string \<Rightarrow> string list" where
  "cssToFetch U Q baseUrl = take 3 (map or_empty (filter truthy (cssUrls U Q baseUrl)))"

section \<open>The color list\<close>

datatype label = Primary | Secondary | Accent

text \<open>
  A color of the result.  The source's \<open>luminance\<close>, a floating-point number computed
  from \<open>hex\<close> alone, is left out.
\<close>

record colorSample =
  hex :: string
  rgb :: string
  frequency :: nat
  label :: label

text \<open>Decimal printing of a number that is an integer or \<open>NaN\<close>.\<close>

function dec_nat :: "nat \<Rightarrow> string" where
  "dec_nat n = (if n < 10 then [digits ! n] else dec_nat (n div 10) @ [digits ! (n mod 10)])"
  by pat_completeness auto
termination
  by (relation "measure id") auto

declare dec_nat.simps [simp del]

definition show_num :: "int option \<Rightarrow> string" where
  "show_num v = (case v of None \<Rightarrow> ''NaN''
                 | Some i \<Rightarrow> if i < 0 then ''-'' @ dec_nat (nat (- i)) else dec_nat (nat i))"

definition hexToRgb :: "string \<Rightarrow> string" where
  "hexToRgb h = ''rgb('' @ show_num (parseInt16 (slice 1 3 h)) @ '', ''
     @ show_num (parseInt16 (slice 3 5 h)) @ '', '' @ show_num (parseInt16 (slice 5 7 h)) @ '')''"

text \<open>\<open>map.forEach((count, hex) => colorMap.set(hex, (colorMap.get(hex) || 0) + count))\<close>\<close>

definition merge_counts :: "colorMap \<Rightarrow> colorMap \<Rightarrow> colorMap" where
  "merge_counts m acc = fold (\<lambda>(h, cnt). bump h cnt) m acc"

text \<open>
  The accumulated map: the inline style blocks in document order, then the fetched
  style sheets in the order their fetches complete.
\<close>

definition collectColors ::
  "url_api \<Rightarrow> fp \<Rightarrow> net \<Rightarrow> nat list \<Rightarrow> cheerio \<Rightarrow> string \<Rightarrow> colorMap option" where
  "collectColors U f n sched Q baseUrl = do {
     inline \<leftarrow> those (map (\<lambda>el. extractColorsFromCSS f (text_of el)) (Q sel_style));
     fetched \<leftarrow> those (map (\<lambda>cssUrl. extractColorsFromCSS f (fetchCSS n cssUrl))
                   (completion_order sched (cssToFetch U Q baseUrl)));
     Some (fold merge_counts (inline @ fetched) [])
   }"

text \<open>
  Sort by frequency and take the top eight, then relabel the top three.
  \<open>Array.prototype.sort\<close> is stable, and so is \<open>sort_key\<close>; the comparator
  \<open>b[1] - a[1]\<close> is descending order of the counts.
\<close>

definition threshold_label :: "nat \<Rightarrow> label" where
  "threshold_label cnt = (if cnt > 5 then Primary else if cnt > 2 then Secondary else Accent)"

definition mk_sample :: "string \<times> nat \<Rightarrow> colorSample" where
  "mk_sample e = (case e of (h, cnt) \<Rightarrow>
     \<lparr>hex = h, rgb = hexToRgb h, frequency = cnt, label = threshold_label cnt\<rparr>)"

definition relabel :: "nat \<Rightarrow> label \<Rightarrow> colorSample list \<Rightarrow> colorSample list" where
  "relabel i l xs = (if i < length xs then xs[i := (xs ! i)\<lparr>label := l\<rparr>] else xs)"

definition rankColors :: "colorMap \<Rightarrow> colorSample list" where
  "rankColors colorMap =
     (let sorted0 = map mk_sample (take 8 (sort_key (\<lambda>e. - int (snd e)) colorMap))
      in relabel 2 Accent (relabel 1 Secondary (relabel 0 Primary sorted0)))"

definition extractColors ::
  "url_api \<Rightarrow> fp \<Rightarrow> net \<Rightarrow> nat list \<Rightarrow> cheerio \<Rightarrow> string \<Rightarrow> colorSample list option" where
  "extractColors U f n sched Q baseUrl =
     map_option rankColors (collectColors U f n sched Q baseUrl)"

section \<open>The logo\<close>

datatype js_error = Error_Invalid_URL | URL_TypeError

record logoCandidate =
  url :: "string option"
  source :: string
  priority :: nat

definition sel_og_image :: selector where
  "sel_og_image = [[Tag ''meta'', AttrEq ''property'' ''og:image'']]"

definition sel_twitter_image :: selector where
  "sel_twitter_image = [[Tag ''meta'', AttrEq ''name'' ''twitter:image'']]"

definition sel_apple_touch_icon :: selector where
  "sel_apple_touch_icon = [[Tag ''link'', AttrEq ''rel'' ''apple-touch-icon'']]"

definition sel_img :: selector where
  "sel_img = [[Tag ''img'']]"

definition sel_svg :: selector where
  "sel_svg = [[Tag ''svg'']]"

definition sel_icon :: selector where
  "sel_icon = [[Tag ''link'', AttrEq ''rel'' ''icon'']]"

definition sel_shortcut_icon :: selector where
  "sel_shortcut_icon = [[Tag ''link'', AttrEq ''rel'' ''shortcut icon'']]"

text \<open>\<open>a || b\<close> on values that are strings or \<open>undefined\<close>.\<close>

definition or_else :: "string option \<Rightarrow> string option \<Rightarrow> string option" where
  "or_else a b = (if truthy a then a else b)"

text \<open>The candidates pushed by steps 1 to 6, in the order of the pushes.\<close>

definition og_candidates :: "url_api \<Rightarrow> cheerio \<Rightarrow> string \<Rightarrow> logoCandidate list" where
  "og_candidates U Q baseUrl =
     (let ogImg = attr_of (Q sel_og_image) ''content''
      in if truthy ogImg
         then [\<lparr>url = resolveUrl U baseUrl (or_empty ogImg), source = ''og:image'', priority = 1\<rparr>]
         else [])"

definition twitter_candidates :: "url_api \<Rightarrow> cheerio \<Rightarrow> string \<Rightarrow> logoCandidate list" where
  "twitter_candidates U Q baseUrl =
     (let twitterImg = attr_of (Q sel_twitter_image) ''content''
      in if truthy twitterImg
         then [\<lparr>url = resolveUrl U baseUrl (or_empty twitterImg), source = ''twitter:image'',
                 priority = 2\<rparr>]
         else [])"

definition apple_candidates :: "url_api \<Rightarrow> cheerio \<Rightarrow> string \<Rightarrow> logoCandidate list" where
  "apple_candidates U Q baseUrl =
     concat (map (\<lambda>el. let href = attr el ''href''
                        in if truthy href
                           then [\<lparr>url = resolveUrl U baseUrl (or_empty href),
                                   source = ''apple-touch-icon'', priority = 3\<rparr>]
                           else [])
       (Q sel_apple_touch_icon))"

definition isLogo :: "node \<Rightarrow> bool" where
  "isLogo el =
     (let src = or_empty (attr el ''src'');
          alt = toLowerCase (or_empty (attr el ''alt''));
          cls = toLowerCase (or_empty (attr el ''class''));
          id = toLowerCase (or_empty (attr el ''id''))
      in test (liti ''logo'') src \<or> test (lit ''logo'') alt \<or> test (lit ''logo'') cls
         \<or> test (lit ''logo'') id)"

definition img_candidates :: "url_api \<Rightarrow> cheerio \<Rightarrow> string \<Rightarrow> logoCandidate list" where
  "img_candidates U Q baseUrl =
     concat (map (\<lambda>el. let src = or_empty (attr el ''src'')
                        in if isLogo el \<and> src \<noteq> []
                           then [\<lparr>url = resolveUrl U baseUrl src, source = ''img[logo]'',
                                   priority = 4\<rparr>]
                           else [])
       (Q sel_img))"

definition svg_candidates :: "cheerio \<Rightarrow> logoCandidate list" where
  "svg_candidates Q =
     concat (map (\<lambda>el. let cls = toLowerCase (or_empty (attr el ''class''))
                        in if test (lit ''logo'') cls
                           then [\<lparr>url = None, source = ''inline-svg'', priority = 5\<rparr>]
                           else [])
       (Q sel_svg))"

definition favicon_candidates :: "url_api \<Rightarrow> cheerio \<Rightarrow> string \<Rightarrow> logoCandidate list" where
  "favicon_candidates U Q baseUrl =
     (let favicon = or_else (attr_of (Q sel_icon) ''href'') (attr_of (Q sel_shortcut_icon) ''href'')
      in if truthy favicon
         then [\<lparr>url = resolveUrl U baseUrl (or_empty favicon), source = ''favicon'', priority = 6\<rparr>]
         else [])"

definition logoCandidates :: "url_api \<Rightarrow> cheerio \<Rightarrow> string \<Rightarrow> logoCandidate list" where
  "logoCandidates U Q baseUrl =
     og_candidates U Q baseUrl @ twitter_candidates U Q baseUrl @ apple_candidates U Q baseUrl
     @ img_candidates U Q baseUrl @ svg_candidates Q @ favicon_candidates U Q baseUrl"

definition favicon_fallback :: "string \<Rightarrow> logoCandidate" where
  "favicon_fallback origin =
     \<lparr>url = Some (origin @ ''/favicon.ico''), source = ''favicon-fallback'', priority = 7\<rparr>"

text \<open>
  \<open>extractLogo\<close>: step 7 parses the base URL, which throws when it is not one; then the
  candidates are sorted by priority (a stable sort) and the first with a URL is returned,
  or \<open>null\<close>.
\<close>

definition extractLogo :: "url_api \<Rightarrow> cheerio \<Rightarrow> string \<Rightarrow> js_error + logoCandidate option" where
  "extractLogo U Q baseUrl =
     (case url_origin U baseUrl of
        None \<Rightarrow> Inl URL_TypeError
      | Some origin \<Rightarrow>
          Inr (find (\<lambda>c. truthy (url c))
                 (sort_key priority (logoCandidates U Q baseUrl @ [favicon_fallback origin]))))"

text \<open>
  A page without logo signals: none of the steps 1 to 6 pushes a candidate.
\<close>

definition no_logo_signals :: "cheerio \<Rightarrow> bool" where
  "no_logo_signals Q =
     (\<not> truthy (attr_of (Q sel_og_image) ''content'')
      \<and> \<not> truthy (attr_of (Q sel_twitter_image) ''content'')
      \<and> list_all (\<lambda>el. \<not> truthy (attr el ''href'')) (Q sel_apple_touch_icon)
      \<and> list_all (\<lambda>el. \<not> (isLogo el \<and> or_empty (attr el ''src'') \<noteq> [])) (Q sel_img)
      \<and> list_all (\<lambda>el. \<not> test (lit ''logo'') (toLowerCase (or_empty (attr el ''class'')))) (Q sel_svg)
      \<and> \<not> truthy (attr_of (Q sel_icon) ''href'')
      \<and> \<not> truthy (attr_of (Q sel_shortcut_icon) ''href''))"

section \<open>A small URL class for the examples\<close>

text \<open>
  The examples need one concrete URL class.  This one accepts \<open>http\<close> and \<open>https\<close> URLs of
  the form \<open>scheme://host\<close> or \<open>scheme://host/path\<close> over letters, digits and \<open>. - _ /\<close>,
  with no path segment \<open>.\<close> or \<open>..\<close>; it lower-cases the scheme and the host and gives an
  empty path the value \<open>/\<close>; it resolves absolute references and references that start
  with one \<open>/\<close>.  It stands in for the platform's class on the inputs of the examples
  (host names of letters, plain paths), where it does what the platform's class does.
\<close>

definition http_prefix :: "string \<Rightarrow> (string \<times> string) option" where
  "http_prefix u =
     (if toLowerCase (take 7 u) = ''http://'' then Some (''http'', drop 7 u)
      else if toLowerCase (take 8 u) = ''https://'' then Some (''https'', drop 8 u)
      else None)"

definition host_chars :: "char list" where
  "host_chars = lowers @ uppers @ digits @ ''.-''"

definition path_chars :: "char list" where
  "path_chars = lowers @ uppers @ digits @ ''._-/''"

definition plain_path :: "string \<Rightarrow> bool" where
  "plain_path p =
     (take 1 p = ''/'' \<and> list_all (\<lambda>c. c \<in> set path_chars) p
      \<and> list_all (\<lambda>seg. seg \<noteq> ''.'' \<and> seg \<noteq> ''..'') (split_on (CHR ''/'') p))"

definition simple_parse :: "string \<Rightarrow> (string \<times> string \<times> string) option" where
  "simple_parse u =
     (case http_prefix u of
        None \<Rightarrow> None
      | Some (scheme, r) \<Rightarrow>
          (let h = takeWhile (\<lambda>c. c \<in> set host_chars) r;
               p = dropWhile (\<lambda>c. c \<in> set host_chars) r
           in if h = [] then None
              else if p = [] then Some (scheme, toLowerCase h, ''/'')
              else if plain_path p then Some (scheme, toLowerCase h, p)
              else None))"

definition simple_href :: "string \<Rightarrow> string option" where
  "simple_href u = map_option (\<lambda>(scheme, h, p). scheme @ ''://'' @ h @ p) (simple_parse u)"

definition simple_origin :: "string \<Rightarrow> string option" where
  "simple_origin u = map_option (\<lambda>(scheme, h, p). scheme @ ''://'' @ h) (simple_parse u)"

definition simple_hostname :: "string \<Rightarrow> string option" where
  "simple_hostname u = map_option (\<lambda>(scheme, h, p). h) (simple_parse u)"

definition simple_resolve :: "string \<Rightarrow> string \<Rightarrow> string option" where
  "simple_resolve relative base =
     (if http_prefix relative \<noteq> None then simple_href relative
      else if plain_path relative \<and> take 2 relative \<noteq> ''//''
        then map_option (\<lambda>origin. origin @ relative) (simple_origin base)
      else None)"

definition simple_url :: url_api where
  "simple_url = \<lparr>url_href = simple_href, url_resolve = simple_resolve,
     url_origin = simple_origin, url_hostname = simple_hostname\<rparr>"

section \<open>Fonts\<close>

text \<open>
  \<open>s.match(re)\<close> for a regular expression with the \<open>g\<close> flag: the matched texts in
  order.  After an empty match the search moves on by one character.
\<close>

lemma search_le:
  "search r p s = Some (m, g, p', s') \<Longrightarrow> length s' \<le> length s"
proof (induction r p s rule: search.induct)
  case (1 r p)
  show ?case
  proof (cases "rmatch r (p, [], [])")
    case Nil
    with 1 show ?thesis by simp
  next
    case (Cons st sts)
    then have "st \<in> set (rmatch r (p, [], []))" by simp
    from rmatch_le [OF this] Cons 1 show ?thesis by (cases st) (auto simp: rest_of_def)
  qed
next
  case (2 r p c t)
  show ?case
  proof (cases "rmatch r (p, c # t, [])")
    case Nil
    with 2 show ?thesis by fastforce
  next
    case (Cons st sts)
    then have "st \<in> set (rmatch r (p, c # t, []))" by simp
    from rmatch_le [OF this] Cons 2(2) show ?thesis by (cases st) (auto simp: rest_of_def)
  qed
qed

function match_all :: "regex \<Rightarrow> char option \<Rightarrow> string \<Rightarrow> string list" where
  "match_all r p s =
     (case search r p s of
        None \<Rightarrow> []
      | Some (m, g, p', s') \<Rightarrow>
          if m = [] then (case s' of [] \<Rightarrow> [m] | c # t \<Rightarrow> m # match_all r (Some c) t)
          else m # match_all r p' s')"
  by pat_completeness auto
termination
  by (relation "measure (\<lambda>(r, p, s). length s)") (auto dest: search_le search_shorter)

declare match_all.simps [simp del]

text \<open>A JavaScript \<open>Set\<close> of strings, in insertion order.\<close>

definition set_add :: "string \<Rightarrow> string list \<Rightarrow> string list" where
  "set_add x xs = (if x \<in> set xs then xs else xs @ [x])"

definition quotes :: "char list" where
  "quotes = [CHR 0x27, CHR 0x22]"

text \<open>\<^verbatim>\<open>s.replace(/['"]/g, '')\<close> and \<^verbatim>\<open>s.replace(/\+/g, ' ')\<close>.\<close>

definition strip_quotes :: "string \<Rightarrow> string" where
  "strip_quotes s = filter (\<lambda>c. c \<notin> set quotes) s"

definition plus_to_space :: "string \<Rightarrow> string" where
  "plus_to_space s = map (\<lambda>c. if c = CHR ''+'' then CHR '' '' else c) s"

text \<open>\<open>s.split(c)[0]\<close>.\<close>

definition first_part :: "char \<Rightarrow> string \<Rightarrow> string" where
  "first_part c s = (case split_on c s of x # _ \<Rightarrow> x | [] \<Rightarrow> [])"

text \<open>\<^verbatim>\<open>/@font-face\s*\{[^}]*font-family\s*:\s*['"]?([^;'"]+)['"]?/gi\<close>\<close>

definition fontFaceRegex :: regex where
  "fontFaceRegex = seqs [liti ''@font-face'', Star (Cls js_ws), lit ''{'', Star (NCls ''}''),
     liti ''font-family'', Star (Cls js_ws), lit '':'', Star (Cls js_ws), Opt (Cls quotes),
     Group 1 (Plus (NCls ('';'' @ quotes))), Opt (Cls quotes)]"

text \<open>\<^verbatim>\<open>/font-family\s*:\s*([^;}{]+)/gi\<close>\<close>

definition fontFamilyRegex :: regex where
  "fontFamilyRegex = seqs [liti ''font-family'', Star (Cls js_ws), lit '':'', Star (Cls js_ws),
     Group 1 (Plus (NCls '';}{''))]"

text \<open>\<^verbatim>\<open>/--[\w-]*font[\w-]*\s*:\s*['"]?([A-Za-z][^;'"]+)['"]?/gi\<close>\<close>

definition varRegex :: regex where
  "varRegex = seqs [lit ''--'', Star (Cls (word_chars @ ''-'')), liti ''font'',
     Star (Cls (word_chars @ ''-'')), Star (Cls js_ws), lit '':'', Star (Cls js_ws),
     Opt (Cls quotes), Group 1 (Seq (Cls (uppers @ lowers)) (Plus (NCls ('';'' @ quotes)))),
     Opt (Cls quotes)]"

definition generic_families :: "string list" where
  "generic_families = [''serif'', ''sans-serif'', ''monospace'', ''cursive'', ''fantasy'',
     ''inherit'', ''initial'', ''unset'']"

text \<open>The names one match of each loop adds, in order.\<close>

definition face_name :: "string \<times> caps \<Rightarrow> string" where
  "face_name mt = strip_quotes (trim (or_empty (cap 1 (snd mt))))"

definition family_names :: "string \<times> caps \<Rightarrow> string list" where
  "family_names mt =
     (let families = map (\<lambda>f. strip_quotes (trim f)) (split_on (CHR '','') (or_empty (cap 1 (snd mt))))
      in filter (\<lambda>f. toLowerCase f \<notin> set generic_families \<and> length f > 1 \<and> length f < 60)
           families)"

definition var_names :: "string \<times> caps \<Rightarrow> string list" where
  "var_names mt =
     (let val = strip_quotes (trim (or_empty (cap 1 (snd mt))))
      in if length val > 1 \<and> length val < 60 then [val] else [])"

text \<open>Extract font families from CSS text.\<close>

definition extractFontsFromCSS :: "string \<Rightarrow> string list option" where
  "extractFontsFromCSS cssText = do {
     faces \<leftarrow> exec_all fontFaceRegex None cssText;
     families \<leftarrow> exec_all fontFamilyRegex None cssText;
     vars \<leftarrow> exec_all varRegex None cssText;
     Some (fold set_add
             (map face_name faces @ concat (map family_names families)
              @ concat (map var_names vars)) [])
   }"

text \<open>Extract Google Fonts families from link tags.\<close>

definition sel_google_fonts :: selector where
  "sel_google_fonts = [[Tag ''link'', AttrHas ''href'' ''fonts.googleapis.com'']]"

text \<open>\<^verbatim>\<open>/family=([^&]+)/\<close>, \<^verbatim>\<open>/fonts\.googleapis\.com\/css[^'"]+/g\<close> and \<^verbatim>\<open>/family=([^&'"]+)/\<close>\<close>

definition re_family :: regex where
  "re_family = seqs [lit ''family='', Group 1 (Plus (NCls ''&''))]"

definition re_import :: regex where
  "re_import = seqs [lit ''fonts.googleapis.com/css'', Plus (NCls quotes)]"

definition re_family_import :: regex where
  "re_family_import = seqs [lit ''family='', Group 1 (Plus (NCls (''&'' @ quotes)))]"

text \<open>
  The body of \<open>familyParam.split('|').forEach(...)\<close>: the names one \<open>family=\<close> value adds.
\<close>

definition entry_names :: "string \<Rightarrow> string list" where
  "entry_names familyParam =
     concat (map (\<lambda>entry. let name = trim (plus_to_space (first_part (CHR '':'') entry))
                           in if name \<noteq> [] then [name] else [])
       (split_on (CHR ''|'') familyParam))"

text \<open>\<open>href.match(re)?.[1]\<close>, then the names, or nothing when there is no value.\<close>

definition href_families :: "regex \<Rightarrow> string \<Rightarrow> string list" where
  "href_families re href =
     (case match1 re href of
        None \<Rightarrow> []
      | Some g \<Rightarrow> (let familyParam = cap 1 g
                   in if truthy familyParam then entry_names (or_empty familyParam) else []))"

definition link_families :: "node \<Rightarrow> string list" where
  "link_families el = href_families re_family (or_empty (attr el ''href''))"

definition style_families :: "node \<Rightarrow> string list" where
  "style_families el =
     concat (map (href_families re_family_import) (match_all re_import None (text_of el)))"

definition extractGoogleFonts :: "cheerio \<Rightarrow> string list" where
  "extractGoogleFonts Q =
     fold set_add (concat (map link_families (Q sel_google_fonts))
                   @ concat (map style_families (Q sel_style))) []"

datatype category = Serif | Sans_Serif | Monospace

record fontEntry =
  name :: string
  category :: category
  sample :: string

text \<open>
  \<^verbatim>\<open>/mono|code|console|courier|fira|jetbrains|hack|source code/i\<close>,
  \<^verbatim>\<open>/serif(?!less)/i\<close> and \<^verbatim>\<open>/garamond|georgia|times|playfair|merriweather|lora/i\<close>
\<close>

definition re_mono :: regex where
  "re_mono = alts (map liti [''mono'', ''code'', ''console'', ''courier'', ''fira'', ''jetbrains'',
     ''hack'', ''source code''])"

definition re_serif :: regex where
  "re_serif = Seq (liti ''serif'') (NegLook (liti ''less''))"

definition re_serif_names :: regex where
  "re_serif_names = alts (map liti [''garamond'', ''georgia'', ''times'', ''playfair'',
     ''merriweather'', ''lora''])"

definition category_of :: "string \<Rightarrow> category" where
  "category_of nm =
     (if test re_mono nm then Monospace
      else if test re_serif nm \<or> test re_serif_names nm then Serif
      else Sans_Serif)"

definition mk_font :: "string \<Rightarrow> fontEntry" where
  "mk_font nm = \<lparr>name = nm, category = category_of nm, sample = ''Aa Bb Cc 123''\<rparr>"

text \<open>
  The set of font names before the cap: the Google Fonts families, then the inline style
  blocks, then the fetched style sheets in the order their fetches complete.
\<close>

definition collectFonts ::
  "url_api \<Rightarrow> net \<Rightarrow> nat list \<Rightarrow> cheerio \<Rightarrow> string \<Rightarrow> string list option" where
  "collectFonts U n sched Q baseUrl = do {
     inline \<leftarrow> those (map (\<lambda>el. extractFontsFromCSS (text_of el)) (Q sel_style));
     fetched \<leftarrow> those (map (\<lambda>cssUrl. extractFontsFromCSS (fetchCSS n cssUrl))
                   (completion_order sched (cssToFetch U Q baseUrl)));
     Some (fold set_add (extractGoogleFonts Q @ concat inline @ concat fetched) [])
   }"

definition extractFonts ::
  "url_api \<Rightarrow> net \<Rightarrow> nat list \<Rightarrow> cheerio \<Rightarrow> string \<Rightarrow> fontEntry list option" where
  "extractFonts U n sched Q baseUrl =
     map_option (\<lambda>fonts. map mk_font (take 6 fonts)) (collectFonts U n sched Q baseUrl)"

section \<open>Metadata and tagline\<close>

record siteMeta =
  m_title :: string
  m_description :: string
  m_siteName :: string

definition sel_og_title :: selector where
  "sel_og_title = [[Tag ''meta'', AttrEq ''property'' ''og:title'']]"

definition sel_title :: selector where
  "sel_title = [[Tag ''title'']]"

definition sel_description :: selector where
  "sel_description = [[Tag ''meta'', AttrEq ''name'' ''description'']]"

definition sel_og_description :: selector where
  "sel_og_description = [[Tag ''meta'', AttrEq ''property'' ''og:description'']]"

definition sel_twitter_description :: selector where
  "sel_twitter_description = [[Tag ''meta'', AttrEq ''name'' ''twitter:description'']]"

definition sel_og_site_name :: selector where
  "sel_og_site_name = [[Tag ''meta'', AttrEq ''property'' ''og:site_name'']]"

definition sel_h1 :: selector where
  "sel_h1 = [[Tag ''h1'']]"

text \<open>\<^verbatim>\<open>hostname.replace(/^www\./, '')\<close>\<close>

definition strip_www :: "string \<Rightarrow> string" where
  "strip_www h = (if take 4 h = ''www.'' then drop 4 h else h)"

text \<open>
  \<open>extractMeta\<close>.  The host name is read, and the URL parsed, only when there is no
  \<open>og:site_name\<close>.
\<close>

definition extractMeta :: "url_api \<Rightarrow> cheerio \<Rightarrow> string \<Rightarrow> js_error + siteMeta" where
  "extractMeta U Q targetUrl =
     (let title = or_empty (or_else (attr_of (Q sel_og_title) ''content'')
                    (Some (trim (first_text (Q sel_title)))));
          description = or_empty (or_else (attr_of (Q sel_description) ''content'')
                    (or_else (attr_of (Q sel_og_description) ''content'')
                       (attr_of (Q sel_twitter_description) ''content'')));
          ogSite = attr_of (Q sel_og_site_name) ''content''
      in if truthy ogSite
         then Inr \<lparr>m_title = title, m_description = description, m_siteName = or_empty ogSite\<rparr>
         else (case url_hostname U targetUrl of
                 None \<Rightarrow> Inl URL_TypeError
               | Some h \<Rightarrow>
                   Inr \<lparr>m_title = title, m_description = description, m_siteName = strip_www h\<rparr>))"

text \<open>
  The hero selectors of \<open>extractTagline\<close>, in the order of the source:
  \<^verbatim>\<open>[class*="tagline"]\<close>, \<^verbatim>\<open>[class*="slogan"]\<close>, \<^verbatim>\<open>[class*="hero"] h1\<close>,
  \<^verbatim>\<open>[class*="hero"] h2\<close>, \<^verbatim>\<open>[class*="headline"]\<close>, \<^verbatim>\<open>header h1\<close>, \<^verbatim>\<open>header h2\<close>,
  \<^verbatim>\<open>.hero h1\<close>, \<^verbatim>\<open>.hero h2\<close>, \<^verbatim>\<open>#hero h1\<close>, \<^verbatim>\<open>#hero h2\<close>.
\<close>

definition heroSelectors :: "selector list" where
  "heroSelectors =
     [[[AttrHas ''class'' ''tagline'']],
      [[AttrHas ''class'' ''slogan'']],
      [[AttrHas ''class'' ''hero''], [Tag ''h1'']],
      [[AttrHas ''class'' ''hero''], [Tag ''h2'']],
      [[AttrHas ''class'' ''headline'']],
      [[Tag ''header''], [Tag ''h1'']],
      [[Tag ''header''], [Tag ''h2'']],
      [[Class ''hero''], [Tag ''h1'']],
      [[Class ''hero''], [Tag ''h2'']],
      [[Ident ''hero''], [Tag ''h1'']],
      [[Ident ''hero''], [Tag ''h2'']]]"

text \<open>\<open>$(sel).first().text().trim()\<close>, and the test of the loop.\<close>

definition hero_text :: "cheerio \<Rightarrow> selector \<Rightarrow> string" where
  "hero_text Q sel = trim (first_text (Q sel))"

definition hero_ok :: "string \<Rightarrow> bool" where
  "hero_ok t = (t \<noteq> [] \<and> length t > 4 \<and> length t < 200)"

definition extractTagline :: "cheerio \<Rightarrow> string \<Rightarrow> string" where
  "extractTagline Q description =
     (let og = or_empty (attr_of (Q sel_og_description) ''content'');
          twitter = or_empty (attr_of (Q sel_twitter_description) ''content'')
      in case find hero_ok (map (hero_text Q) heroSelectors) of
           Some t \<Rightarrow> t
         | None \<Rightarrow>
             if og \<noteq> [] \<and> length og < 120 then og
             else if twitter \<noteq> [] \<and> length twitter < 120 then twitter
             else (let h1 = trim (first_text (Q sel_h1))
                   in if h1 \<noteq> [] \<and> length h1 < 150 then h1
                      else first_part (CHR ''.'') description))"

section \<open>The URL normalizer\<close>

text \<open>\<^verbatim>\<open>/^https?:\/\//i\<close>\<close>

definition re_http :: regex where
  "re_http = seqs [Bol, liti ''http'', Opt (liti ''s''), lit ''://'']"

text \<open>Normalize a URL: add \<open>https://\<close> if missing, validate structure.\<close>

definition normalizeUrl :: "url_api \<Rightarrow> string \<Rightarrow> js_error + string" where
  "normalizeUrl U inputUrl =
     (let u0 = trim inputUrl;
          u = (if \<not> test re_http u0 then ''https://'' @ u0 else u0)
      in case url_href U u of
           Some href \<Rightarrow> Inr href
         | None \<Rightarrow> Inl Error_Invalid_URL)"

section \<open>The analysis route\<close>

record analysisResult =
  res_url :: string
  res_siteName :: string
  res_title :: string
  res_description :: string
  res_tagline :: string
  res_logo :: "logoCandidate option"
  res_fonts :: "fontEntry list"
  res_colors :: "colorSample list"
  res_scrapedAt :: string

text \<open>
  A response is an error body with its status, or a result, with the flag \<open>cached\<close>.
\<close>

datatype http_response = Error_json nat string | Result_json analysisResult bool

text \<open>
  What one request meets outside the program: the answers of the network to the page
  fetch and to the style sheet fetches of the two extractors, the order in which those
  fetches complete, the HTML parser and the clock.
\<close>

record world =
  page_net :: net
  fonts_net :: net
  colors_net :: net
  fonts_sched :: "nat list"
  colors_sched :: "nat list"
  parse_html :: "string \<Rightarrow> cheerio"
  now_iso :: string

type_synonym cache = "string \<rightharpoonup> analysisResult"

definition msg_blocked :: string where
  "msg_blocked = ''Site blocked automated access (403/401). Try a different URL.''"

definition msg_unreachable :: string where
  "msg_unreachable = ''Could not reach the website. Check the URL and try again.''"

definition msg_timeout :: string where
  "msg_timeout = ''Request timed out. The site may be too slow or blocking bots.''"

text \<open>
  The dash of this message is U+2014, which is above 255: it stands here as the three
  bytes of its UTF-8 form.  Nothing in the program reads the message.
\<close>

definition msg_invalid :: string where
  "msg_invalid = ''Invalid URL '' @ [CHR 0xE2, CHR 0x80, CHR 0x94]
     @ '' please include a valid domain.''"

text \<open>The \<open>catch\<close> block of the route.\<close>

definition handler :: "axios_error \<Rightarrow> http_response" where
  "handler err =
     (let status = err_status err
      in if status = Some 403 \<or> status = Some 401 then Error_json 403 msg_blocked
         else if err_code err = Some ''ECONNREFUSED'' \<or> err_code err = Some ''ENOTFOUND''
           then Error_json 404 msg_unreachable
         else if err_code err = Some ''ETIMEDOUT''
                 \<or> (case err_message err of Some m \<Rightarrow> js_includes m ''timeout'' | None \<Rightarrow> False)
           then Error_json 408 msg_timeout
         else Error_json 500 (''Failed to analyze site. '' @ or_empty (err_message err)))"

text \<open>
  The \<open>TypeError\<close> that \<open>new URL\<close> throws, as the \<open>catch\<close> block sees it: no response, the
  code \<open>ERR_INVALID_URL\<close> and the message \<open>Invalid URL\<close>.
\<close>

definition url_type_error :: axios_error where
  "url_type_error = \<lparr>err_status = None, err_code = Some ''ERR_INVALID_URL'',
     err_message = Some ''Invalid URL''\<rparr>"

definition system_default_font :: fontEntry where
  "system_default_font = \<lparr>name = ''System Default'', category = Sans_Serif,
     sample = ''Aa Bb Cc 123''\<rparr>"

text \<open>The assembly of the result, once the five extractors have returned.\<close>

definition assemble ::
  "world \<Rightarrow> string \<Rightarrow> siteMeta \<Rightarrow> logoCandidate option \<Rightarrow> string \<Rightarrow> fontEntry list
     \<Rightarrow> colorSample list \<Rightarrow> analysisResult" where
  "assemble W targetUrl meta lg tagline fnts cols =
     \<lparr>res_url = targetUrl,
      res_siteName = m_siteName meta,
      res_title = m_title meta,
      res_description =
        (if m_description meta \<noteq> [] then m_description meta else ''No description found.''),
      res_tagline =
        (if tagline \<noteq> [] then tagline else first_part (CHR ''.'') (m_description meta)),
      res_logo = lg,
      res_fonts = (if length fnts > 0 then fnts else [system_default_font]),
      res_colors = (if length cols > 0 then cols else []),
      res_scrapedAt = now_iso W\<rparr>"

text \<open>
  The route \<open>POST /api/analyze\<close>: the response and the cache after it.  \<open>None\<close> would be a
  request that never answers because a scan loops; there is none (see below).
\<close>

definition analyze ::
  "url_api \<Rightarrow> fp \<Rightarrow> world \<Rightarrow> cache \<Rightarrow> string \<Rightarrow> (http_response \<times> cache) option" where
  "analyze U f W c rawUrl =
     (if rawUrl = [] then Some (Error_json 400 ''URL is required'', c)
      else case normalizeUrl U rawUrl of
        Inl e \<Rightarrow> Some (Error_json 400 msg_invalid, c)
      | Inr targetUrl \<Rightarrow>
          (case c targetUrl of
             Some cached \<Rightarrow> Some (Result_json cached True, c)
           | None \<Rightarrow>
               (case page_net W targetUrl of
                  Rejected err \<Rightarrow> Some (handler err, c)
                | Response html \<Rightarrow> do {
                    let Q = parse_html W html;
                    fnts \<leftarrow> extractFonts U (fonts_net W) (fonts_sched W) Q targetUrl;
                    cols \<leftarrow> extractColors U f (colors_net W) (colors_sched W) Q targetUrl;
                    Some (case extractMeta U Q targetUrl of
                        Inl e \<Rightarrow> (handler url_type_error, c)
                      | Inr meta \<Rightarrow>
                          (case extractLogo U Q targetUrl of
                             Inl e \<Rightarrow> (handler url_type_error, c)
                           | Inr lg \<Rightarrow>
                               (let tagline = extractTagline Q (m_description meta);
                                    result = assemble W targetUrl meta lg tagline fnts cols
                                in (Result_json result False, c(targetUrl \<mapsto> result)))))
                  })))"

text \<open>
  The names the specification gives the error responses of the route: \<open>AccessBlocked\<close>
  is the 403 response, \<open>HostUnreachable\<close> the 404, \<open>Timeout\<close> the 408, \<open>FetchFailed\<close> the
  generic 500, and \<open>InvalidURL\<close> the 400.
\<close>

datatype error_kind = InvalidURL | AccessBlocked | HostUnreachable | Timeout | FetchFailed

definition error_kind :: "http_response \<Rightarrow> error_kind option" where
  "error_kind r =
     (case r of
        Result_json res cached \<Rightarrow> None
      | Error_json s m \<Rightarrow>
          if s = 400 then Some InvalidURL
          else if s = 403 then Some AccessBlocked
          else if s = 404 then Some HostUnreachable
          else if s = 408 then Some Timeout
          else if s = 500 then Some FetchFailed
          else None)"

section \<open>The color scan on examples\<close>

text \<open>
  The no-break space is white space to \<open>trim\<close> and to \<open>\s\<close>, and case conversion reaches
  the letters above ASCII.
\<close>

lemma no_break_space_examples:
  "trim ([CHR 0xA0, CHR 0x09] @ ''Build Better'' @ [CHR 0x0A, CHR 0xA0]) = ''Build Better''"
  "extractColorsFromCSS f (''a{color:'' @ [CHR 0xA0] @ ''#FF0000}'') = Some [(''#FF0000'', 1)]"
  "toLowerCase (''Caf'' @ [CHR 0xC9]) = ''caf'' @ [CHR 0xE9]"
  "toUpperCase (''stra'' @ [CHR 0xDF] @ ''e'') = ''STRASSE''"
  by code_simp+

lemma brand_example_scan:
  "extractColorsFromCSS f '':root{--brand-color:#FF0000;} a{color:#FFFFFF;}''
     = Some [(''#FF0000'', 3)]"
  by code_simp

lemma brand_example_props:
  "exec_all colorPropRegex None '':root{--brand-color:#FF0000;} a{color:#FFFFFF;}''
     = Some [(''{color:#FFFFFF'', [(1, ''#FFFFFF'')])]"
  by code_simp

lemma white_is_excluded:
  "normalizeColor f ''#FFFFFF'' = Some ''#FFFFFF''" "isBlackOrWhite ''#FFFFFF''"
  "\<not> isBlackOrWhite ''#FF0000''"
  by code_simp+

lemma rgb_example_tests:
  "trim ''rgb(300, 200, 100)'' = ''rgb(300, 200, 100)''"
  "\<not> test re_hex6 ''rgb(300, 200, 100)''"
  "\<not> test re_hex3 ''rgb(300, 200, 100)''"
  "\<not> test re_hex8 ''rgb(300, 200, 100)''"
  "match1 re_rgb ''rgb(300, 200, 100)'' = Some [(3, ''100''), (2, ''200''), (1, ''300'')]"
  by code_simp+

lemma rgb_example_numbers:
  "parseInt10 ''300'' = 300" "parseInt10 ''200'' = 200" "parseInt10 ''100'' = 100"
  "to_hex 300 = ''12c''" "to_hex 200 = ''c8''" "to_hex 100 = ''64''"
  by (simp_all add: parseInt10_def digits_val_def is_digit_in_def digit_val_def digits_def
      to_hex.simps)

lemma rgb_example_upper: "toUpperCase ''#12cc864'' = ''#12CC864''"
  by code_simp

lemma rgb_example_normalize: "normalizeColor f ''rgb(300, 200, 100)'' = Some ''#12CC864''"
  by (simp add: normalizeColor_def rgb_example_tests rgb_example_numbers rgb_example_upper
      hex2_def cap_def toString16_def padStart2_def or_empty_def)

lemma rgb_example_matches:
  "exec_all varColorRegex None ''a{color:rgb(300, 200, 100)}'' = Some []"
  "exec_all colorPropRegex None ''a{color:rgb(300, 200, 100)}''
     = Some [(''{color:rgb(300, 200, 100)'', [(1, ''rgb(300, 200, 100)'')])]"
  by code_simp+

lemma rgb_example_not_neutral: "\<not> isBlackOrWhite ''#12CC864''"
  by code_simp

lemma rgb_example_scan:
  "extractColorsFromCSS f ''a{color:rgb(300, 200, 100)}'' = Some [(''#12CC864'', 1)]"
  unfolding extractColorsFromCSS_def rgb_example_matches
  by (simp add: count_color_def cap_def or_empty_def rgb_example_normalize
      rgb_example_not_neutral)

section \<open>The color list: sorting and labels\<close>

text \<open>The key and the weight of a color of the result.\<close>

definition entry :: "colorSample \<Rightarrow> string \<times> nat" where
  "entry c = (hex c, frequency c)"

lemma relabel_length: "length (relabel i l xs) = length xs"
  by (simp add: relabel_def)

lemma relabel_entry: "map entry (relabel i l xs) = map entry xs"
  by (auto simp: relabel_def entry_def list_eq_iff_nth_eq nth_list_update)

lemma relabel_nth:
  "j < length xs \<Longrightarrow> label (relabel i l xs ! j) = (if j = i then l else label (xs ! j))"
  by (simp add: relabel_def nth_list_update)

lemma mk_sample_entry: "entry (mk_sample e) = e"
  by (cases e) (simp add: entry_def mk_sample_def)

lemma rankColors_entries:
  "map entry (rankColors m) = take 8 (sort_key (\<lambda>e. - int (snd e)) m)"
  by (simp add: rankColors_def relabel_entry mk_sample_entry o_def)

lemma rankColors_length: "length (rankColors m) = min 8 (length m)"
proof -
  have "length (rankColors m) = length (map entry (rankColors m))" by simp
  also have "\<dots> = min 8 (length m)" by (simp only: rankColors_entries) simp
  finally show ?thesis .
qed

lemma relabel_frequency:
  "j < length xs \<Longrightarrow> frequency (relabel i l xs ! j) = frequency (xs ! j)"
  by (simp add: relabel_def nth_list_update)

lemma rankColors_label:
  assumes "i < length (rankColors m)"
  shows "label (rankColors m ! i) =
    (if i = 0 then Primary else if i = 1 then Secondary else if i = 2 then Accent
     else threshold_label (frequency (rankColors m ! i)))"
proof -
  define r0 where "r0 = map mk_sample (take 8 (sort_key (\<lambda>e. - int (snd e)) m))"
  define r1 where "r1 = relabel 0 Primary r0"
  define r2 where "r2 = relabel 1 Secondary r1"
  define r3 where "r3 = relabel 2 Accent r2"
  have r: "rankColors m = r3"
    by (simp add: rankColors_def r0_def r1_def r2_def r3_def)
  have len: "length r1 = length r0" "length r2 = length r0" "length r3 = length r0"
    by (simp_all add: r1_def r2_def r3_def relabel_length)
  from assms have i: "i < length r0" by (simp add: r len)
  have l0: "label (r0 ! i) = threshold_label (frequency (r0 ! i))"
    using i by (simp add: r0_def mk_sample_def split: prod.splits)
  have l1: "label (r1 ! i) = (if i = 0 then Primary else label (r0 ! i))"
    unfolding r1_def using i by (rule relabel_nth)
  have l2: "label (r2 ! i) = (if i = 1 then Secondary else label (r1 ! i))"
    unfolding r2_def using i len by (intro relabel_nth) simp
  have l3: "label (r3 ! i) = (if i = 2 then Accent else label (r2 ! i))"
    unfolding r3_def using i len by (intro relabel_nth) simp
  have "frequency (r3 ! i) = frequency (r2 ! i)"
    unfolding r3_def using i len by (intro relabel_frequency) simp
  also have "\<dots> = frequency (r1 ! i)"
    unfolding r2_def using i len by (intro relabel_frequency) simp
  also have "\<dots> = frequency (r0 ! i)"
    unfolding r1_def using i by (rule relabel_frequency)
  finally have f: "frequency (r3 ! i) = frequency (r0 ! i)" .
  show ?thesis
    unfolding r by (simp only: l3 l2 l1 l0 f) auto
qed

lemma rankColors_descending:
  "sorted_wrt (\<lambda>a b. frequency b \<le> frequency a) (rankColors m)"
proof -
  have "sorted (map (\<lambda>e. - int (snd e)) (take 8 (sort_key (\<lambda>e. - int (snd e)) m)))"
    by (simp add: take_map [symmetric] sorted_wrt_take)
  then have "sorted (map (\<lambda>e. - int (snd e)) (map entry (rankColors m)))"
    by (simp only: rankColors_entries)
  then show ?thesis
    by (simp add: sorted_map o_def entry_def)
qed

lemma rankColors_top:
  "mset (map entry (rankColors m)) \<subseteq># mset m"
  "e \<in># mset m - mset (map entry (rankColors m)) \<Longrightarrow> c \<in> set (rankColors m) \<Longrightarrow> snd e \<le> frequency c"
proof -
  define xs where "xs = sort_key (\<lambda>e. - int (snd e)) m"
  have split: "mset m = mset (take 8 xs) + mset (drop 8 xs)"
    by (metis append_take_drop_id mset_append mset_sort xs_def)
  have ent: "map entry (rankColors m) = take 8 xs" by (simp add: rankColors_entries xs_def)
  show "mset (map entry (rankColors m)) \<subseteq># mset m" by (simp add: ent split)
  assume e: "e \<in># mset m - mset (map entry (rankColors m))" and c: "c \<in> set (rankColors m)"
  from e have e': "e \<in> set (drop 8 xs)" by (simp add: ent split)
  from c have c': "entry c \<in> set (take 8 xs)" by (metis ent image_eqI set_map)
  have "sorted (map (\<lambda>e. - int (snd e)) (take 8 xs @ drop 8 xs))"
    by (simp add: xs_def)
  then have "\<forall>a\<in>set (take 8 xs). \<forall>b\<in>set (drop 8 xs). - int (snd a) \<le> - int (snd b)"
    by (simp only: map_append sorted_append) auto
  with e' c' show "snd e \<le> frequency c" by (fastforce simp: entry_def)
qed

lemma those_map_total:
  assumes "\<And>x. \<exists>y. g x = Some y"
  shows "\<exists>ys. those (map g xs) = Some ys"
proof (induction xs)
  case Nil
  show ?case by simp
next
  case (Cons x xs)
  from assms obtain y where "g x = Some y" by blast
  with Cons show ?case by auto
qed

lemma collectColors_total: "\<exists>m. collectColors U f n sched Q baseUrl = Some m"
proof -
  obtain inline where "those (map (\<lambda>el. extractColorsFromCSS f (text_of el)) (Q sel_style)) = Some inline"
    using those_map_total [of "\<lambda>el. extractColorsFromCSS f (text_of el)"]
      extractColorsFromCSS_total by blast
  moreover obtain fetched where
    "those (map (\<lambda>cssUrl. extractColorsFromCSS f (fetchCSS n cssUrl))
       (completion_order sched (cssToFetch U Q baseUrl))) = Some fetched"
    using those_map_total [of "\<lambda>cssUrl. extractColorsFromCSS f (fetchCSS n cssUrl)"]
      extractColorsFromCSS_total by blast
  ultimately show ?thesis by (simp add: collectColors_def)
qed

definition palette_example :: colorMap where
  "palette_example = [(''#112233'', 1), (''#FF0000'', 7), (''#00FF00'', 3), (''#0000FF'', 7),
     (''#123456'', 6)]"

lemma palette_example_ranked:
  "map (\<lambda>c. (hex c, frequency c, label c)) (rankColors palette_example)
     = [(''#FF0000'', 7, Primary), (''#0000FF'', 7, Secondary), (''#123456'', 6, Accent),
        (''#00FF00'', 3, Secondary), (''#112233'', 1, Accent)]"
  by (simp add: palette_example_def rankColors_def relabel_def mk_sample_def threshold_label_def)

section \<open>The logo: lemmas and examples\<close>

lemma sort_key_least_first:
  assumes "\<And>y. y \<in> set xs \<Longrightarrow> f x \<le> f y"
  shows "sort_key f (x # xs) = x # sort_key f xs"
proof (cases "sort_key f xs")
  case Nil
  then show ?thesis by simp
next
  case (Cons y ys)
  then have "y \<in> set xs" by (metis list.set_intros(1) set_sort)
  with assms have "f x \<le> f y" by simp
  with Cons show ?thesis by simp
qed

lemma find_sorted_least:
  assumes "sorted (map f xs)" and "find P xs = Some c" and "d \<in> set xs" and "P d"
  shows "f c \<le> f d"
proof -
  from assms(2) obtain i where i: "i < length xs" "P (xs ! i)" "c = xs ! i" "\<forall>j<i. \<not> P (xs ! j)"
    by (auto simp: find_Some_iff)
  from assms(3) obtain k where k: "k < length xs" "d = xs ! k" by (auto simp: in_set_conv_nth)
  with i(4) assms(4) have "i \<le> k" by (meson not_le)
  with assms(1) k(1) have "map f xs ! i \<le> map f xs ! k"
    by (simp add: sorted_iff_nth_mono)
  with i k show ?thesis by simp
qed

lemma candidate_priorities:
  "c \<in> set (twitter_candidates U Q b) \<Longrightarrow> priority c = 2"
  "c \<in> set (apple_candidates U Q b) \<Longrightarrow> priority c = 3"
  "c \<in> set (img_candidates U Q b) \<Longrightarrow> priority c = 4"
  "c \<in> set (svg_candidates Q) \<Longrightarrow> priority c = 5"
  "c \<in> set (favicon_candidates U Q b) \<Longrightarrow> priority c = 6"
  by (auto simp: twitter_candidates_def apple_candidates_def img_candidates_def
      svg_candidates_def favicon_candidates_def Let_def split: if_splits)

lemma og_first:
  assumes "attr_of (Q sel_og_image) ''content'' = Some c" "c \<noteq> []"
    "url_resolve U c baseUrl = Some u" "u \<noteq> []" "url_origin U baseUrl = Some origin"
  shows "extractLogo U Q baseUrl = Inr (Some \<lparr>url = Some u, source = ''og:image'', priority = 1\<rparr>)"
proof -
  define og where "og = \<lparr>url = Some u, source = ''og:image'', priority = 1\<rparr>"
  define others where "others = twitter_candidates U Q baseUrl @ apple_candidates U Q baseUrl
     @ img_candidates U Q baseUrl @ svg_candidates Q @ favicon_candidates U Q baseUrl
     @ [favicon_fallback origin]"
  from assms have og: "og_candidates U Q baseUrl = [og]"
    by (simp add: og_candidates_def truthy_def or_empty_def resolveUrl_def og_def)
  have all: "logoCandidates U Q baseUrl @ [favicon_fallback origin] = og # others"
    by (simp add: logoCandidates_def og others_def)
  have "priority og \<le> priority y" if "y \<in> set others" for y
    using that by (auto simp: others_def og_def favicon_fallback_def dest: candidate_priorities)
  then have "sort_key priority (og # others) = og # sort_key priority others"
    by (rule sort_key_least_first)
  moreover have "truthy (url og)" using assms(4) by (simp add: og_def truthy_def)
  ultimately have "extractLogo U Q baseUrl = Inr (Some og)"
    using assms(5) by (simp add: extractLogo_def all)
  then show ?thesis by (simp add: og_def)
qed

lemma concat_map_empty: "list_all (\<lambda>x. g x = []) xs \<Longrightarrow> concat (map g xs) = []"
  by (induction xs) auto

lemma no_signals_no_candidates:
  assumes "no_logo_signals Q"
  shows "logoCandidates U Q baseUrl = []"
proof -
  from assms have "og_candidates U Q baseUrl = []" "twitter_candidates U Q baseUrl = []"
    "favicon_candidates U Q baseUrl = []"
    by (simp_all add: no_logo_signals_def og_candidates_def twitter_candidates_def
        favicon_candidates_def or_else_def)
  moreover from assms have "apple_candidates U Q baseUrl = []"
    unfolding apple_candidates_def no_logo_signals_def
    by (intro concat_map_empty) (auto simp: list_all_iff)
  moreover from assms have "img_candidates U Q baseUrl = []"
    unfolding img_candidates_def no_logo_signals_def
    by (intro concat_map_empty) (auto simp: list_all_iff)
  moreover from assms have "svg_candidates Q = []"
    unfolding svg_candidates_def no_logo_signals_def
    by (intro concat_map_empty) (auto simp: list_all_iff)
  ultimately show ?thesis by (simp add: logoCandidates_def)
qed

lemma fallback_always:
  assumes "url_origin U baseUrl = Some origin"
  shows "\<exists>c. extractLogo U Q baseUrl = Inr (Some c) \<and> truthy (url c)
          \<and> c \<in> set (logoCandidates U Q baseUrl @ [favicon_fallback origin])
          \<and> (\<forall>d \<in> set (logoCandidates U Q baseUrl @ [favicon_fallback origin]).
                truthy (url d) \<longrightarrow> priority c \<le> priority d)"
proof -
  define xs where "xs = sort_key priority (logoCandidates U Q baseUrl @ [favicon_fallback origin])"
  have set: "set xs = set (logoCandidates U Q baseUrl @ [favicon_fallback origin])"
    by (simp add: xs_def)
  have fb: "truthy (url (favicon_fallback origin))"
    by (simp add: favicon_fallback_def truthy_def)
  have "favicon_fallback origin \<in> set xs" by (simp add: set)
  with fb have "find (\<lambda>c. truthy (url c)) xs \<noteq> None" by (auto simp: find_None_iff)
  then obtain c where c: "find (\<lambda>c. truthy (url c)) xs = Some c" by auto
  then have "truthy (url c)" "c \<in> set xs" by (auto simp: find_Some_iff)
  moreover have "sorted (map priority xs)" by (simp add: xs_def)
  then have "\<forall>d\<in>set xs. truthy (url d) \<longrightarrow> priority c \<le> priority d"
    using find_sorted_least [OF _ c] by blast
  moreover have "extractLogo U Q baseUrl = Inr (Some c)"
    using assms c by (simp add: extractLogo_def xs_def)
  ultimately show ?thesis using set by auto
qed

definition page_og_unresolvable :: "node list" where
  "page_og_unresolvable =
     [Element ''html'' [] [Element ''head'' []
        [Element ''meta'' [(''property'', ''og:image''), (''content'', ''http://'')] []]]]"

definition page_og_second :: "node list" where
  "page_og_second =
     [Element ''html'' [] [Element ''head'' []
        [Element ''meta'' [(''property'', ''og:image''), (''content'', [])] [],
         Element ''meta'' [(''property'', ''og:image''),
                          (''content'', ''https://example.com/og.png'')] []]]]"

definition page_many_signals :: "node list" where
  "page_many_signals =
     [Element ''html'' []
        [Element ''head'' []
           [Element ''link'' [(''rel'', ''icon''), (''href'', ''/fav.png'')] [],
            Element ''link'' [(''rel'', ''apple-touch-icon''), (''href'', ''/touch.png'')] [],
            Element ''meta'' [(''name'', ''twitter:image''), (''content'', ''/tw.png'')] [],
            Element ''meta'' [(''property'', ''og:image''), (''content'', ''/og.png'')] []],
         Element ''body'' []
           [Element ''img'' [(''src'', ''/img/Logo.png''), (''alt'', ''Acme'')] [],
            Element ''svg'' [(''class'', ''site-logo'')] []]]]"

definition page_plain :: "node list" where
  "page_plain =
     [Element ''html'' []
        [Element ''head'' [] [Element ''title'' [] [Text ''Plain'']],
         Element ''body'' []
           [Element ''img'' [(''src'', ''/img/photo.png''), (''alt'', ''A photo'')] [],
            Element ''p'' [] [Text ''Nothing to see'']]]]"

lemma page_og_unresolvable_eval:
  "list_ex (\<lambda>el. truthy (attr el ''content'')) (load page_og_unresolvable sel_og_image)"
  "url_resolve simple_url ''http://'' ''https://example.com/'' = None"
  "extractLogo simple_url (load page_og_unresolvable) ''https://example.com/''
     = Inr (Some \<lparr>url = Some ''https://example.com/favicon.ico'', source = ''favicon-fallback'',
                    priority = 7\<rparr>)"
  by code_simp+

lemma page_og_second_eval:
  "list_ex (\<lambda>el. truthy (attr el ''content'')) (load page_og_second sel_og_image)"
  "extractLogo simple_url (load page_og_second) ''https://example.com/''
     = Inr (Some \<lparr>url = Some ''https://example.com/favicon.ico'', source = ''favicon-fallback'',
                    priority = 7\<rparr>)"
  by code_simp+

lemma page_many_signals_eval:
  "attr_of (load page_many_signals sel_og_image) ''content'' = Some ''/og.png''"
  "url_resolve simple_url ''/og.png'' ''https://example.com/'' = Some ''https://example.com/og.png''"
  "url_origin simple_url ''https://example.com/'' = Some ''https://example.com''"
  "map source (logoCandidates simple_url (load page_many_signals) ''https://example.com/'')
     = [''og:image'', ''twitter:image'', ''apple-touch-icon'', ''img[logo]'', ''inline-svg'',
        ''favicon'']"
  by code_simp+

lemma page_plain_eval:
  "no_logo_signals (load page_plain)"
  by code_simp

section \<open>Style sheets: every scan ends, and a failed fetch is an empty sheet\<close>

lemma consumes_font_regexes:
  "consumes fontFaceRegex" "consumes fontFamilyRegex" "consumes varRegex"
  by code_simp+

lemma extractFontsFromCSS_total: "\<exists>ns. extractFontsFromCSS cssText = Some ns"
proof -
  obtain a b c where "exec_all fontFaceRegex None cssText = Some a"
    "exec_all fontFamilyRegex None cssText = Some b" "exec_all varRegex None cssText = Some c"
    using exec_all_total [OF consumes_font_regexes(1), of None cssText]
      exec_all_total [OF consumes_font_regexes(2), of None cssText]
      exec_all_total [OF consumes_font_regexes(3), of None cssText]
    by auto
  then show ?thesis by (simp add: extractFontsFromCSS_def)
qed

lemma collectFonts_total: "\<exists>fs. collectFonts U n sched Q baseUrl = Some fs"
proof -
  obtain inline where "those (map (\<lambda>el. extractFontsFromCSS (text_of el)) (Q sel_style)) = Some inline"
    using those_map_total [of "\<lambda>el. extractFontsFromCSS (text_of el)"]
      extractFontsFromCSS_total by blast
  moreover obtain fetched where
    "those (map (\<lambda>cssUrl. extractFontsFromCSS (fetchCSS n cssUrl))
       (completion_order sched (cssToFetch U Q baseUrl))) = Some fetched"
    using those_map_total [of "\<lambda>cssUrl. extractFontsFromCSS (fetchCSS n cssUrl)"]
      extractFontsFromCSS_total by blast
  ultimately show ?thesis by (simp add: collectFonts_def)
qed

lemma empty_sheet: "extractFontsFromCSS [] = Some []" "extractColorsFromCSS f [] = Some []"
  by code_simp+

lemma fetchCSS_failure_is_empty:
  assumes "n u = Rejected e"
  shows "fetchCSS (n(u := Response [])) = fetchCSS n"
  using assms by (auto simp: fetchCSS_def fun_eq_iff)

lemma set_fold_set_add: "set (fold set_add xs acc) = set xs \<union> set acc"
  by (induction xs arbitrary: acc) (auto simp: set_add_def)

lemma distinct_fold_set_add: "distinct acc \<Longrightarrow> distinct (fold set_add xs acc)"
  by (induction xs arbitrary: acc) (auto simp: set_add_def)

lemma those_map_Some:
  "those (map g xs) = Some ys \<Longrightarrow> map g xs = map Some ys"
proof (induction xs arbitrary: ys)
  case Nil
  then show ?case by simp
next
  case (Cons x xs)
  then show ?case by (auto split: option.splits)
qed

lemma those_map_member:
  assumes "those (map g xs) = Some ys" and "x \<in> set xs" and "g x = Some y"
  shows "y \<in> set ys"
proof -
  from those_map_Some [OF assms(1)] have "set (map g xs) = set (map Some ys)" by simp
  with assms(2,3) show ?thesis by force
qed

lemma set_completion_order: "set (completion_order ks xs) = set xs"
proof (induction ks xs rule: completion_order.induct)
  case (3 k ks x xs)
  let ?ys = "x # xs"
  let ?i = "k mod length ?ys"
  have i: "?i < length ?ys" by simp
  have "set ?ys = insert (?ys ! ?i) (set (take ?i ?ys @ drop (Suc ?i) ?ys))"
  proof -
    have "?ys = take ?i ?ys @ ?ys ! ?i # drop (Suc ?i) ?ys"
      using i by (rule id_take_nth_drop)
    then have "set ?ys = set (take ?i ?ys @ ?ys ! ?i # drop (Suc ?i) ?ys)" by simp
    then show ?thesis by simp
  qed
  moreover have "set (completion_order ks (take ?i ?ys @ drop (Suc ?i) ?ys))
      = set (take ?i ?ys @ drop (Suc ?i) ?ys)"
    using 3 by simp
  ultimately show ?case by (simp add: Let_def del: set_append)
qed simp_all

lemma collectFonts_contains:
  assumes "collectFonts U n sched Q baseUrl = Some fs"
  shows "set (extractGoogleFonts Q) \<subseteq> set fs"
    and "el \<in> set (Q sel_style) \<Longrightarrow> extractFontsFromCSS (text_of el) = Some ns \<Longrightarrow> set ns \<subseteq> set fs"
    and "u \<in> set (cssToFetch U Q baseUrl) \<Longrightarrow> extractFontsFromCSS (fetchCSS n u) = Some ns
           \<Longrightarrow> set ns \<subseteq> set fs"
proof -
  from assms obtain inline fetched where
    i: "those (map (\<lambda>el. extractFontsFromCSS (text_of el)) (Q sel_style)) = Some inline" and
    f: "those (map (\<lambda>cssUrl. extractFontsFromCSS (fetchCSS n cssUrl))
       (completion_order sched (cssToFetch U Q baseUrl))) = Some fetched" and
    fs: "fs = fold set_add (extractGoogleFonts Q @ concat inline @ concat fetched) []"
    by (auto simp: collectFonts_def split: bind_splits)
  show "set (extractGoogleFonts Q) \<subseteq> set fs" by (auto simp: fs set_fold_set_add)
  show "set ns \<subseteq> set fs" if "el \<in> set (Q sel_style)" "extractFontsFromCSS (text_of el) = Some ns"
    using those_map_member [OF i that] by (auto simp: fs set_fold_set_add)
  show "set ns \<subseteq> set fs"
    if "u \<in> set (cssToFetch U Q baseUrl)" "extractFontsFromCSS (fetchCSS n u) = Some ns"
  proof -
    from that(1) have "u \<in> set (completion_order sched (cssToFetch U Q baseUrl))"
      by (simp add: set_completion_order)
    from those_map_member [OF f this that(2)] show ?thesis by (auto simp: fs set_fold_set_add)
  qed
qed

text \<open>The weight of a key in a frequency map, 0 when the key is absent.\<close>

lemma map_of_bump:
  "map_of (bump k w m) h =
     (if h = k then Some ((case map_of m k of None \<Rightarrow> 0 | Some v \<Rightarrow> v) + w) else map_of m h)"
  by (induction m) auto

lemma keys_bump: "fst ` set (bump k w m) = insert k (fst ` set m)"
proof -
  have "dom (map_of (bump k w m)) = insert k (dom (map_of m))"
    by (auto simp: map_of_bump dom_def split: if_splits)
  then show ?thesis by (simp add: dom_map_of_conv_image_fst)
qed

lemma distinct_bump: "distinct (map fst m) \<Longrightarrow> distinct (map fst (bump k w m))"
  by (induction m) (auto simp: keys_bump)

definition weight :: "colorMap \<Rightarrow> string \<Rightarrow> nat" where
  "weight m h = (case map_of m h of None \<Rightarrow> 0 | Some v \<Rightarrow> v)"

lemma weight_bump: "weight (bump k w m) h = (if h = k then weight m k + w else weight m h)"
  by (simp add: weight_def map_of_bump)

lemma merge_counts_mono: "weight acc h \<le> weight (merge_counts m acc) h"
  unfolding merge_counts_def
proof (induction m arbitrary: acc)
  case Nil
  show ?case by simp
next
  case (Cons e m)
  obtain k w where e: "e = (k, w)" by (cases e)
  have "weight acc h \<le> weight (bump k w acc) h" by (simp add: weight_bump)
  also have "\<dots> \<le> weight (fold (\<lambda>(h, cnt). bump h cnt) m (bump k w acc)) h" by (rule Cons.IH)
  finally show ?case by (simp add: e)
qed

lemma merge_counts_adds:
  assumes "distinct (map fst m)"
  shows "weight (merge_counts m acc) h = weight acc h + weight m h"
  using assms unfolding merge_counts_def
proof (induction m arbitrary: acc)
  case Nil
  show ?case by (simp add: weight_def)
next
  case (Cons e m)
  obtain k w where e: "e = (k, w)" by (cases e)
  from Cons.prems e have d: "distinct (map fst m)" and k: "k \<notin> fst ` set m" by auto
  from k have "map_of m k = None" by (simp add: map_of_eq_None_iff)
  then have wk: "weight m k = 0" by (simp add: weight_def)
  have "weight (fold (\<lambda>(h, cnt). bump h cnt) m (bump k w acc)) h
      = weight (bump k w acc) h + weight m h"
    using d by (rule Cons.IH)
  moreover have "weight ((k, w) # m) h = (if h = k then w else weight m h)"
    by (simp add: weight_def)
  ultimately show ?case using wk by (simp add: e weight_bump)
qed

lemma fold_merge_counts_mono:
  "weight acc h \<le> weight (fold merge_counts ms acc) h"
proof (induction ms arbitrary: acc)
  case Nil
  show ?case by simp
next
  case (Cons m ms)
  have "weight acc h \<le> weight (merge_counts m acc) h" by (rule merge_counts_mono)
  also have "\<dots> \<le> weight (fold merge_counts ms (merge_counts m acc)) h" by (rule Cons.IH)
  finally show ?case by simp
qed

lemma fold_merge_counts_member:
  assumes "m \<in> set ms" and "distinct (map fst m)"
  shows "weight m h \<le> weight (fold merge_counts ms acc) h"
  using assms(1)
proof (induction ms arbitrary: acc)
  case Nil
  then show ?case by simp
next
  case (Cons m' ms)
  show ?case
  proof (cases "m = m'")
    case True
    have "weight m h \<le> weight (merge_counts m acc) h"
      by (simp add: merge_counts_adds [OF assms(2)])
    also have "\<dots> \<le> weight (fold merge_counts ms (merge_counts m acc)) h"
      by (rule fold_merge_counts_mono)
    finally show ?thesis using True by simp
  next
    case False
    with Cons.prems have "m \<in> set ms" by simp
    from Cons.IH [OF this] show ?thesis by simp
  qed
qed

lemma distinct_fold_count:
  "distinct (map fst acc) \<Longrightarrow> distinct (map fst (fold (\<lambda>(m, g). count_color f w (sel g)) ms acc))"
proof (induction ms arbitrary: acc)
  case Nil
  then show ?case by simp
next
  case (Cons a ms)
  obtain m g where a: "a = (m, g)" by (cases a)
  have "distinct (map fst (count_color f w (sel g) acc))"
    using Cons.prems by (auto simp: count_color_def distinct_bump split: option.splits)
  from Cons.IH [OF this] show ?case by (simp add: a)
qed

lemma extractColorsFromCSS_distinct:
  "extractColorsFromCSS f cssText = Some m \<Longrightarrow> distinct (map fst m)"
  by (auto simp: extractColorsFromCSS_def distinct_fold_count split: bind_splits)

lemma collectColors_contains:
  assumes "collectColors U f n sched Q baseUrl = Some cm"
  shows "el \<in> set (Q sel_style) \<Longrightarrow> extractColorsFromCSS f (text_of el) = Some m
           \<Longrightarrow> weight m h \<le> weight cm h"
    and "u \<in> set (cssToFetch U Q baseUrl) \<Longrightarrow> extractColorsFromCSS f (fetchCSS n u) = Some m
           \<Longrightarrow> weight m h \<le> weight cm h"
proof -
  from assms obtain inline fetched where
    i: "those (map (\<lambda>el. extractColorsFromCSS f (text_of el)) (Q sel_style)) = Some inline" and
    ft: "those (map (\<lambda>cssUrl. extractColorsFromCSS f (fetchCSS n cssUrl))
       (completion_order sched (cssToFetch U Q baseUrl))) = Some fetched" and
    cm: "cm = fold merge_counts (inline @ fetched) []"
    by (auto simp: collectColors_def split: bind_splits)
  show "weight m h \<le> weight cm h"
    if "el \<in> set (Q sel_style)" "extractColorsFromCSS f (text_of el) = Some m"
  proof -
    from those_map_member [OF i that] have "m \<in> set (inline @ fetched)" by simp
    then show ?thesis
      unfolding cm using extractColorsFromCSS_distinct [OF that(2)]
      by (rule fold_merge_counts_member)
  qed
  show "weight m h \<le> weight cm h"
    if "u \<in> set (cssToFetch U Q baseUrl)" "extractColorsFromCSS f (fetchCSS n u) = Some m"
  proof -
    from that(1) have "u \<in> set (completion_order sched (cssToFetch U Q baseUrl))"
      by (simp add: set_completion_order)
    from those_map_member [OF ft this that(2)] have "m \<in> set (inline @ fetched)" by simp
    then show ?thesis
      unfolding cm using extractColorsFromCSS_distinct [OF that(2)]
      by (rule fold_merge_counts_member)
  qed
qed

section \<open>Google Fonts links\<close>

text \<open>
  The families of one \<open>family=\<close> value as the specification words them: the value is
  split on \<open>|\<close>, each family loses its \<open>:\<close> suffix, and \<open>+\<close> becomes a space.
\<close>

definition spec_families :: "string \<Rightarrow> string list" where
  "spec_families v =
     map (\<lambda>family. plus_to_space (takeWhile (\<lambda>c. c \<noteq> CHR '':'') family))
       (split_on (CHR ''|'') v)"

lemma split_on_nonempty: "split_on c s \<noteq> []"
  by (induction s) (auto split: list.splits)

lemma first_part_takeWhile: "first_part c s = takeWhile (\<lambda>x. x \<noteq> c) s"
proof (induction s)
  case Nil
  show ?case by (simp add: first_part_def)
next
  case (Cons x s)
  then show ?case
    using split_on_nonempty [of c s]
    by (cases "split_on c s") (auto simp: first_part_def)
qed

lemma entry_names_spec:
  "entry_names v = filter (\<lambda>n. n \<noteq> []) (map trim (spec_families v))"
proof -
  have "concat (map (\<lambda>entry. let nm = trim (plus_to_space (first_part (CHR '':'') entry))
                           in if nm \<noteq> [] then [nm] else []) es)
      = filter (\<lambda>n. n \<noteq> [])
          (map trim (map (\<lambda>family. plus_to_space (takeWhile (\<lambda>c. c \<noteq> CHR '':'') family)) es))"
    for es
    by (induction es) (simp_all add: first_part_takeWhile Let_def)
  then show ?thesis by (simp add: entry_names_def spec_families_def)
qed

lemma link_families_first_value:
  assumes "match1 re_family (or_empty (attr el ''href'')) = Some g" and "cap 1 g = Some v"
    and "v \<noteq> []"
  shows "link_families el = filter (\<lambda>n. n \<noteq> []) (map trim (spec_families v))"
  using assms
  by (simp add: link_families_def href_families_def truthy_def or_empty_def entry_names_spec)

lemma extractGoogleFonts_set:
  "set (extractGoogleFonts Q)
     = (\<Union>el\<in>set (Q sel_google_fonts). set (link_families el))
       \<union> (\<Union>el\<in>set (Q sel_style). set (style_families el))"
  by (auto simp: extractGoogleFonts_def set_fold_set_add)

lemma extractGoogleFonts_distinct: "distinct (extractGoogleFonts Q)"
  by (simp add: extractGoogleFonts_def distinct_fold_set_add)

definition page_google_link :: "node list" where
  "page_google_link =
     [Element ''html'' []
        [Element ''head'' []
           [Element ''link''
              [(''href'', ''https://fonts.googleapis.com/css?family=Roboto:400,700|Open+Sans'')] []],
         Element ''body'' [] []]]"

definition page_google_css2 :: "node list" where
  "page_google_css2 =
     [Element ''html'' []
        [Element ''head'' []
           [Element ''link''
              [(''href'', ''https://fonts.googleapis.com/css2?family=Roboto&family=Lora'')] []],
         Element ''body'' [] []]]"

lemma page_google_link_eval:
  "load page_google_link sel_google_fonts
     = [Element ''link''
         [(''href'', ''https://fonts.googleapis.com/css?family=Roboto:400,700|Open+Sans'')] []]"
  "match1 re_family ''https://fonts.googleapis.com/css?family=Roboto:400,700|Open+Sans''
     = Some [(1, ''Roboto:400,700|Open+Sans'')]"
  "spec_families ''Roboto:400,700|Open+Sans'' = [''Roboto'', ''Open Sans'']"
  "extractGoogleFonts (load page_google_link) = [''Roboto'', ''Open Sans'']"
  "category_of ''Roboto'' = Sans_Serif" "category_of ''Open Sans'' = Sans_Serif"
  by code_simp+

lemma page_google_link_fonts:
  "extractFonts U n sched (load page_google_link) baseUrl
     = Some [\<lparr>name = ''Roboto'', category = Sans_Serif, sample = ''Aa Bb Cc 123''\<rparr>,
             \<lparr>name = ''Open Sans'', category = Sans_Serif, sample = ''Aa Bb Cc 123''\<rparr>]"
  by code_simp

text \<open>
  A link whose \<open>family=\<close> value has a no-break space and plus signs around the names, an
  empty family and a family twice.
\<close>

definition href_nbsp :: string where
  "href_nbsp = ''https://fonts.googleapis.com/css?family='' @ [CHR 0xA0] @ ''Roboto+||+Lato:400|Roboto''"

definition page_google_nbsp :: "node list" where
  "page_google_nbsp =
     [Element ''html'' []
        [Element ''head'' [] [Element ''link'' [(''href'', href_nbsp)] []],
         Element ''body'' [] []]]"

lemma page_google_nbsp_eval:
  "load page_google_nbsp sel_google_fonts = [Element ''link'' [(''href'', href_nbsp)] []]"
  "match1 re_family href_nbsp = Some [(1, [CHR 0xA0] @ ''Roboto+||+Lato:400|Roboto'')]"
  "spec_families ([CHR 0xA0] @ ''Roboto+||+Lato:400|Roboto'')
     = [[CHR 0xA0] @ ''Roboto '', [], '' Lato'', ''Roboto'']"
  "filter (\<lambda>n. n \<noteq> []) (map trim [[CHR 0xA0] @ ''Roboto '', [], '' Lato'', ''Roboto''])
     = [''Roboto'', ''Lato'', ''Roboto'']"
  "extractGoogleFonts (load page_google_nbsp) = [''Roboto'', ''Lato'']"
  by code_simp+

lemma page_google_css2_eval:
  "load page_google_css2 sel_google_fonts
     = [Element ''link''
         [(''href'', ''https://fonts.googleapis.com/css2?family=Roboto&family=Lora'')] []]"
  "exec_all re_family None ''https://fonts.googleapis.com/css2?family=Roboto&family=Lora''
     = Some [(''family=Roboto'', [(1, ''Roboto'')]), (''family=Lora'', [(1, ''Lora'')])]"
  "extractGoogleFonts (load page_google_css2) = [''Roboto'']"
  by code_simp+

lemma page_google_css2_fonts:
  "extractFonts U n sched (load page_google_css2) baseUrl
     = Some [\<lparr>name = ''Roboto'', category = Sans_Serif, sample = ''Aa Bb Cc 123''\<rparr>]"
  by code_simp

section \<open>The tagline chain\<close>

lemma tagline_hero:
  assumes "i < length heroSelectors" and "hero_ok (hero_text Q (heroSelectors ! i))"
    and "\<forall>j<i. \<not> hero_ok (hero_text Q (heroSelectors ! j))"
  shows "extractTagline Q d = hero_text Q (heroSelectors ! i)"
proof -
  have "find hero_ok (map (hero_text Q) heroSelectors) = Some (hero_text Q (heroSelectors ! i))"
    unfolding find_Some_iff using assms by (intro exI [of _ i]) simp
  then show ?thesis by (simp add: extractTagline_def)
qed

lemma tagline_fallback:
  assumes "\<forall>sel\<in>set heroSelectors. \<not> hero_ok (hero_text Q sel)"
  shows "extractTagline Q d =
    (let og = or_empty (attr_of (Q sel_og_description) ''content'');
         twitter = or_empty (attr_of (Q sel_twitter_description) ''content'');
         h1 = trim (first_text (Q sel_h1))
     in if og \<noteq> [] \<and> length og < 120 then og
        else if twitter \<noteq> [] \<and> length twitter < 120 then twitter
        else if h1 \<noteq> [] \<and> length h1 < 150 then h1
        else takeWhile (\<lambda>c. c \<noteq> CHR ''.'') d)"
proof -
  from assms have "find hero_ok (map (hero_text Q) heroSelectors) = None"
    by (simp add: find_None_iff)
  then show ?thesis by (simp add: extractTagline_def Let_def first_part_takeWhile)
qed

lemma hero_ok_iff: "hero_ok t \<longleftrightarrow> 4 < length t \<and> length t < 200"
  by (auto simp: hero_ok_def)

definition page_hero :: "node list" where
  "page_hero =
     [Element ''html'' []
        [Element ''head'' [] [Element ''title'' [] [Text ''Acme'']],
         Element ''body'' []
           [Element ''div'' [(''class'', ''hero'')] [Element ''h1'' [] [Text ''Build Better'']]]]]"

definition page_short_tagline :: "node list" where
  "page_short_tagline =
     [Element ''html'' []
        [Element ''head'' []
           [Element ''meta'' [(''property'', ''og:description''), (''content'', ''Short and sweet'')] []],
         Element ''body'' []
           [Element ''div'' [(''class'', ''tagline'')] [Text ''Home'']]]]"

lemma page_hero_eval:
  "hero_text (load page_hero) (heroSelectors ! 0) = []"
  "hero_text (load page_hero) (heroSelectors ! 1) = []"
  "hero_text (load page_hero) (heroSelectors ! 2) = ''Build Better''"
  "attr_of (load page_hero sel_og_description) ''content'' = None"
  by code_simp+

lemma page_hero_tagline: "extractTagline (load page_hero) d = ''Build Better''"
  by code_simp

lemma page_short_tagline_eval:
  "hero_text (load page_short_tagline) (heroSelectors ! 0) = ''Home''"
  "extractTagline (load page_short_tagline) d = ''Short and sweet''"
  by code_simp+

lemma page_short_tagline_no_hero:
  "\<forall>sel\<in>set heroSelectors. \<not> hero_ok (hero_text (load page_short_tagline) sel)"
  by code_simp

lemma page_short_tagline_og:
  "or_empty (attr_of (load page_short_tagline sel_og_description) ''content'') = ''Short and sweet''"
  by code_simp

text \<open>The first three hero selectors by name.\<close>

definition sel_tagline :: selector where
  "sel_tagline = [[AttrHas ''class'' ''tagline'']]"

definition sel_slogan :: selector where
  "sel_slogan = [[AttrHas ''class'' ''slogan'']]"

definition sel_hero_h1 :: selector where
  "sel_hero_h1 = [[AttrHas ''class'' ''hero''], [Tag ''h1'']]"

text \<open>
  The hero block of \<open>page_hero\<close> followed by a paragraph of class \<open>tagline\<close>; and a page
  whose hero heading has no-break spaces around its text, after a \<open>tagline\<close> paragraph
  too short to count, with a short \<open>og:description\<close>.
\<close>

definition page_hero_and_tagline :: "node list" where
  "page_hero_and_tagline =
     [Element ''html'' []
        [Element ''head'' [] [Element ''title'' [] [Text ''Acme'']],
         Element ''body'' []
           [Element ''div'' [(''class'', ''hero'')] [Element ''h1'' [] [Text ''Build Better'']],
            Element ''p'' [(''class'', ''tagline'')] [Text ''Welcome home'']]]]"

definition page_hero_nbsp :: "node list" where
  "page_hero_nbsp =
     [Element ''html'' []
        [Element ''head'' []
           [Element ''meta'' [(''property'', ''og:description''), (''content'', ''Short and sweet'')] []],
         Element ''body'' []
           [Element ''p'' [(''class'', ''tagline'')] [Text ''Home''],
            Element ''div'' [(''class'', ''hero'')]
              [Element ''h1'' [] [Text (CHR 0xA0 # '' Build Better'' @ [CHR 0xA0, CHR 0x0A])]]]]]"

lemma hero_selectors_head:
  "heroSelectors ! 0 = sel_tagline" "heroSelectors ! Suc 0 = sel_slogan"
  "heroSelectors ! 2 = sel_hero_h1" "2 < length heroSelectors"
  by (simp_all add: heroSelectors_def sel_tagline_def sel_slogan_def sel_hero_h1_def)

lemma tagline_third:
  assumes "\<not> hero_ok (hero_text Q sel_tagline)" and "\<not> hero_ok (hero_text Q sel_slogan)"
    and "hero_ok (hero_text Q sel_hero_h1)"
  shows "extractTagline Q d = hero_text Q sel_hero_h1"
proof -
  have "\<forall>j<2. \<not> hero_ok (hero_text Q (heroSelectors ! j))"
  proof (intro allI impI)
    fix j :: nat
    assume "j < 2"
    then have "j = 0 \<or> j = 1" by auto
    then show "\<not> hero_ok (hero_text Q (heroSelectors ! j))"
      using assms(1,2) by (auto simp: hero_selectors_head)
  qed
  with tagline_hero [of 2 Q d] assms(3) show ?thesis
    by (simp add: hero_selectors_head)
qed

text \<open>Two paragraphs of class \<open>tagline\<close>, the first too short, and a short \<open>og:description\<close>.\<close>

definition page_two_taglines :: "node list" where
  "page_two_taglines =
     [Element ''html'' []
        [Element ''head'' []
           [Element ''meta'' [(''property'', ''og:description''), (''content'', ''Short and sweet'')] []],
         Element ''body'' []
           [Element ''p'' [(''class'', ''tagline'')] [Text ''Hi''],
            Element ''p'' [(''class'', ''tagline'')] [Text ''Welcome home'']]]]"

lemma page_two_taglines_eval:
  "load page_two_taglines sel_tagline
     = [Element ''p'' [(''class'', ''tagline'')] [Text ''Hi''],
        Element ''p'' [(''class'', ''tagline'')] [Text ''Welcome home'']]"
  "hero_ok (trim (text_of (Element ''p'' [(''class'', ''tagline'')] [Text ''Welcome home''])))"
  "extractTagline (load page_two_taglines) d = ''Short and sweet''"
  by code_simp+

lemma build_better_ok: "hero_ok ''Build Better''"
  by (simp add: hero_ok_def)

lemma page_hero_names:
  "hero_text (load page_hero) sel_tagline = []"
  "hero_text (load page_hero) sel_slogan = []"
  "hero_text (load page_hero) sel_hero_h1 = ''Build Better''"
  "or_empty (attr_of (load page_hero sel_og_description) ''content'') = []"
  by code_simp+

lemma page_hero_and_tagline_eval:
  "hero_text (load page_hero_and_tagline) sel_hero_h1 = ''Build Better''"
  "attr_of (load page_hero_and_tagline sel_og_description) ''content'' = None"
  "hero_text (load page_hero_and_tagline) sel_tagline = ''Welcome home''"
  "extractTagline (load page_hero_and_tagline) d = ''Welcome home''"
  by code_simp+

lemma page_hero_nbsp_eval:
  "hero_text (load page_hero_nbsp) sel_tagline = ''Home''"
  "hero_text (load page_hero_nbsp) sel_slogan = []"
  "first_text (load page_hero_nbsp sel_hero_h1) = CHR 0xA0 # '' Build Better'' @ [CHR 0xA0, CHR 0x0A]"
  "hero_text (load page_hero_nbsp) sel_hero_h1 = ''Build Better''"
  "or_empty (attr_of (load page_hero_nbsp sel_og_description) ''content'') = ''Short and sweet''"
  by code_simp+

lemma page_hero_and_tagline_match:
  "load page_hero_and_tagline sel_hero_h1 = [Element ''h1'' [] [Text ''Build Better'']]"
  by code_simp

section \<open>A failed style sheet fetch\<close>

lemma collect_failed_fetch:
  assumes "n u = Rejected e"
  shows "collectFonts U (n(u := Response [])) sched Q b = collectFonts U n sched Q b"
    and "collectColors U f (n(u := Response [])) sched Q b = collectColors U f n sched Q b"
proof -
  from assms have "fetchCSS (n(u := Response [])) = fetchCSS n"
    by (rule fetchCSS_failure_is_empty)
  then show "collectFonts U (n(u := Response [])) sched Q b = collectFonts U n sched Q b"
    and "collectColors U f (n(u := Response [])) sched Q b = collectColors U f n sched Q b"
    by (simp_all only: collectFonts_def collectColors_def)
qed

lemma extract_failed_fetch:
  assumes "n u = Rejected e"
  shows "extractFonts U (n(u := Response [])) sched Q b = extractFonts U n sched Q b"
    and "extractColors U f (n(u := Response [])) sched Q b = extractColors U f n sched Q b"
  using assms by (simp_all only: extractFonts_def extractColors_def collect_failed_fetch)

lemma analyze_failed_fetch:
  shows "fonts_net W u = Rejected e \<Longrightarrow>
      analyze U f (W\<lparr>fonts_net := (fonts_net W)(u := Response [])\<rparr>) c rawUrl = analyze U f W c rawUrl"
    and "colors_net W u = Rejected e \<Longrightarrow>
      analyze U f (W\<lparr>colors_net := (colors_net W)(u := Response [])\<rparr>) c rawUrl = analyze U f W c rawUrl"
  by (simp_all add: analyze_def extract_failed_fetch assemble_def cong: sum.case_cong option.case_cong axios_result.case_cong)

lemma extractMeta_returns:
  "url_hostname U t = Some h \<Longrightarrow> \<exists>meta. extractMeta U Q t = Inr meta"
  by (simp add: extractMeta_def Let_def)

definition page_two_sheets :: "node list" where
  "page_two_sheets =
     [Element ''html'' []
        [Element ''head'' []
           [Element ''link'' [(''rel'', ''stylesheet''), (''href'', ''/a.css'')] [],
            Element ''link'' [(''rel'', ''stylesheet''), (''href'', ''/b.css'')] [],
            Element ''style'' []
              [Text '':root{--brand-color:#FF0000;} body{font-family: Inter, sans-serif}'']],
         Element ''body'' [] []]]"

definition not_found :: axios_error where
  "not_found = \<lparr>err_status = Some 404, err_code = Some ''ERR_BAD_REQUEST'',
     err_message = Some ''Request failed with status code 404''\<rparr>"

definition net_b_only :: net where
  "net_b_only u =
     (if u = ''https://example.com/b.css''
      then Response ''h1{font-family: Lora; color: #00FF00}''
      else Rejected not_found)"

lemma page_two_sheets_eval:
  "cssToFetch simple_url (load page_two_sheets) ''https://example.com/''
     = [''https://example.com/a.css'', ''https://example.com/b.css'']"
  "net_b_only ''https://example.com/a.css'' = Rejected not_found"
  "extractFonts simple_url net_b_only [] (load page_two_sheets) ''https://example.com/''
     = Some [\<lparr>name = ''Inter'', category = Sans_Serif, sample = ''Aa Bb Cc 123''\<rparr>,
             \<lparr>name = ''Lora'', category = Serif, sample = ''Aa Bb Cc 123''\<rparr>]"
  by code_simp+

lemma page_two_sheets_colors:
  "map_option (map (\<lambda>c. (hex c, frequency c, label c)))
     (extractColors simple_url f net_b_only [] (load page_two_sheets) ''https://example.com/'')
     = Some [(''#FF0000'', 3, Primary), (''#00FF00'', 1, Secondary)]"
  by code_simp

text \<open>The returned lists after the caps: what of the accumulated set and map is in them.\<close>

lemma extractFonts_names:
  assumes "collectFonts U n sched Q b = Some fs"
  shows "\<exists>fonts. extractFonts U n sched Q b = Some fonts \<and> map name fonts = take 6 fs
           \<and> (fonts = [] \<longleftrightarrow> fs = [])"
  using assms by (simp add: extractFonts_def mk_font_def o_def)

lemma collectFonts_distinct:
  assumes "collectFonts U n sched Q b = Some fs"
  shows "distinct fs"
  using assms by (auto simp: collectFonts_def distinct_fold_set_add split: bind_splits)

lemma take_all_or_full:
  "x \<in> set xs \<Longrightarrow> x \<in> set (take k xs) \<or> length (take k xs) = k"
  by (cases "length xs \<le> k") simp_all

lemma keys_merge_counts: "fst ` set (merge_counts m acc) = fst ` set m \<union> fst ` set acc"
  unfolding merge_counts_def
proof (induction m arbitrary: acc)
  case Nil
  show ?case by simp
next
  case (Cons e m)
  obtain k w where e: "e = (k, w)" by (cases e)
  show ?case by (simp add: e Cons.IH keys_bump)
qed

lemma distinct_merge_counts:
  "distinct (map fst acc) \<Longrightarrow> distinct (map fst (merge_counts m acc))"
  unfolding merge_counts_def
proof (induction m arbitrary: acc)
  case Nil
  then show ?case by simp
next
  case (Cons e m)
  obtain k w where e: "e = (k, w)" by (cases e)
  from Cons.prems have "distinct (map fst (bump k w acc))" by (rule distinct_bump)
  from Cons.IH [OF this] show ?case by (simp add: e)
qed

lemma distinct_fold_merge_counts:
  "distinct (map fst acc) \<Longrightarrow> distinct (map fst (fold merge_counts ms acc))"
  by (induction ms arbitrary: acc) (simp_all add: distinct_merge_counts)

lemma collectColors_distinct:
  assumes "collectColors U f n sched Q b = Some cm"
  shows "distinct (map fst cm)"
  using assms by (auto simp: collectColors_def distinct_fold_merge_counts split: bind_splits)

lemma weight_entry:
  assumes "distinct (map fst m)" and "0 < weight m h"
  shows "(h, weight m h) \<in> set m"
proof -
  from assms(2) obtain v where "map_of m h = Some v" "weight m h = v"
    by (auto simp: weight_def split: option.splits)
  then show ?thesis by (simp add: map_of_SomeD)
qed

lemma rankColors_all_or_top:
  assumes d: "distinct (map fst m)" and w: "0 < weight m h"
  shows "(\<exists>c\<in>set (rankColors m). hex c = h \<and> frequency c = weight m h)
         \<or> (length (rankColors m) = 8 \<and> (\<forall>c\<in>set (rankColors m). weight m h \<le> frequency c))"
proof (cases "(h, weight m h) \<in> set (map entry (rankColors m))")
  case True
  then show ?thesis by (auto simp: entry_def)
next
  case False
  let ?e = "(h, weight m h)"
  from weight_entry [OF d w] have e: "?e \<in> set m" .
  from False have "count (mset (map entry (rankColors m))) ?e = 0"
    by (simp only: count_eq_zero_iff set_mset_mset) simp
  moreover from e have "0 < count (mset m) ?e"
    by (simp only: count_greater_zero_iff set_mset_mset)
  ultimately have "?e \<in># mset m - mset (map entry (rankColors m))"
    by (simp only: in_diff_count)
  then have top: "\<forall>c\<in>set (rankColors m). weight m h \<le> frequency c"
    using rankColors_top(2) [of ?e m] by auto
  have "length (rankColors m) = 8"
  proof (rule ccontr)
    assume "length (rankColors m) \<noteq> 8"
    then have "length m \<le> 8" by (simp add: rankColors_length min_def split: if_splits)
    then have "map entry (rankColors m) = sort_key (\<lambda>e. - int (snd e)) m"
      by (simp add: rankColors_entries)
    then have "set (map entry (rankColors m)) = set m" by simp
    with e False show False by simp
  qed
  with top show ?thesis by blast
qed

text \<open>The result of the route holds what the two extractors returned.\<close>

lemma analyze_result:
  assumes "rawUrl \<noteq> []" and "normalizeUrl U rawUrl = Inr t" and "c t = None"
    and "page_net W t = Response html" and "url_hostname U t = Some h" and "url_origin U t = Some og"
  shows "\<exists>r fonts cols.
      analyze U f W c rawUrl = Some (Result_json r False, c(t \<mapsto> r))
      \<and> extractFonts U (fonts_net W) (fonts_sched W) (parse_html W html) t = Some fonts
      \<and> extractColors U f (colors_net W) (colors_sched W) (parse_html W html) t = Some cols
      \<and> res_fonts r = (if fonts = [] then [system_default_font] else fonts)
      \<and> res_colors r = cols
      \<and> res_url r = t"
proof -
  let ?Q = "parse_html W html"
  obtain fs where fs: "collectFonts U (fonts_net W) (fonts_sched W) ?Q t = Some fs"
    using collectFonts_total by blast
  obtain cm where cm: "collectColors U f (colors_net W) (colors_sched W) ?Q t = Some cm"
    using collectColors_total by blast
  obtain meta where meta: "extractMeta U ?Q t = Inr meta"
    using extractMeta_returns [OF assms(5)] by blast
  obtain lg where lg: "extractLogo U ?Q t = Inr lg"
    using assms(6) by (auto simp: extractLogo_def)
  show ?thesis
    using assms(1-4) fs cm meta lg
    by (simp add: analyze_def extractFonts_def extractColors_def Let_def assemble_def)
qed

text \<open>
  A page with six font families and eight colors in its inline style block and two
  style sheets, and the
  worlds in which the pages \<open>page_two_sheets\<close> and \<open>page_six_inline\<close> are fetched and only
  \<open>/b.css\<close> answers.
\<close>

definition page_six_inline :: "node list" where
  "page_six_inline =
     [Element ''html'' []
        [Element ''head'' []
           [Element ''link'' [(''rel'', ''stylesheet''), (''href'', ''/a.css'')] [],
            Element ''link'' [(''rel'', ''stylesheet''), (''href'', ''/b.css'')] [],
            Element ''style'' []
              [Text ('':root{--color-a:#AA0000;--color-b:#00AA00;--color-c:#0000AA;--color-d:#AAAA00;''
                 @ ''--color-e:#AA00AA;--color-f:#00AAAA;--color-g:#AA5500;--color-h:#5500AA} ''
                 @ ''body{font-family: Inter, Roboto, Poppins, Nunito, Lato, Oswald}'')]],
         Element ''body'' [] []]]"

definition world_of :: "node list \<Rightarrow> world" where
  "world_of page =
     \<lparr>page_net = (\<lambda>u. if u = ''https://example.com/'' then Response ''<html></html>''
                        else Rejected not_found),
      fonts_net = net_b_only, colors_net = net_b_only, fonts_sched = [], colors_sched = [],
      parse_html = (\<lambda>html. load page), now_iso = ''2024-01-01T00:00:00.000Z''\<rparr>"

text \<open>The font names and the colors of a response, nothing for an error response.\<close>

definition fonts_of :: "(http_response \<times> cache) option \<Rightarrow> string list" where
  "fonts_of a = (case a of Some (Result_json r cached, c) \<Rightarrow> map name (res_fonts r) | _ \<Rightarrow> [])"

definition colors_of :: "(http_response \<times> cache) option \<Rightarrow> (string \<times> nat) list" where
  "colors_of a = (case a of Some (Result_json r cached, c) \<Rightarrow> map entry (res_colors r) | _ \<Rightarrow> [])"

lemma world_of_eval:
  "normalizeUrl simple_url ''example.com'' = Inr ''https://example.com/''"
  "page_net (world_of page) ''https://example.com/'' = Response ''<html></html>''"
  "url_hostname simple_url ''https://example.com/'' = Some ''example.com''"
  "url_origin simple_url ''https://example.com/'' = Some ''https://example.com''"
  "fonts_net (world_of page) = net_b_only"
  "colors_net (world_of page) = net_b_only"
  "fonts_sched (world_of page) = []"
  "colors_sched (world_of page) = []"
  "parse_html (world_of page) html = load page"
  by code_simp (simp_all add: world_of_def, code_simp+)

lemma route_lists:
  assumes "rawUrl \<noteq> []" and "normalizeUrl U rawUrl = Inr t" and "c t = None"
    and "page_net W t = Response html" and "url_hostname U t = Some h" and "url_origin U t = Some og"
    and "extractFonts U (fonts_net W) (fonts_sched W) (parse_html W html) t = Some fonts"
    and "extractColors U f (colors_net W) (colors_sched W) (parse_html W html) t = Some cols"
  shows "fonts_of (analyze U f W c rawUrl)
           = map name (if fonts = [] then [system_default_font] else fonts)"
    and "colors_of (analyze U f W c rawUrl) = map entry cols"
  using analyze_result [of rawUrl U t c W html h og f] assms
  by (auto simp: fonts_of_def colors_of_def)

lemma page_two_sheets_route:
  "fonts_of (analyze simple_url f (world_of page_two_sheets) Map.empty ''example.com'')
     = [''Inter'', ''Lora'']"
  "colors_of (analyze simple_url f (world_of page_two_sheets) Map.empty ''example.com'')
     = [(''#FF0000'', 3), (''#00FF00'', 1)]"
proof -
  have raw: "''example.com'' \<noteq> []" and c: "Map.empty ''https://example.com/'' = None"
    by simp_all
  have fnt: "extractFonts simple_url (fonts_net (world_of page_two_sheets))
      (fonts_sched (world_of page_two_sheets))
      (parse_html (world_of page_two_sheets) ''<html></html>'') ''https://example.com/''
    = Some [\<lparr>name = ''Inter'', category = Sans_Serif, sample = ''Aa Bb Cc 123''\<rparr>,
            \<lparr>name = ''Lora'', category = Serif, sample = ''Aa Bb Cc 123''\<rparr>]"
    by (simp only: world_of_eval page_two_sheets_eval)
  obtain cols where col: "extractColors simple_url f (colors_net (world_of page_two_sheets))
      (colors_sched (world_of page_two_sheets))
      (parse_html (world_of page_two_sheets) ''<html></html>'') ''https://example.com/'' = Some cols"
    and ent: "map entry cols = [(''#FF0000'', 3), (''#00FF00'', 1)]"
    using page_two_sheets_colors [of f]
    by (auto simp: world_of_eval entry_def)
  note route = route_lists [of "''example.com''" simple_url "''https://example.com/''" Map.empty
      "world_of page_two_sheets" "''<html></html>''" "''example.com''" "''https://example.com''"
      _ f cols, OF raw world_of_eval(1) c world_of_eval(2-4) fnt col]
  from route(1)
  show "fonts_of (analyze simple_url f (world_of page_two_sheets) Map.empty ''example.com'')
     = [''Inter'', ''Lora'']"
    by simp
  from route(2) ent
  show "colors_of (analyze simple_url f (world_of page_two_sheets) Map.empty ''example.com'')
     = [(''#FF0000'', 3), (''#00FF00'', 1)]"
    by simp
qed

lemma page_six_inline_eval:
  "cssToFetch simple_url (load page_six_inline) ''https://example.com/''
     = [''https://example.com/a.css'', ''https://example.com/b.css'']"
  "net_b_only ''https://example.com/b.css'' = Response ''h1{font-family: Lora; color: #00FF00}''"
  "extractFontsFromCSS ''h1{font-family: Lora; color: #00FF00}'' = Some [''Lora'']"
  "collectFonts simple_url net_b_only [] (load page_six_inline) ''https://example.com/''
     = Some [''Inter'', ''Roboto'', ''Poppins'', ''Nunito'', ''Lato'', ''Oswald'', ''Lora'']"
  by code_simp+

lemma page_six_inline_fonts:
  "map_option (map name)
     (extractFonts simple_url net_b_only [] (load page_six_inline) ''https://example.com/'')
     = Some [''Inter'', ''Roboto'', ''Poppins'', ''Nunito'', ''Lato'', ''Oswald'']"
  by (simp add: extractFonts_def page_six_inline_eval(4) mk_font_def)

lemma page_six_inline_map:
  "extractColorsFromCSS f ''h1{font-family: Lora; color: #00FF00}'' = Some [(''#00FF00'', 1)]"
  "collectColors simple_url f net_b_only [] (load page_six_inline) ''https://example.com/''
     = Some [(''#AA0000'', 3), (''#00AA00'', 3), (''#0000AA'', 3), (''#AAAA00'', 3),
             (''#AA00AA'', 3), (''#00AAAA'', 3), (''#AA5500'', 3), (''#5500AA'', 3), (''#00FF00'', 1)]"
  by code_simp+

lemma page_six_inline_colors:
  "map_option (map entry)
     (extractColors simple_url f net_b_only [] (load page_six_inline) ''https://example.com/'')
     = Some [(''#AA0000'', 3), (''#00AA00'', 3), (''#0000AA'', 3), (''#AAAA00'', 3),
             (''#AA00AA'', 3), (''#00AAAA'', 3), (''#AA5500'', 3), (''#5500AA'', 3)]"
  by (simp add: extractColors_def page_six_inline_map(2) rankColors_entries o_def)

lemma page_six_inline_route:
  "fonts_of (analyze simple_url f (world_of page_six_inline) Map.empty ''example.com'')
     = [''Inter'', ''Roboto'', ''Poppins'', ''Nunito'', ''Lato'', ''Oswald'']"
  "colors_of (analyze simple_url f (world_of page_six_inline) Map.empty ''example.com'')
     = [(''#AA0000'', 3), (''#00AA00'', 3), (''#0000AA'', 3), (''#AAAA00'', 3),
        (''#AA00AA'', 3), (''#00AAAA'', 3), (''#AA5500'', 3), (''#5500AA'', 3)]"
proof -
  have raw: "''example.com'' \<noteq> []" and c: "Map.empty ''https://example.com/'' = None"
    by simp_all
  obtain fonts where fnt: "extractFonts simple_url (fonts_net (world_of page_six_inline))
      (fonts_sched (world_of page_six_inline))
      (parse_html (world_of page_six_inline) ''<html></html>'') ''https://example.com/'' = Some fonts"
    and names: "map name fonts = [''Inter'', ''Roboto'', ''Poppins'', ''Nunito'', ''Lato'', ''Oswald'']"
    using page_six_inline_fonts by (auto simp: world_of_eval)
  obtain cols where col: "extractColors simple_url f (colors_net (world_of page_six_inline))
      (colors_sched (world_of page_six_inline))
      (parse_html (world_of page_six_inline) ''<html></html>'') ''https://example.com/'' = Some cols"
    and ent: "map entry cols = [(''#AA0000'', 3), (''#00AA00'', 3), (''#0000AA'', 3), (''#AAAA00'', 3),
        (''#AA00AA'', 3), (''#00AAAA'', 3), (''#AA5500'', 3), (''#5500AA'', 3)]"
    using page_six_inline_colors [of f] by (auto simp: world_of_eval)
  note route = route_lists [of "''example.com''" simple_url "''https://example.com/''" Map.empty
      "world_of page_six_inline" "''<html></html>''" "''example.com''" "''https://example.com''"
      fonts f cols, OF raw world_of_eval(1) c world_of_eval(2-4) fnt col]
  from names have "fonts \<noteq> []" by auto
  with route(1) names
  show "fonts_of (analyze simple_url f (world_of page_six_inline) Map.empty ''example.com'')
     = [''Inter'', ''Roboto'', ''Poppins'', ''Nunito'', ''Lato'', ''Oswald'']"
    by simp
  from route(2) ent
  show "colors_of (analyze simple_url f (world_of page_six_inline) Map.empty ''example.com'')
     = [(''#AA0000'', 3), (''#00AA00'', 3), (''#0000AA'', 3), (''#AAAA00'', 3),
        (''#AA00AA'', 3), (''#00AAAA'', 3), (''#AA5500'', 3), (''#5500AA'', 3)]"
    by simp
qed

section \<open>The error responses\<close>

lemma analyze_page_rejected:
  assumes "rawUrl \<noteq> []" and "normalizeUrl U rawUrl = Inr t" and "c t = None"
    and "page_net W t = Rejected err"
  shows "analyze U f W c rawUrl = Some (handler err, c)"
  using assms by (simp add: analyze_def)

lemma handler_blocked:
  "err_status err = Some 403 \<or> err_status err = Some 401
     \<Longrightarrow> handler err = Error_json 403 msg_blocked"
  by (auto simp: handler_def)

lemma handler_generic:
  assumes "handler err = Error_json 500 m"
  shows "err_status err \<noteq> Some 403" "err_status err \<noteq> Some 401"
    "err_code err \<noteq> Some ''ECONNREFUSED''" "err_code err \<noteq> Some ''ENOTFOUND''"
    "err_code err \<noteq> Some ''ETIMEDOUT''"
    "\<not> (\<exists>msg. err_message err = Some msg \<and> js_includes msg ''timeout'')"
    "m = ''Failed to analyze site. '' @ or_empty (err_message err)"
  using assms by (auto simp: handler_def Let_def split: if_splits option.splits)

definition forbidden :: axios_error where
  "forbidden = \<lparr>err_status = Some 403, err_code = Some ''ERR_BAD_REQUEST'',
     err_message = Some ''Request failed with status code 403''\<rparr>"

definition world_blocked :: world where
  "world_blocked = \<lparr>page_net = (\<lambda>u. Rejected forbidden), fonts_net = (\<lambda>u. Rejected forbidden),
     colors_net = (\<lambda>u. Rejected forbidden), fonts_sched = [], colors_sched = [],
     parse_html = (\<lambda>html. load []), now_iso = ''2024-01-01T00:00:00.000Z''\<rparr>"

lemma handler_kind:
  assumes "error_kind (handler err) = Some FetchFailed"
  shows "handler err = Error_json 500 (''Failed to analyze site. '' @ or_empty (err_message err))"
proof -
  consider "handler err = Error_json 403 msg_blocked" | "handler err = Error_json 404 msg_unreachable"
    | "handler err = Error_json 408 msg_timeout"
    | "handler err = Error_json 500 (''Failed to analyze site. '' @ or_empty (err_message err))"
    unfolding handler_def Let_def by presburger
  then show ?thesis using assms by cases (simp_all add: error_kind_def)
qed

lemma world_blocked_eval:
  "normalizeUrl simple_url ''example.com'' = Inr ''https://example.com/''"
  "page_net world_blocked ''https://example.com/'' = Rejected forbidden"
  "err_status forbidden = Some 403"
  by code_simp (simp_all add: world_blocked_def forbidden_def)

definition bad_gateway :: axios_error where
  "bad_gateway = \<lparr>err_status = Some 502, err_code = Some ''ERR_BAD_RESPONSE'',
     err_message = Some ''Request failed with status code 502''\<rparr>"

lemma handler_generic_example:
  "handler bad_gateway = Error_json 500 ''Failed to analyze site. Request failed with status code 502''"
  by code_simp

lemma handler_generic_when:
  assumes "err_status err \<noteq> Some 403" and "err_status err \<noteq> Some 401"
    and "err_code err \<noteq> Some ''ECONNREFUSED''" and "err_code err \<noteq> Some ''ENOTFOUND''"
    and "err_code err \<noteq> Some ''ETIMEDOUT''"
    and "\<not> (\<exists>msg. err_message err = Some msg \<and> js_includes msg ''timeout'')"
  shows "handler err = Error_json 500 (''Failed to analyze site. '' @ or_empty (err_message err))"
proof -
  from assms(6) have "\<not> (case err_message err of Some m \<Rightarrow> js_includes m ''timeout'' | None \<Rightarrow> False)"
    by (cases "err_message err") simp_all
  with assms(1-5) show ?thesis
    unfolding handler_def Let_def by presburger
qed

lemma handler_generic_iff:
  "error_kind (handler err) = Some FetchFailed \<longleftrightarrow>
     err_status err \<noteq> Some 403 \<and> err_status err \<noteq> Some 401
     \<and> err_code err \<noteq> Some ''ECONNREFUSED'' \<and> err_code err \<noteq> Some ''ENOTFOUND''
     \<and> err_code err \<noteq> Some ''ETIMEDOUT''
     \<and> \<not> (\<exists>msg. err_message err = Some msg \<and> js_includes msg ''timeout'')"
proof
  assume "error_kind (handler err) = Some FetchFailed"
  then have h: "handler err
      = Error_json 500 (''Failed to analyze site. '' @ or_empty (err_message err))"
    by (rule handler_kind)
  from handler_generic(1-6) [OF h]
  show "err_status err \<noteq> Some 403 \<and> err_status err \<noteq> Some 401
     \<and> err_code err \<noteq> Some ''ECONNREFUSED'' \<and> err_code err \<noteq> Some ''ENOTFOUND''
     \<and> err_code err \<noteq> Some ''ETIMEDOUT''
     \<and> \<not> (\<exists>msg. err_message err = Some msg \<and> js_includes msg ''timeout'')"
    by blast
next
  assume "err_status err \<noteq> Some 403 \<and> err_status err \<noteq> Some 401
     \<and> err_code err \<noteq> Some ''ECONNREFUSED'' \<and> err_code err \<noteq> Some ''ENOTFOUND''
     \<and> err_code err \<noteq> Some ''ETIMEDOUT''
     \<and> \<not> (\<exists>msg. err_message err = Some msg \<and> js_includes msg ''timeout'')"
  then have "handler err
      = Error_json 500 (''Failed to analyze site. '' @ or_empty (err_message err))"
    using handler_generic_when [of err] by blast
  then show "error_kind (handler err) = Some FetchFailed"
    by (simp add: error_kind_def)
qed

text \<open>
  Three errors of the network that have no response: a name lookup that fails for the
  moment, a connection that the peer resets, and a socket that times out.
\<close>

definition dns_again :: axios_error where
  "dns_again = \<lparr>err_status = None, err_code = Some ''EAI_AGAIN'',
     err_message = Some ''getaddrinfo EAI_AGAIN example.com''\<rparr>"

definition conn_reset :: axios_error where
  "conn_reset = \<lparr>err_status = None, err_code = Some ''ECONNRESET'',
     err_message = Some ''read ECONNRESET''\<rparr>"

definition socket_timed_out :: axios_error where
  "socket_timed_out = \<lparr>err_status = None, err_code = Some ''ESOCKETTIMEDOUT'',
     err_message = Some ''Socket timed out''\<rparr>"

definition world_dns :: world where
  "world_dns = \<lparr>page_net = (\<lambda>u. Rejected dns_again), fonts_net = (\<lambda>u. Rejected dns_again),
     colors_net = (\<lambda>u. Rejected dns_again), fonts_sched = [], colors_sched = [],
     parse_html = (\<lambda>html. load []), now_iso = ''2024-01-01T00:00:00.000Z''\<rparr>"

lemma unrecognised_errors:
  "handler dns_again = Error_json 500 ''Failed to analyze site. getaddrinfo EAI_AGAIN example.com''"
  "handler conn_reset = Error_json 500 ''Failed to analyze site. read ECONNRESET''"
  "handler socket_timed_out = Error_json 500 ''Failed to analyze site. Socket timed out''"
  by code_simp+

lemma world_dns_eval:
  "page_net world_dns ''https://example.com/'' = Rejected dns_again"
  by (simp add: world_dns_def)

lemma world_dns_route:
  "analyze simple_url f world_dns Map.empty ''example.com''
     = Some (Error_json 500 ''Failed to analyze site. getaddrinfo EAI_AGAIN example.com'', Map.empty)"
proof -
  have "analyze simple_url f world_dns Map.empty ''example.com'' = Some (handler dns_again, Map.empty)"
    by (rule analyze_page_rejected [where t = "''https://example.com/''"])
      (simp_all add: world_blocked_eval(1) world_dns_eval)
  then show ?thesis by (simp only: unrecognised_errors)
qed

section \<open>The URL normalizer: the prefix test\<close>

lemma search_anchored_later: "search (Seq Bol r) (Some c) s = None"
  by (induction s arbitrary: c) simp_all

lemma test_anchored:
  "test (Seq Bol r) s \<longleftrightarrow> rmatch r (None, s, []) \<noteq> []"
  by (cases s) (auto simp: test_def search_anchored_later split: list.splits)

lemma lower_char_cases:
  "lower_char c = CHR ''h'' \<longleftrightarrow> c = CHR ''h'' \<or> c = CHR ''H''"
  "lower_char c = CHR ''t'' \<longleftrightarrow> c = CHR ''t'' \<or> c = CHR ''T''"
  "lower_char c = CHR ''p'' \<longleftrightarrow> c = CHR ''p'' \<or> c = CHR ''P''"
  "lower_char c = CHR ''s'' \<longleftrightarrow> c = CHR ''s'' \<or> c = CHR ''S''"
  "lower_char c = CHR '':'' \<longleftrightarrow> c = CHR '':''"
  "lower_char c = CHR ''/'' \<longleftrightarrow> c = CHR ''/''"
  by (simp_all add: lower_char_def uppers_def lowers_def latin_uppers_def latin_lowers_def)

lemma re_http_unfold:
  "re_http = Seq Bol (Seq (Seq (Cls ''Hh'') (Seq (Cls ''Tt'') (Seq (Cls ''Tt'') (Cls ''Pp''))))
      (Seq (Alt (Cls ''Ss'') Eps) (Seq (Cls '':'') (Seq (Cls ''/'') (Cls ''/'')))))"
  by code_simp

lemma list_upto8:
  obtains "length s < 7" | c1 c2 c3 c4 c5 c6 c7 where "s = [c1, c2, c3, c4, c5, c6, c7]"
  | c1 c2 c3 c4 c5 c6 c7 c8 t where "s = c1 # c2 # c3 # c4 # c5 # c6 # c7 # c8 # t"
proof -
  consider "length s < 7" | "length s = 7" | "length s \<ge> 8" by linarith
  then show ?thesis
  proof cases
    case 1 then show ?thesis by (rule that(1))
  next
    case 2
    then show ?thesis
      by (auto simp: length_Suc_conv eval_nat_numeral intro: that(2))
  next
    case 3
    then have "s = take 8 s @ drop 8 s" "length (take 8 s) = 8" by simp_all
    then obtain a where a: "s = a @ drop 8 s" "length a = 8" by metis
    from a(2) obtain c1 c2 c3 c4 c5 c6 c7 c8 where "a = [c1, c2, c3, c4, c5, c6, c7, c8]"
      by (auto simp: length_Suc_conv eval_nat_numeral)
    with a(1) show ?thesis by (auto intro: that(3))
  qed
qed

lemma test_re_http_iff: "test re_http s \<longleftrightarrow> http_prefix s \<noteq> None"
proof (cases s rule: list_upto8)
  case 1
  then have "\<not> test re_http s"
    unfolding re_http_unfold test_anchored
    by (auto simp: eval_nat_numeral split: list.splits)
  moreover from 1 have "http_prefix s = None"
    by (auto simp: http_prefix_def toLowerCase_def dest!: arg_cong [where f = length])
  ultimately show ?thesis by simp
next
  case (2 c1 c2 c3 c4 c5 c6 c7)
  show ?thesis
    unfolding re_http_unfold test_anchored 2
    by (auto simp: http_prefix_def toLowerCase_def lower_char_cases)
next
  case (3 c1 c2 c3 c4 c5 c6 c7 c8 t)
  show ?thesis
    unfolding re_http_unfold test_anchored 3
    by (auto simp: http_prefix_def toLowerCase_def lower_char_cases)
qed

lemma has_prefix_iff:
  "test re_http s \<longleftrightarrow> toLowerCase (take 7 s) = ''http://'' \<or> toLowerCase (take 8 s) = ''https://''"
  by (simp add: test_re_http_iff http_prefix_def)

lemma test_https_prefixed: "test re_http (''https://'' @ s)"
  by (simp add: has_prefix_iff toLowerCase_def lower_char_cases)

lemma normalizeUrl_cases:
  "normalizeUrl U x =
     (case url_href U (if test re_http (trim x) then trim x else ''https://'' @ trim x) of
        Some h \<Rightarrow> Inr h | None \<Rightarrow> Inl Error_Invalid_URL)"
  by (simp add: normalizeUrl_def Let_def)

lemma normalize_examples:
  "toLowerCase (take 7 (trim ''Example.com'')) \<noteq> ''http://''"
  "toLowerCase (take 8 (trim ''Example.com'')) \<noteq> ''https://''"
  "url_href simple_url (''https://'' @ trim ''Example.com'') = Some ''https://example.com/''"
  "normalizeUrl simple_url ''Example.com'' = Inr ''https://example.com/''"
  by code_simp+

lemma normalize_leading_space:
  "take 7 '' http://example.com'' \<noteq> ''http://''"
  "take 8 '' http://example.com'' \<noteq> ''https://''"
  "normalizeUrl simple_url '' http://example.com'' = Inr ''http://example.com/''"
  "url_href simple_url (''https://'' @ '' http://example.com'') = None"
  by code_simp+

section \<open>The claims of the specification\<close>

text \<open>
  C1.  For the CSS text \<^verbatim>\<open>:root{--brand-color:#FF0000;} a{color:#FFFFFF;}\<close> the color
  extraction over that one source returns a frequency map that holds \<open>#FF0000\<close> with
  weight at least 3 (here exactly 3, from the custom-property scan) and does not hold
  \<open>#FFFFFF\<close>: the property scan finds \<open>#FFFFFF\<close>, which normalizes to itself and is
  near-white for the brightness test, so it is left out before it is counted.
\<close>

theorem extractColorsFromCSS_brand_example:
  "(\<exists>m w. extractColorsFromCSS f '':root{--brand-color:#FF0000;} a{color:#FFFFFF;}'' = Some m
        \<and> map_of m ''#FF0000'' = Some w \<and> 3 \<le> w \<and> map_of m ''#FFFFFF'' = None)
   \<and> exec_all colorPropRegex None '':root{--brand-color:#FF0000;} a{color:#FFFFFF;}''
       = Some [(''{color:#FFFFFF'', [(1, ''#FFFFFF'')])]
   \<and> normalizeColor f ''#FFFFFF'' = Some ''#FFFFFF''
   \<and> isBlackOrWhite ''#FFFFFF''
   \<and> \<not> isBlackOrWhite ''#FF0000''"
  by (simp add: brand_example_scan brand_example_props white_is_excluded)

text \<open>
  C2.  The claim is that \<open>normalizeColor\<close> returns \<open>null\<close> or \<open>#\<close> and exactly six upper-case
  hexadecimal digits, as its own comment says ("Convert color string to 6-digit hex").
  On the \<open>rgb()\<close> path a component above 255 prints as three or more hexadecimal digits:
  \<open>rgb(300, 200, 100)\<close> becomes \<open>#12CC864\<close>, seven digits, which the brightness test lets
  through, so the frequency map of a style sheet with that color has it as a key.
\<close>

theorem normalizeColor_rgb_component_above_255:
  "normalizeColor f ''rgb(300, 200, 100)'' = Some ''#12CC864''
   \<and> length ''#12CC864'' = 8
   \<and> \<not> isBlackOrWhite ''#12CC864''
   \<and> extractColorsFromCSS f ''a{color:rgb(300, 200, 100)}'' = Some [(''#12CC864'', 1)]"
  by (simp add: rgb_example_normalize rgb_example_not_neutral rgb_example_scan)

text \<open>
  C3.  \<open>extractColors\<close> always returns, and what it returns is \<open>rankColors\<close> of the
  accumulated frequency map.  For every frequency map, that list is in descending order
  of weight; it has the eight heaviest entries of the map, or all of them when there are
  fewer (every entry left out weighs no more than any entry kept); and the label of the
  entry at index 0, 1, 2 is Primary, Secondary, Accent, whatever its weight, while every
  later entry keeps the label of the threshold pass: Primary above 5, Secondary above 2,
  Accent otherwise.
\<close>

theorem extractColors_sorted_top8_labelled:
  "(\<exists>m. collectColors U f n sched Q baseUrl = Some m
        \<and> extractColors U f n sched Q baseUrl = Some (rankColors m))
   \<and> sorted_wrt (\<lambda>a b. frequency b \<le> frequency a) (rankColors cm)
   \<and> length (rankColors cm) = min 8 (length cm)
   \<and> mset (map entry (rankColors cm)) \<subseteq># mset cm
   \<and> (\<forall>e c. e \<in># mset cm - mset (map entry (rankColors cm)) \<and> c \<in> set (rankColors cm)
         \<longrightarrow> snd e \<le> frequency c)
   \<and> (\<forall>i < length (rankColors cm). label (rankColors cm ! i) =
         (if i = 0 then Primary else if i = 1 then Secondary else if i = 2 then Accent
          else threshold_label (frequency (rankColors cm ! i))))
   \<and> threshold_label w = (if w > 5 then Primary else if w > 2 then Secondary else Accent)"
proof -
  obtain m where "collectColors U f n sched Q baseUrl = Some m"
    using collectColors_total by blast
  then have "\<exists>m. collectColors U f n sched Q baseUrl = Some m
        \<and> extractColors U f n sched Q baseUrl = Some (rankColors m)"
    by (simp add: extractColors_def)
  then show ?thesis
    using rankColors_descending [of cm] rankColors_length [of cm]
      rankColors_top [where m = cm] rankColors_label [where m = cm]
    by (simp add: threshold_label_def)
qed

theorem extractColors_sorted_top8_labelled_witness:
  "3 < length (rankColors palette_example)
   \<and> label (rankColors palette_example ! 3) = Secondary
   \<and> frequency (rankColors palette_example ! 3) = 3
   \<and> label (rankColors palette_example ! 2) = Accent
   \<and> frequency (rankColors palette_example ! 2) = 6"
proof -
  have len: "length (rankColors palette_example) = 5"
    using arg_cong [OF palette_example_ranked, of length] by simp
  have f: "frequency (rankColors palette_example ! 3) = 3"
    "frequency (rankColors palette_example ! 2) = 6"
    using arg_cong [OF palette_example_ranked, of "\<lambda>xs. fst (snd (xs ! 3))"]
      arg_cong [OF palette_example_ranked, of "\<lambda>xs. fst (snd (xs ! 2))"] len
    by simp_all
  from extractColors_sorted_top8_labelled [of U f n sched Q baseUrl palette_example 3]
  have "\<forall>i < length (rankColors palette_example). label (rankColors palette_example ! i) =
         (if i = 0 then Primary else if i = 1 then Secondary else if i = 2 then Accent
          else threshold_label (frequency (rankColors palette_example ! i)))"
    by blast
  with len have "label (rankColors palette_example ! 3)
      = threshold_label (frequency (rankColors palette_example ! 3))"
    and "label (rankColors palette_example ! 2) = Accent"
    by simp_all
  with len f show ?thesis by (simp add: threshold_label_def)
qed

text \<open>
  C4, as amended.  The claim is that a document with an \<open>og:image\<close> meta tag with non-empty
  content always gets a priority-1 choice.  The code reads the \<open>content\<close> of the first
  \<open>og:image\<close> meta tag only, resolves it against the base URL, and skips a candidate whose
  URL does not resolve.  What holds: when the first \<open>og:image\<close> meta tag has non-empty
  content that resolves against the base URL (a URL the platform parses), the chosen
  candidate is that one, with source \<open>og:image\<close> and priority 1, whatever other logo
  signals the page has.
\<close>

theorem extractLogo_og_image_first:
  assumes "attr_of (Q sel_og_image) ''content'' = Some c" and "c \<noteq> []"
    and "url_resolve U c baseUrl = Some u" and "u \<noteq> []"
    and "url_origin U baseUrl = Some origin"
  shows "extractLogo U Q baseUrl
           = Inr (Some \<lparr>url = Some u, source = ''og:image'', priority = 1\<rparr>)"
  using assms by (rule og_first)

theorem extractLogo_og_image_first_witness:
  "extractLogo simple_url (load page_many_signals) ''https://example.com/''
     = Inr (Some \<lparr>url = Some ''https://example.com/og.png'', source = ''og:image'', priority = 1\<rparr>)
   \<and> map source (logoCandidates simple_url (load page_many_signals) ''https://example.com/'')
     = [''og:image'', ''twitter:image'', ''apple-touch-icon'', ''img[logo]'', ''inline-svg'',
        ''favicon'']"
proof -
  have "''/og.png'' \<noteq> []" and "''https://example.com/og.png'' \<noteq> []" by simp_all
  with page_many_signals_eval(1-3)
  have "extractLogo simple_url (load page_many_signals) ''https://example.com/''
     = Inr (Some \<lparr>url = Some ''https://example.com/og.png'', source = ''og:image'', priority = 1\<rparr>)"
    by (intro extractLogo_og_image_first
        [where c = "''/og.png''" and origin = "''https://example.com''"])
  with page_many_signals_eval(4) show ?thesis by simp
qed

text \<open>
  The claim as stated fails on two pages, both with base URL \<open>https://example.com/\<close>: one
  whose \<open>og:image\<close> content is \<open>http://\<close>, which does not resolve, and one whose first
  \<open>og:image\<close> meta tag has empty content and whose second has a good one.  Each has an
  \<open>og:image\<close> meta tag with non-empty content, and on each the choice is the favicon
  fallback, of priority 7.
\<close>

theorem extractLogo_og_image_counterexample:
  "list_ex (\<lambda>el. truthy (attr el ''content'')) (load page_og_unresolvable sel_og_image)
   \<and> extractLogo simple_url (load page_og_unresolvable) ''https://example.com/''
       = Inr (Some \<lparr>url = Some ''https://example.com/favicon.ico'', source = ''favicon-fallback'',
                      priority = 7\<rparr>)
   \<and> list_ex (\<lambda>el. truthy (attr el ''content'')) (load page_og_second sel_og_image)
   \<and> extractLogo simple_url (load page_og_second) ''https://example.com/''
       = Inr (Some \<lparr>url = Some ''https://example.com/favicon.ico'', source = ''favicon-fallback'',
                      priority = 7\<rparr>)"
  using page_og_unresolvable_eval(1,3) page_og_second_eval by simp

text \<open>
  C5.  For a base URL the platform parses, with origin \<open>origin\<close>, the candidate list is
  the candidates of the page followed by the favicon fallback
  \<open>{url: origin + '/favicon.ico', source: 'favicon-fallback', priority: 7}\<close>; the list is
  sorted by ascending priority, and \<open>extractLogo\<close> returns the first candidate of the sorted
  list that has a URL.  So it never returns \<open>null\<close>: what it returns is a candidate with a
  URL whose priority is least among the candidates with a URL.  For a page with no logo
  signals it returns the favicon fallback.
\<close>

theorem extractLogo_favicon_fallback:
  assumes "url_origin U baseUrl = Some origin"
  shows "extractLogo U Q baseUrl
           = Inr (find (\<lambda>c. truthy (url c))
                   (sort_key priority (logoCandidates U Q baseUrl @ [favicon_fallback origin])))
         \<and> sorted (map priority
              (sort_key priority (logoCandidates U Q baseUrl @ [favicon_fallback origin])))
         \<and> mset (sort_key priority (logoCandidates U Q baseUrl @ [favicon_fallback origin]))
             = mset (logoCandidates U Q baseUrl) + {#favicon_fallback origin#}
         \<and> favicon_fallback origin
             = \<lparr>url = Some (origin @ ''/favicon.ico''), source = ''favicon-fallback'', priority = 7\<rparr>
         \<and> (\<exists>c. extractLogo U Q baseUrl = Inr (Some c) \<and> truthy (url c)
                \<and> c \<in> set (logoCandidates U Q baseUrl @ [favicon_fallback origin])
                \<and> (\<forall>d \<in> set (logoCandidates U Q baseUrl @ [favicon_fallback origin]).
                      truthy (url d) \<longrightarrow> priority c \<le> priority d))
         \<and> (no_logo_signals Q \<longrightarrow> extractLogo U Q baseUrl = Inr (Some (favicon_fallback origin)))"
proof -
  have "no_logo_signals Q \<longrightarrow> extractLogo U Q baseUrl = Inr (Some (favicon_fallback origin))"
    using assms
    by (auto simp: extractLogo_def no_signals_no_candidates favicon_fallback_def truthy_def)
  then show ?thesis
    using assms fallback_always [OF assms, of Q]
    by (simp add: extractLogo_def favicon_fallback_def)
qed

theorem extractLogo_favicon_fallback_witness:
  "url_origin simple_url ''https://example.com/'' = Some ''https://example.com''
   \<and> no_logo_signals (load page_plain)
   \<and> extractLogo simple_url (load page_plain) ''https://example.com/''
       = Inr (Some \<lparr>url = Some ''https://example.com/favicon.ico'', source = ''favicon-fallback'',
                      priority = 7\<rparr>)"
proof -
  have "no_logo_signals (load page_plain) \<longrightarrow>
      extractLogo simple_url (load page_plain) ''https://example.com/''
        = Inr (Some (favicon_fallback ''https://example.com''))"
    using extractLogo_favicon_fallback [OF page_many_signals_eval(3), of "load page_plain"]
    by blast
  with page_plain_eval page_many_signals_eval(3) show ?thesis
    by (simp add: favicon_fallback_def)
qed

text \<open>
  C6, as amended.  The claim has each \<open>family=\<close> value of a Google Fonts link split into
  families.  The code reads one value per link, the first (\<open>href.match\<close> without the
  \<open>g\<close> flag).  What holds: for every Google Fonts link of the document, the first
  \<open>family=\<close> value of its \<open>href\<close>, up to the next \<open>&\<close>, is split on \<open>|\<close>, each family loses
  its \<open>:\<close> suffix and has \<open>+\<close> replaced with a space; the names are trimmed as
  \<open>String.prototype.trim\<close> does, the empty ones dropped, and all of them are in the list of
  Google Fonts names, which has no duplicates.  A page whose one link has the \<open>href\<close>
  \<^verbatim>\<open>https://fonts.googleapis.com/css?family=Roboto:400,700|Open+Sans\<close> gets the fonts Roboto
  and Open Sans, both Sans-Serif.
\<close>

theorem extractGoogleFonts_first_family_value:
  "(\<forall>el g v. el \<in> set (Q sel_google_fonts)
        \<and> match1 re_family (or_empty (attr el ''href'')) = Some g \<and> cap 1 g = Some v \<and> v \<noteq> []
      \<longrightarrow> link_families el = filter (\<lambda>n. n \<noteq> []) (map trim (spec_families v))
          \<and> set (link_families el) \<subseteq> set (extractGoogleFonts Q))
   \<and> distinct (extractGoogleFonts Q)
   \<and> extractFonts U n sched (load page_google_link) baseUrl
       = Some [\<lparr>name = ''Roboto'', category = Sans_Serif, sample = ''Aa Bb Cc 123''\<rparr>,
               \<lparr>name = ''Open Sans'', category = Sans_Serif, sample = ''Aa Bb Cc 123''\<rparr>]"
  using link_families_first_value extractGoogleFonts_set [of Q] extractGoogleFonts_distinct [of Q]
    page_google_link_fonts [of U n sched baseUrl]
  by auto

theorem extractGoogleFonts_first_family_value_witness:
  "load page_google_link sel_google_fonts
     = [Element ''link''
         [(''href'', ''https://fonts.googleapis.com/css?family=Roboto:400,700|Open+Sans'')] []]
   \<and> link_families (Element ''link''
         [(''href'', ''https://fonts.googleapis.com/css?family=Roboto:400,700|Open+Sans'')] [])
       = [''Roboto'', ''Open Sans'']
   \<and> set [''Roboto'', ''Open Sans''] \<subseteq> set (extractGoogleFonts (load page_google_link))
   \<and> load page_google_nbsp sel_google_fonts = [Element ''link'' [(''href'', href_nbsp)] []]
   \<and> link_families (Element ''link'' [(''href'', href_nbsp)] [])
       = [''Roboto'', ''Lato'', ''Roboto'']"
proof -
  let ?nb = "Element ''link'' [(''href'', href_nbsp)] []"
  have nb: "link_families ?nb = [''Roboto'', ''Lato'', ''Roboto'']"
  proof -
    have el: "?nb \<in> set (load page_google_nbsp sel_google_fonts)"
      by (simp add: page_google_nbsp_eval(1))
    have m: "match1 re_family (or_empty (attr ?nb ''href''))
        = Some [(1, [CHR 0xA0] @ ''Roboto+||+Lato:400|Roboto'')]"
      by (simp add: or_empty_def page_google_nbsp_eval(2))
    have c: "cap 1 [(1::nat, [CHR 0xA0] @ ''Roboto+||+Lato:400|Roboto'')]
        = Some ([CHR 0xA0] @ ''Roboto+||+Lato:400|Roboto'')"
      by (simp add: cap_def)
    have v: "[CHR 0xA0] @ ''Roboto+||+Lato:400|Roboto'' \<noteq> []" by simp
    have "link_families ?nb
        = filter (\<lambda>n. n \<noteq> []) (map trim (spec_families ([CHR 0xA0] @ ''Roboto+||+Lato:400|Roboto'')))"
      using extractGoogleFonts_first_family_value [of "load page_google_nbsp"] el m c v
      by blast
    then show ?thesis by (simp only: page_google_nbsp_eval(3,4))
  qed
  let ?el = "Element ''link''
         [(''href'', ''https://fonts.googleapis.com/css?family=Roboto:400,700|Open+Sans'')] []"
  have el: "?el \<in> set (load page_google_link sel_google_fonts)"
    by (simp add: page_google_link_eval(1))
  have m: "match1 re_family (or_empty (attr ?el ''href'')) = Some [(1, ''Roboto:400,700|Open+Sans'')]"
    by (simp add: or_empty_def page_google_link_eval(2))
  have c: "cap 1 [(1::nat, ''Roboto:400,700|Open+Sans'')] = Some ''Roboto:400,700|Open+Sans''"
    by (simp add: cap_def)
  have 1: "link_families ?el
      = filter (\<lambda>n. n \<noteq> []) (map trim (spec_families ''Roboto:400,700|Open+Sans''))
    \<and> set (link_families ?el) \<subseteq> set (extractGoogleFonts (load page_google_link))"
    using extractGoogleFonts_first_family_value [of "load page_google_link"] el m c
    by blast
  have 2: "filter (\<lambda>n. n \<noteq> []) (map trim [''Roboto'', ''Open Sans'']) = [''Roboto'', ''Open Sans'']"
    by code_simp
  from 1 have 3: "link_families ?el = [''Roboto'', ''Open Sans'']"
    by (simp only: page_google_link_eval(3) 2)
  from 1 have "set (link_families ?el) \<subseteq> set (extractGoogleFonts (load page_google_link))"
    by (rule conjunct2)
  then have "set [''Roboto'', ''Open Sans''] \<subseteq> set (extractGoogleFonts (load page_google_link))"
    unfolding 3 .
  with 3 page_google_link_eval(1) nb page_google_nbsp_eval(1) show ?thesis by blast
qed

text \<open>
  The claim as stated fails on a link in the form Google Fonts gives today, with one
  \<open>family=\<close> parameter per family: \<^verbatim>\<open>https://fonts.googleapis.com/css2?family=Roboto&family=Lora\<close>
  has the two \<open>family=\<close> values Roboto and Lora, and only Roboto is found.  And on a
  link whose \<open>family=\<close> value has a space or a plus sign at an end of a family, an empty
  family and a family twice, the names found are not the families with the suffix
  stripped and the plus signs replaced, but these trimmed, without the empty one, and
  each once.
\<close>

theorem extractGoogleFonts_counterexample:
  "load page_google_css2 sel_google_fonts
     = [Element ''link''
         [(''href'', ''https://fonts.googleapis.com/css2?family=Roboto&family=Lora'')] []]
   \<and> exec_all re_family None ''https://fonts.googleapis.com/css2?family=Roboto&family=Lora''
       = Some [(''family=Roboto'', [(1, ''Roboto'')]), (''family=Lora'', [(1, ''Lora'')])]
   \<and> extractGoogleFonts (load page_google_css2) = [''Roboto'']
   \<and> ''Lora'' \<notin> set (extractGoogleFonts (load page_google_css2))
   \<and> extractFonts simple_url (\<lambda>u. Response []) [] (load page_google_css2) ''https://example.com/''
       = Some [\<lparr>name = ''Roboto'', category = Sans_Serif, sample = ''Aa Bb Cc 123''\<rparr>]
   \<and> load page_google_nbsp sel_google_fonts = [Element ''link'' [(''href'', href_nbsp)] []]
   \<and> match1 re_family href_nbsp = Some [(1, [CHR 0xA0] @ ''Roboto+||+Lato:400|Roboto'')]
   \<and> spec_families ([CHR 0xA0] @ ''Roboto+||+Lato:400|Roboto'')
       = [[CHR 0xA0] @ ''Roboto '', [], '' Lato'', ''Roboto'']
   \<and> extractGoogleFonts (load page_google_nbsp) = [''Roboto'', ''Lato'']"
  using page_google_nbsp_eval
  by (simp add: page_google_css2_eval page_google_css2_fonts)

text \<open>
  C7, as amended.  The claim gives the acceptable length of a hero text as 4 to 200
  characters; the code asks for more than 4 and fewer than 200.  Of the elements a
  selector matches the code reads the first alone.  And a document that contains the
  hero block \<^verbatim>\<open><div class="hero"><h1>Build Better</h1></div>\<close> has the tagline
  \<open>Build Better\<close> only when no earlier selector of the list gives an acceptable text.
  What holds, for every document: the tagline is the trimmed text of the first match of
  the first hero selector, in the order of the list, for which that text has more than 4
  and fewer than 200 characters; when no selector gives such a text, it is
  \<open>og:description\<close> if non-empty and under 120 characters, else \<open>twitter:description\<close> if
  non-empty and under 120 characters, else the trimmed text of the first \<open>h1\<close> if
  non-empty and under 150 characters, else the part of the page description before its
  first period.  In particular, for every document with no short \<open>og:description\<close> in
  which the first matches of \<^verbatim>\<open>[class*="tagline"]\<close> and of \<^verbatim>\<open>[class*="slogan"]\<close> have no
  acceptable text and the first match of \<^verbatim>\<open>[class*="hero"] h1\<close> has the trimmed text
  \<open>Build Better\<close>, the tagline is \<open>Build Better\<close>.
\<close>

theorem extractTagline_fallback_chain:
  "(\<forall>i. i < length heroSelectors \<and> hero_ok (hero_text Q (heroSelectors ! i))
         \<and> (\<forall>j<i. \<not> hero_ok (hero_text Q (heroSelectors ! j)))
       \<longrightarrow> extractTagline Q d = hero_text Q (heroSelectors ! i))
   \<and> ((\<forall>sel\<in>set heroSelectors. \<not> hero_ok (hero_text Q sel))
       \<longrightarrow> extractTagline Q d =
           (let og = or_empty (attr_of (Q sel_og_description) ''content'');
                twitter = or_empty (attr_of (Q sel_twitter_description) ''content'');
                h1 = trim (first_text (Q sel_h1))
            in if og \<noteq> [] \<and> length og < 120 then og
               else if twitter \<noteq> [] \<and> length twitter < 120 then twitter
               else if h1 \<noteq> [] \<and> length h1 < 150 then h1
               else takeWhile (\<lambda>c. c \<noteq> CHR ''.'') d))
   \<and> (hero_ok t \<longleftrightarrow> 4 < length t \<and> length t < 200)
   \<and> hero_text Q sel = trim (first_text (Q sel))
   \<and> (\<not> hero_ok (hero_text Q sel_tagline) \<and> \<not> hero_ok (hero_text Q sel_slogan)
        \<and> hero_text Q sel_hero_h1 = ''Build Better''
        \<and> \<not> (or_empty (attr_of (Q sel_og_description) ''content'') \<noteq> []
              \<and> length (or_empty (attr_of (Q sel_og_description) ''content'')) < 120)
       \<longrightarrow> extractTagline Q d = ''Build Better'')"
proof -
  have "\<not> hero_ok (hero_text Q sel_tagline) \<and> \<not> hero_ok (hero_text Q sel_slogan)
        \<and> hero_text Q sel_hero_h1 = ''Build Better''
       \<longrightarrow> extractTagline Q d = ''Build Better''"
    using tagline_third [of Q d] build_better_ok by auto
  with tagline_hero [of _ Q d] tagline_fallback [of Q d] hero_ok_iff [of t]
  show ?thesis
    by (simp add: hero_text_def)
qed

theorem extractTagline_fallback_chain_witness:
  "hero_text (load page_hero) sel_tagline = [] \<and> hero_text (load page_hero) sel_slogan = []
   \<and> hero_text (load page_hero) sel_hero_h1 = ''Build Better''
   \<and> or_empty (attr_of (load page_hero sel_og_description) ''content'') = []
   \<and> extractTagline (load page_hero) ''We build. We ship.'' = ''Build Better''
   \<and> hero_text (load page_hero_nbsp) (heroSelectors ! 2) = ''Build Better''
   \<and> extractTagline (load page_hero_nbsp) ''We build. We ship.''
       = hero_text (load page_hero_nbsp) (heroSelectors ! 2)
   \<and> extractTagline (load page_short_tagline) ''We build. We ship.'' = ''Short and sweet''"
proof -
  have len: "(2::nat) < length heroSelectors" by (simp add: heroSelectors_def)
  have ok: "hero_ok (hero_text (load page_hero_nbsp) (heroSelectors ! 2))"
    by (simp add: hero_selectors_head page_hero_nbsp_eval hero_ok_def)
  have before: "\<forall>j<2. \<not> hero_ok (hero_text (load page_hero_nbsp) (heroSelectors ! j))"
  proof (intro allI impI)
    fix j :: nat
    assume "j < 2"
    then have "j = 0 \<or> j = 1" by auto
    then show "\<not> hero_ok (hero_text (load page_hero_nbsp) (heroSelectors ! j))"
      using page_hero_nbsp_eval(1,2) by (auto simp: hero_selectors_head hero_ok_def)
  qed
  have 1: "extractTagline (load page_hero_nbsp) ''We build. We ship.''
      = hero_text (load page_hero_nbsp) (heroSelectors ! 2)"
    using extractTagline_fallback_chain [of "load page_hero_nbsp" "''We build. We ship.''"]
      len ok before
    by blast
  have 2: "extractTagline (load page_short_tagline) ''We build. We ship.'' =
           (let og = or_empty (attr_of (load page_short_tagline sel_og_description) ''content'');
                twitter = or_empty (attr_of (load page_short_tagline sel_twitter_description) ''content'');
                h1 = trim (first_text (load page_short_tagline sel_h1))
            in if og \<noteq> [] \<and> length og < 120 then og
               else if twitter \<noteq> [] \<and> length twitter < 120 then twitter
               else if h1 \<noteq> [] \<and> length h1 < 150 then h1
               else takeWhile (\<lambda>c. c \<noteq> CHR ''.'') ''We build. We ship.'')"
    using extractTagline_fallback_chain [of "load page_short_tagline" "''We build. We ship.''"]
      page_short_tagline_no_hero
    by blast
  have h: "\<not> hero_ok (hero_text (load page_hero) sel_tagline)"
    "\<not> hero_ok (hero_text (load page_hero) sel_slogan)"
    "\<not> (or_empty (attr_of (load page_hero sel_og_description) ''content'') \<noteq> []
        \<and> length (or_empty (attr_of (load page_hero sel_og_description) ''content'')) < 120)"
    by (simp_all add: page_hero_names hero_ok_def)
  have 3: "extractTagline (load page_hero) ''We build. We ship.'' = ''Build Better''"
    using extractTagline_fallback_chain [of "load page_hero" "''We build. We ship.''"]
      h page_hero_names(3)
    by blast
  from 1 2 3 show ?thesis
    by (simp add: page_hero_names page_hero_nbsp_eval hero_selectors_head page_short_tagline_og)
qed

text \<open>
  The claim as stated fails three times.  On a page whose first hero selector gives a
  text of exactly 4 characters, \<open>Home\<close>, and whose \<open>og:description\<close> is short, the
  tagline is the \<open>og:description\<close>, not \<open>Home\<close>.  On a page with two paragraphs of class
  \<open>tagline\<close>, the first too short and the second, \<open>Welcome home\<close>, of acceptable length,
  and a short \<open>og:description\<close>, the tagline is the \<open>og:description\<close>: of the elements
  a selector matches, the code reads the first alone.  And on a page that contains the
  hero block \<^verbatim>\<open><div class="hero"><h1>Build Better</h1></div>\<close>, has no \<open>og:description\<close>,
  and has the paragraph \<^verbatim>\<open><p class="tagline">Welcome home</p>\<close> after the hero block, the
  tagline is \<open>Welcome home\<close>, not \<open>Build Better\<close>.
\<close>

theorem extractTagline_counterexample:
  "hero_text (load page_short_tagline) (heroSelectors ! 0) = ''Home''
   \<and> length ''Home'' = 4
   \<and> extractTagline (load page_short_tagline) [] = ''Short and sweet''
   \<and> load page_two_taglines sel_tagline
       = [Element ''p'' [(''class'', ''tagline'')] [Text ''Hi''],
          Element ''p'' [(''class'', ''tagline'')] [Text ''Welcome home'']]
   \<and> hero_ok (trim (text_of (Element ''p'' [(''class'', ''tagline'')] [Text ''Welcome home''])))
   \<and> extractTagline (load page_two_taglines) [] = ''Short and sweet''
   \<and> load page_hero_and_tagline sel_hero_h1 = [Element ''h1'' [] [Text ''Build Better'']]
   \<and> attr_of (load page_hero_and_tagline sel_og_description) ''content'' = None
   \<and> extractTagline (load page_hero_and_tagline) [] = ''Welcome home''"
  using page_two_taglines_eval
  by (simp add: page_short_tagline_eval page_hero_and_tagline_eval page_hero_and_tagline_match)

text \<open>
  C8, as amended.  The claim has the fonts and colors of the other style sheets and of
  the inline style blocks appear in the result; the result keeps only the first six font
  names and the eight heaviest colors, so they can be cut.  What holds: \<open>fetchCSS\<close> returns
  the body of the response when the request resolves and the empty string when it
  rejects, and has no other outcome.  A style sheet whose fetch fails counts as an empty
  one: \<open>extractFonts\<close>, \<open>extractColors\<close> and the whole analysis give what they give when
  that sheet is fetched and empty.  Both extractors always return.  The font names
  returned are the first six of a duplicate-free list that holds every font name of
  every inline style block and of every style sheet among those fetched whose fetch
  succeeded: each name of that list is returned unless six others are.  The colors
  returned are the first eight, by descending weight, of a map in which every color of
  an inline style block, or of such a style sheet, weighs at least what it weighs there:
  each color of the map is returned with its weight unless eight colors that weigh at
  least as much are.  And when the page itself was fetched, the analysis answers,
  whatever the style sheet fetches did, with a result whose fonts are the ones
  \<open>extractFonts\<close> returned (the System Default entry when it returned none) and whose
  colors are the ones \<open>extractColors\<close> returned.
\<close>

theorem fetchCSS_failure_is_not_fatal:
  "(n u = Response d \<longrightarrow> fetchCSS n u = d)
   \<and> (n u = Rejected e \<longrightarrow> fetchCSS n u = [])
   \<and> (n u = Rejected e \<longrightarrow>
         extractFonts U (n(u := Response [])) sched Q b = extractFonts U n sched Q b
         \<and> extractColors U f (n(u := Response [])) sched Q b = extractColors U f n sched Q b)
   \<and> (fonts_net W u = Rejected e \<longrightarrow>
         analyze U f (W\<lparr>fonts_net := (fonts_net W)(u := Response [])\<rparr>) c rawUrl
           = analyze U f W c rawUrl)
   \<and> (colors_net W u = Rejected e \<longrightarrow>
         analyze U f (W\<lparr>colors_net := (colors_net W)(u := Response [])\<rparr>) c rawUrl
           = analyze U f W c rawUrl)
   \<and> (\<exists>fs fonts. collectFonts U n sched Q b = Some fs
          \<and> extractFonts U n sched Q b = Some fonts
          \<and> distinct fs \<and> map name fonts = take 6 fs
          \<and> (\<forall>el\<in>set (Q sel_style). \<forall>ns. extractFontsFromCSS (text_of el) = Some ns
                \<longrightarrow> set ns \<subseteq> set fs)
          \<and> (\<forall>u'\<in>set (cssToFetch U Q b). \<forall>d' ns.
                n u' = Response d' \<and> extractFontsFromCSS d' = Some ns \<longrightarrow> set ns \<subseteq> set fs)
          \<and> (\<forall>x\<in>set fs. x \<in> set (map name fonts) \<or> length fonts = 6))
   \<and> (\<exists>cm cols. collectColors U f n sched Q b = Some cm
          \<and> extractColors U f n sched Q b = Some cols
          \<and> distinct (map fst cm)
          \<and> map entry cols = take 8 (sort_key (\<lambda>e. - int (snd e)) cm)
          \<and> (\<forall>el\<in>set (Q sel_style). \<forall>m h. extractColorsFromCSS f (text_of el) = Some m
                \<longrightarrow> weight m h \<le> weight cm h)
          \<and> (\<forall>u'\<in>set (cssToFetch U Q b). \<forall>d' m h.
                n u' = Response d' \<and> extractColorsFromCSS f d' = Some m
                \<longrightarrow> weight m h \<le> weight cm h)
          \<and> (\<forall>h. 0 < weight cm h \<longrightarrow>
                (\<exists>c\<in>set cols. hex c = h \<and> frequency c = weight cm h)
                \<or> (length cols = 8 \<and> (\<forall>c\<in>set cols. weight cm h \<le> frequency c))))
   \<and> (rawUrl \<noteq> [] \<and> normalizeUrl U rawUrl = Inr t \<and> c t = None
        \<and> page_net W t = Response html \<and> url_hostname U t = Some hn
        \<and> url_origin U t = Some og
       \<longrightarrow> (\<exists>r fonts cols.
              analyze U f W c rawUrl = Some (Result_json r False, c(t \<mapsto> r))
              \<and> extractFonts U (fonts_net W) (fonts_sched W) (parse_html W html) t = Some fonts
              \<and> extractColors U f (colors_net W) (colors_sched W) (parse_html W html) t = Some cols
              \<and> res_fonts r = (if fonts = [] then [system_default_font] else fonts)
              \<and> res_colors r = cols
              \<and> res_url r = t))"
proof -
  have 1: "(n u = Response d \<longrightarrow> fetchCSS n u = d) \<and> (n u = Rejected e \<longrightarrow> fetchCSS n u = [])"
    by (simp add: fetchCSS_def)
  have 2: "n u = Rejected e \<longrightarrow>
         extractFonts U (n(u := Response [])) sched Q b = extractFonts U n sched Q b
         \<and> extractColors U f (n(u := Response [])) sched Q b = extractColors U f n sched Q b"
    using extract_failed_fetch [of n u e] by blast
  have 3: "(fonts_net W u = Rejected e \<longrightarrow>
         analyze U f (W\<lparr>fonts_net := (fonts_net W)(u := Response [])\<rparr>) c rawUrl
           = analyze U f W c rawUrl)
      \<and> (colors_net W u = Rejected e \<longrightarrow>
         analyze U f (W\<lparr>colors_net := (colors_net W)(u := Response [])\<rparr>) c rawUrl
           = analyze U f W c rawUrl)"
    using analyze_failed_fetch [of W u e] by blast
  obtain fs where fs: "collectFonts U n sched Q b = Some fs"
    using collectFonts_total by blast
  from extractFonts_names [OF fs] obtain fonts where
    fonts: "extractFonts U n sched Q b = Some fonts" and names: "map name fonts = take 6 fs"
    by blast
  have 4: "\<exists>fs fonts. collectFonts U n sched Q b = Some fs
          \<and> extractFonts U n sched Q b = Some fonts
          \<and> distinct fs \<and> map name fonts = take 6 fs
          \<and> (\<forall>el\<in>set (Q sel_style). \<forall>ns. extractFontsFromCSS (text_of el) = Some ns
                \<longrightarrow> set ns \<subseteq> set fs)
          \<and> (\<forall>u'\<in>set (cssToFetch U Q b). \<forall>d' ns.
                n u' = Response d' \<and> extractFontsFromCSS d' = Some ns \<longrightarrow> set ns \<subseteq> set fs)
          \<and> (\<forall>x\<in>set fs. x \<in> set (map name fonts) \<or> length fonts = 6)"
  proof (intro exI [of _ fs] exI [of _ fonts] conjI ballI allI impI)
    show "collectFonts U n sched Q b = Some fs" by (rule fs)
    show "extractFonts U n sched Q b = Some fonts" by (rule fonts)
    show "distinct fs" using fs by (rule collectFonts_distinct)
    show "map name fonts = take 6 fs" by (rule names)
  next
    fix el ns
    assume "el \<in> set (Q sel_style)" "extractFontsFromCSS (text_of el) = Some ns"
    then show "set ns \<subseteq> set fs" by (rule collectFonts_contains(2) [OF fs])
  next
    fix u' d' ns
    assume u': "u' \<in> set (cssToFetch U Q b)"
      and "n u' = Response d' \<and> extractFontsFromCSS d' = Some ns"
    then have "extractFontsFromCSS (fetchCSS n u') = Some ns" by (simp add: fetchCSS_def)
    with u' show "set ns \<subseteq> set fs" by (rule collectFonts_contains(3) [OF fs])
  next
    fix x
    assume "x \<in> set fs"
    then have "x \<in> set (take 6 fs) \<or> length (take 6 fs) = 6" by (rule take_all_or_full)
    then show "x \<in> set (map name fonts) \<or> length fonts = 6"
      unfolding names [symmetric] by simp
  qed
  obtain cm where cm: "collectColors U f n sched Q b = Some cm"
    using collectColors_total by blast
  have dcm: "distinct (map fst cm)" using cm by (rule collectColors_distinct)
  have 5: "\<exists>cm cols. collectColors U f n sched Q b = Some cm
          \<and> extractColors U f n sched Q b = Some cols
          \<and> distinct (map fst cm)
          \<and> map entry cols = take 8 (sort_key (\<lambda>e. - int (snd e)) cm)
          \<and> (\<forall>el\<in>set (Q sel_style). \<forall>m h. extractColorsFromCSS f (text_of el) = Some m
                \<longrightarrow> weight m h \<le> weight cm h)
          \<and> (\<forall>u'\<in>set (cssToFetch U Q b). \<forall>d' m h.
                n u' = Response d' \<and> extractColorsFromCSS f d' = Some m
                \<longrightarrow> weight m h \<le> weight cm h)
          \<and> (\<forall>h. 0 < weight cm h \<longrightarrow>
                (\<exists>c\<in>set cols. hex c = h \<and> frequency c = weight cm h)
                \<or> (length cols = 8 \<and> (\<forall>c\<in>set cols. weight cm h \<le> frequency c)))"
  proof (intro exI [of _ cm] exI [of _ "rankColors cm"] conjI ballI allI impI)
    show "collectColors U f n sched Q b = Some cm" by (rule cm)
    show "extractColors U f n sched Q b = Some (rankColors cm)"
      by (simp add: extractColors_def cm)
    show "distinct (map fst cm)" by (rule dcm)
    show "map entry (rankColors cm) = take 8 (sort_key (\<lambda>e. - int (snd e)) cm)"
      by (rule rankColors_entries)
  next
    fix el m h
    assume "el \<in> set (Q sel_style)" "extractColorsFromCSS f (text_of el) = Some m"
    then show "weight m h \<le> weight cm h" by (rule collectColors_contains(1) [OF cm])
  next
    fix u' d' m h
    assume u': "u' \<in> set (cssToFetch U Q b)"
      and "n u' = Response d' \<and> extractColorsFromCSS f d' = Some m"
    then have "extractColorsFromCSS f (fetchCSS n u') = Some m" by (simp add: fetchCSS_def)
    with u' show "weight m h \<le> weight cm h" by (rule collectColors_contains(2) [OF cm])
  next
    fix h
    assume "0 < weight cm h"
    with dcm show "(\<exists>c\<in>set (rankColors cm). hex c = h \<and> frequency c = weight cm h)
        \<or> (length (rankColors cm) = 8 \<and> (\<forall>c\<in>set (rankColors cm). weight cm h \<le> frequency c))"
      by (rule rankColors_all_or_top)
  qed
  have 6: "rawUrl \<noteq> [] \<and> normalizeUrl U rawUrl = Inr t \<and> c t = None
        \<and> page_net W t = Response html \<and> url_hostname U t = Some hn
        \<and> url_origin U t = Some og
       \<longrightarrow> (\<exists>r fonts cols.
              analyze U f W c rawUrl = Some (Result_json r False, c(t \<mapsto> r))
              \<and> extractFonts U (fonts_net W) (fonts_sched W) (parse_html W html) t = Some fonts
              \<and> extractColors U f (colors_net W) (colors_sched W) (parse_html W html) t = Some cols
              \<and> res_fonts r = (if fonts = [] then [system_default_font] else fonts)
              \<and> res_colors r = cols
              \<and> res_url r = t)"
    using analyze_result [of rawUrl U t c W html hn og f] by blast
  from 1 2 3 4 5 6 show ?thesis by blast
qed

theorem fetchCSS_failure_is_not_fatal_witness:
  "net_b_only ''https://example.com/a.css'' = Rejected not_found
   \<and> cssToFetch simple_url (load page_two_sheets) ''https://example.com/''
       = [''https://example.com/a.css'', ''https://example.com/b.css'']
   \<and> extractFonts simple_url (net_b_only(''https://example.com/a.css'' := Response [])) []
         (load page_two_sheets) ''https://example.com/''
       = Some [\<lparr>name = ''Inter'', category = Sans_Serif, sample = ''Aa Bb Cc 123''\<rparr>,
               \<lparr>name = ''Lora'', category = Serif, sample = ''Aa Bb Cc 123''\<rparr>]
   \<and> extractFonts simple_url net_b_only [] (load page_two_sheets) ''https://example.com/''
       = Some [\<lparr>name = ''Inter'', category = Sans_Serif, sample = ''Aa Bb Cc 123''\<rparr>,
               \<lparr>name = ''Lora'', category = Serif, sample = ''Aa Bb Cc 123''\<rparr>]
   \<and> (\<forall>f. map_option (map (\<lambda>c. (hex c, frequency c, label c)))
         (extractColors simple_url f net_b_only [] (load page_two_sheets) ''https://example.com/'')
       = Some [(''#FF0000'', 3, Primary), (''#00FF00'', 1, Secondary)])
   \<and> (\<forall>f. \<exists>r. analyze simple_url f (world_of page_two_sheets) Map.empty ''example.com''
                = Some (Result_json r False, [''https://example.com/'' \<mapsto> r])
            \<and> res_fonts r = [\<lparr>name = ''Inter'', category = Sans_Serif, sample = ''Aa Bb Cc 123''\<rparr>,
                              \<lparr>name = ''Lora'', category = Serif, sample = ''Aa Bb Cc 123''\<rparr>]
            \<and> map (\<lambda>c. (hex c, frequency c, label c)) (res_colors r)
                = [(''#FF0000'', 3, Primary), (''#00FF00'', 1, Secondary)])"
proof -
  have "net_b_only ''https://example.com/a.css'' = Rejected not_found \<longrightarrow>
      extractFonts simple_url (net_b_only(''https://example.com/a.css'' := Response [])) []
         (load page_two_sheets) ''https://example.com/''
       = extractFonts simple_url net_b_only [] (load page_two_sheets) ''https://example.com/''"
    using fetchCSS_failure_is_not_fatal
      [of net_b_only "''https://example.com/a.css''" _ not_found simple_url "[]"
        "load page_two_sheets" "''https://example.com/''"]
    by blast
  moreover have "\<exists>r. analyze simple_url f (world_of page_two_sheets) Map.empty ''example.com''
                = Some (Result_json r False, [''https://example.com/'' \<mapsto> r])
            \<and> res_fonts r = [\<lparr>name = ''Inter'', category = Sans_Serif, sample = ''Aa Bb Cc 123''\<rparr>,
                              \<lparr>name = ''Lora'', category = Serif, sample = ''Aa Bb Cc 123''\<rparr>]
            \<and> map (\<lambda>c. (hex c, frequency c, label c)) (res_colors r)
                = [(''#FF0000'', 3, Primary), (''#00FF00'', 1, Secondary)]" for f
  proof -
    have raw: "''example.com'' \<noteq> []" and c: "Map.empty ''https://example.com/'' = None"
      by simp_all
    let ?W = "world_of page_two_sheets"
    have "\<exists>r fonts cols.
        analyze simple_url f ?W Map.empty ''example.com''
          = Some (Result_json r False, [''https://example.com/'' \<mapsto> r])
        \<and> extractFonts simple_url (fonts_net ?W) (fonts_sched ?W)
            (parse_html ?W ''<html></html>'') ''https://example.com/'' = Some fonts
        \<and> extractColors simple_url f (colors_net ?W) (colors_sched ?W)
            (parse_html ?W ''<html></html>'') ''https://example.com/'' = Some cols
        \<and> res_fonts r = (if fonts = [] then [system_default_font] else fonts)
        \<and> res_colors r = cols
        \<and> res_url r = ''https://example.com/''"
      using fetchCSS_failure_is_not_fatal
        [of _ _ _ _ simple_url _ _ _ f ?W Map.empty "''example.com''" "''https://example.com/''"
          "''<html></html>''" "''example.com''" "''https://example.com''"]
        raw c world_of_eval(1,3,4) world_of_eval(2) [of page_two_sheets]
      by blast
    then obtain r fonts cols where
      a: "analyze simple_url f ?W Map.empty ''example.com''
          = Some (Result_json r False, [''https://example.com/'' \<mapsto> r])"
      and fn: "extractFonts simple_url net_b_only [] (load page_two_sheets) ''https://example.com/''
          = Some fonts"
      and cl: "extractColors simple_url f net_b_only [] (load page_two_sheets) ''https://example.com/''
          = Some cols"
      and rf: "res_fonts r = (if fonts = [] then [system_default_font] else fonts)"
      and rc: "res_colors r = cols"
      by (auto simp: world_of_eval)
    from fn page_two_sheets_eval(3)
    have "fonts = [\<lparr>name = ''Inter'', category = Sans_Serif, sample = ''Aa Bb Cc 123''\<rparr>,
                   \<lparr>name = ''Lora'', category = Serif, sample = ''Aa Bb Cc 123''\<rparr>]"
      by simp
    with rf
    have f1: "res_fonts r = [\<lparr>name = ''Inter'', category = Sans_Serif, sample = ''Aa Bb Cc 123''\<rparr>,
                         \<lparr>name = ''Lora'', category = Serif, sample = ''Aa Bb Cc 123''\<rparr>]"
      by simp
    from cl page_two_sheets_colors [of f] rc
    have f2: "map (\<lambda>c. (hex c, frequency c, label c)) (res_colors r)
                = [(''#FF0000'', 3, Primary), (''#00FF00'', 1, Secondary)]"
      by simp
    show ?thesis by (intro exI [of _ r] conjI) (rule a f1 f2)+
  qed
  ultimately show ?thesis
    using page_two_sheets_eval page_two_sheets_colors by simp
qed

text \<open>
  The claim as stated fails on a page whose inline style block names six font families
  and eight colors, each color as a custom property, and whose two style sheets are
  \<open>/a.css\<close>, whose fetch fails, and \<open>/b.css\<close>, which answers with a rule that has the
  family Lora and the color \<open>#00FF00\<close>.  Lora and \<open>#00FF00\<close> are derived from the other
  style sheet and are in the accumulated list and map, at the seventh and the ninth
  place, but neither is in the result.
\<close>

theorem fetchCSS_failure_counterexample:
  "cssToFetch simple_url (load page_six_inline) ''https://example.com/''
     = [''https://example.com/a.css'', ''https://example.com/b.css'']
   \<and> net_b_only ''https://example.com/a.css'' = Rejected not_found
   \<and> net_b_only ''https://example.com/b.css'' = Response ''h1{font-family: Lora; color: #00FF00}''
   \<and> extractFontsFromCSS ''h1{font-family: Lora; color: #00FF00}'' = Some [''Lora'']
   \<and> (\<forall>f. extractColorsFromCSS f ''h1{font-family: Lora; color: #00FF00}''
          = Some [(''#00FF00'', 1)])
   \<and> collectFonts simple_url net_b_only [] (load page_six_inline) ''https://example.com/''
       = Some [''Inter'', ''Roboto'', ''Poppins'', ''Nunito'', ''Lato'', ''Oswald'', ''Lora'']
   \<and> map_option (map name)
         (extractFonts simple_url net_b_only [] (load page_six_inline) ''https://example.com/'')
       = Some [''Inter'', ''Roboto'', ''Poppins'', ''Nunito'', ''Lato'', ''Oswald'']
   \<and> (\<forall>f. map_option (map entry)
         (extractColors simple_url f net_b_only [] (load page_six_inline) ''https://example.com/'')
       = Some [(''#AA0000'', 3), (''#00AA00'', 3), (''#0000AA'', 3), (''#AAAA00'', 3),
               (''#AA00AA'', 3), (''#00AAAA'', 3), (''#AA5500'', 3), (''#5500AA'', 3)])
   \<and> (\<forall>f. fonts_of (analyze simple_url f (world_of page_six_inline) Map.empty ''example.com'')
          = [''Inter'', ''Roboto'', ''Poppins'', ''Nunito'', ''Lato'', ''Oswald''])
   \<and> (\<forall>f. colors_of (analyze simple_url f (world_of page_six_inline) Map.empty ''example.com'')
          = [(''#AA0000'', 3), (''#00AA00'', 3), (''#0000AA'', 3), (''#AAAA00'', 3),
             (''#AA00AA'', 3), (''#00AAAA'', 3), (''#AA5500'', 3), (''#5500AA'', 3)])
   \<and> ''Lora'' \<notin> set [''Inter'', ''Roboto'', ''Poppins'', ''Nunito'', ''Lato'', ''Oswald'']
   \<and> ''#00FF00'' \<notin> fst ` set [(''#AA0000'', 3::nat), (''#00AA00'', 3), (''#0000AA'', 3),
          (''#AAAA00'', 3), (''#AA00AA'', 3), (''#00AAAA'', 3), (''#AA5500'', 3), (''#5500AA'', 3)]"
  using page_six_inline_eval page_six_inline_fonts page_six_inline_map page_six_inline_colors
    page_six_inline_route page_two_sheets_eval(2)
  by simp

text \<open>
  C9, as amended.  The claim has the generic failure reached only for errors that are
  not DNS or connection failures and not timeouts; the \<open>catch\<close> block knows such errors
  by two codes and by one code or a word of the message, and answers every other one
  with the generic response.  What holds: when the page fetch rejects with an error
  whose response status is 403 or 401, the route answers with the 403 response that the
  specification calls \<open>AccessBlocked\<close>, not with the generic 500 response, and leaves the
  cache as it was.  In general a rejected page fetch is answered by the \<open>catch\<close> block,
  and the \<open>catch\<close> block gives the generic response exactly for the errors whose status
  is neither 401 nor 403, whose code is none of \<open>ECONNREFUSED\<close>, \<open>ENOTFOUND\<close> and
  \<open>ETIMEDOUT\<close>, and whose message does not contain \<open>timeout\<close>.
\<close>

theorem analyze_access_blocked:
  "(rawUrl \<noteq> [] \<and> normalizeUrl U rawUrl = Inr t \<and> c t = None
      \<and> page_net W t = Rejected err
      \<and> (err_status err = Some 403 \<or> err_status err = Some 401)
     \<longrightarrow> analyze U f W c rawUrl = Some (Error_json 403 msg_blocked, c)
         \<and> error_kind (Error_json 403 msg_blocked) = Some AccessBlocked
         \<and> error_kind (Error_json 403 msg_blocked) \<noteq> Some FetchFailed)
   \<and> (rawUrl \<noteq> [] \<and> normalizeUrl U rawUrl = Inr t \<and> c t = None
      \<and> page_net W t = Rejected err
     \<longrightarrow> analyze U f W c rawUrl = Some (handler err, c))
   \<and> (error_kind (handler err) = Some FetchFailed
     \<longleftrightarrow> err_status err \<noteq> Some 403 \<and> err_status err \<noteq> Some 401
         \<and> err_code err \<noteq> Some ''ECONNREFUSED'' \<and> err_code err \<noteq> Some ''ENOTFOUND''
         \<and> err_code err \<noteq> Some ''ETIMEDOUT''
         \<and> \<not> (\<exists>msg. err_message err = Some msg \<and> js_includes msg ''timeout''))
   \<and> (error_kind (handler err) = Some FetchFailed
     \<longrightarrow> handler err = Error_json 500 (''Failed to analyze site. '' @ or_empty (err_message err)))"
proof (intro conjI impI)
  assume a: "rawUrl \<noteq> [] \<and> normalizeUrl U rawUrl = Inr t \<and> c t = None
      \<and> page_net W t = Rejected err
      \<and> (err_status err = Some 403 \<or> err_status err = Some 401)"
  then have "rawUrl \<noteq> []" "normalizeUrl U rawUrl = Inr t" "c t = None"
    "page_net W t = Rejected err"
    by blast+
  then have "analyze U f W c rawUrl = Some (handler err, c)"
    by (rule analyze_page_rejected)
  moreover from a have "err_status err = Some 403 \<or> err_status err = Some 401" by blast
  then have "handler err = Error_json 403 msg_blocked"
    by (rule handler_blocked)
  ultimately show "analyze U f W c rawUrl = Some (Error_json 403 msg_blocked, c)" by simp
next
  show "error_kind (Error_json 403 msg_blocked) = Some AccessBlocked"
    by (simp add: error_kind_def)
  show "error_kind (Error_json 403 msg_blocked) \<noteq> Some FetchFailed"
    by (simp add: error_kind_def)
next
  assume "rawUrl \<noteq> [] \<and> normalizeUrl U rawUrl = Inr t \<and> c t = None
      \<and> page_net W t = Rejected err"
  then have "rawUrl \<noteq> []" "normalizeUrl U rawUrl = Inr t" "c t = None"
    "page_net W t = Rejected err"
    by blast+
  then show "analyze U f W c rawUrl = Some (handler err, c)"
    by (rule analyze_page_rejected)
next
  show "error_kind (handler err) = Some FetchFailed
     \<longleftrightarrow> err_status err \<noteq> Some 403 \<and> err_status err \<noteq> Some 401
         \<and> err_code err \<noteq> Some ''ECONNREFUSED'' \<and> err_code err \<noteq> Some ''ENOTFOUND''
         \<and> err_code err \<noteq> Some ''ETIMEDOUT''
         \<and> \<not> (\<exists>msg. err_message err = Some msg \<and> js_includes msg ''timeout'')"
    by (rule handler_generic_iff)
next
  assume "error_kind (handler err) = Some FetchFailed"
  then show "handler err
      = Error_json 500 (''Failed to analyze site. '' @ or_empty (err_message err))"
    by (rule handler_kind)
qed

theorem analyze_access_blocked_witness:
  "normalizeUrl simple_url ''example.com'' = Inr ''https://example.com/''
   \<and> page_net world_blocked ''https://example.com/'' = Rejected forbidden
   \<and> err_status forbidden = Some 403
   \<and> (\<forall>f. analyze simple_url f world_blocked Map.empty ''example.com''
          = Some (Error_json 403 msg_blocked, Map.empty))
   \<and> error_kind (handler bad_gateway) = Some FetchFailed
   \<and> err_status bad_gateway = Some 502
   \<and> handler bad_gateway
       = Error_json 500 ''Failed to analyze site. Request failed with status code 502''"
proof -
  have raw: "''example.com'' \<noteq> []" by simp
  have "analyze simple_url f world_blocked Map.empty ''example.com''
          = Some (Error_json 403 msg_blocked, Map.empty)" for f
    using analyze_access_blocked
      [of "''example.com''" simple_url "''https://example.com/''" Map.empty world_blocked
        forbidden f]
      raw world_blocked_eval(1-3)
    by blast
  moreover have k: "error_kind (handler bad_gateway) = Some FetchFailed"
    by (simp add: handler_generic_example error_kind_def)
  moreover have "err_status bad_gateway = Some 502"
    by (simp add: bad_gateway_def)
  moreover have "handler bad_gateway
       = Error_json 500 ''Failed to analyze site. Request failed with status code 502''"
    using analyze_access_blocked [of _ _ _ _ _ bad_gateway] k
    by (simp add: bad_gateway_def or_empty_def)
  ultimately show ?thesis
    using world_blocked_eval by blast
qed

text \<open>
  The claim as stated fails on a page fetch that rejects because the name lookup failed
  with the code \<open>EAI_AGAIN\<close>: it is a DNS failure, and the route answers with the generic
  500 response.  The same holds of a connection reset, with the code \<open>ECONNRESET\<close>, and
  of a timeout reported with the code \<open>ESOCKETTIMEDOUT\<close> and the message
  \<open>Socket timed out\<close>.
\<close>

theorem analyze_generic_failure_counterexample:
  "err_status dns_again = None \<and> err_code dns_again = Some ''EAI_AGAIN''
   \<and> normalizeUrl simple_url ''example.com'' = Inr ''https://example.com/''
   \<and> page_net world_dns ''https://example.com/'' = Rejected dns_again
   \<and> (\<forall>f. analyze simple_url f world_dns Map.empty ''example.com''
          = Some (Error_json 500 ''Failed to analyze site. getaddrinfo EAI_AGAIN example.com'',
                  Map.empty))
   \<and> error_kind (Error_json 500 ''Failed to analyze site. getaddrinfo EAI_AGAIN example.com'')
       = Some FetchFailed
   \<and> error_kind (handler dns_again) = Some FetchFailed
   \<and> err_code conn_reset = Some ''ECONNRESET''
   \<and> error_kind (handler conn_reset) = Some FetchFailed
   \<and> err_code socket_timed_out = Some ''ESOCKETTIMEDOUT''
   \<and> error_kind (handler socket_timed_out) = Some FetchFailed"
proof -
  have "err_status dns_again = None" "err_code dns_again = Some ''EAI_AGAIN''"
    "err_code conn_reset = Some ''ECONNRESET''"
    "err_code socket_timed_out = Some ''ESOCKETTIMEDOUT''"
    by (simp_all add: dns_again_def conn_reset_def socket_timed_out_def)
  moreover have "error_kind (handler dns_again) = Some FetchFailed"
    "error_kind (handler conn_reset) = Some FetchFailed"
    "error_kind (handler socket_timed_out) = Some FetchFailed"
    "error_kind (Error_json 500 ''Failed to analyze site. getaddrinfo EAI_AGAIN example.com'')
       = Some FetchFailed"
    by (simp_all add: unrecognised_errors error_kind_def)
  ultimately show ?thesis
    using world_dns_route world_blocked_eval(1) world_dns_eval by simp
qed

end
